(* ===== verification/Arcade_Prelude.thy ===== *)
theory Arcade_Prelude
  imports Complex_Main "HOL-Library.Multiset"
begin

text \<open>
  Shared vocabulary of the arcade development. Python floats are modelled as \<open>real\<close>
  (rounding of IEEE doubles is not modelled), Python ints as \<open>int\<close>. Python's \<open>int()\<close>
  on a float, and pygame's conversion of a float assigned to a \<open>Rect\<close> field, both
  truncate towards zero: \<open>py_trunc\<close>. The module-global \<open>random\<close> generator of the
  three games is made explicit as a value of type \<open>rng\<close>: an infinite source of draws in
  \<open>[0, 1)\<close> and the position of the next draw; \<open>random.uniform\<close>,
  \<open>random.randint\<close> and \<open>random.choice\<close> consume one draw each, as CPython does for
  \<open>uniform\<close> (\<open>a + (b - a) * random()\<close>) and, up to the bit-level detail of
  \<open>_randbelow\<close>, for the other two.
\<close>

named_theorems arcade_simps "unfolding facts of the arcade model"

section \<open>Python numbers\<close>

definition py_trunc :: "real \<Rightarrow> int" where
  "py_trunc x = (if 0 \<le> x then \<lfloor>x\<rfloor> else \<lceil>x\<rceil>)"

definition py_clamp :: "'a::linorder \<Rightarrow> 'a \<Rightarrow> 'a \<Rightarrow> 'a" where
  "py_clamp lo hi v = max lo (min hi v)"

text \<open>\<open>range(start, stop, step)\<close> for a positive step.\<close>

definition py_range :: "int \<Rightarrow> int \<Rightarrow> int \<Rightarrow> int list" where
  "py_range a b step = map (\<lambda>i. a + step * int i) [0..<nat ((b - a + step - 1) div step)]"

lemma py_trunc_of_int [simp]: "py_trunc (of_int a) = a"
  by (simp add: py_trunc_def)

lemma py_trunc_zero [simp]: "py_trunc 0 = 0"
  by (simp add: py_trunc_def)

lemma py_trunc_numeral [simp]: "py_trunc (numeral n) = numeral n"
  by (simp add: py_trunc_def)

lemma py_trunc_neg_numeral [simp]: "py_trunc (- numeral n) = - numeral n"
  by (simp add: py_trunc_def)

lemma py_trunc_mono: "x \<le> y \<Longrightarrow> py_trunc x \<le> py_trunc y"
proof -
  assume le: "x \<le> y"
  have "\<lceil>x\<rceil> \<le> \<lfloor>y\<rfloor>" if "x < 0" "0 \<le> y"
    using that by (meson ceiling_le_zero less_imp_le order.trans zero_le_floor)
  with le show ?thesis
    unfolding py_trunc_def by (auto intro: floor_mono ceiling_mono)
qed

lemma py_trunc_between: "of_int a \<le> x \<Longrightarrow> x \<le> of_int b \<Longrightarrow> a \<le> py_trunc x \<and> py_trunc x \<le> b"
  using py_trunc_mono [of "of_int a" x] py_trunc_mono [of x "of_int b"] by simp

lemma py_trunc_ge_step:
  assumes "1 \<le> r"
  shows "a + 1 \<le> py_trunc (of_int a + r)"
proof (cases "0 \<le> of_int a + r")
  case True
  then have "py_trunc (of_int a + r) = a + \<lfloor>r\<rfloor>"
    by (simp add: py_trunc_def add.commute [of "of_int a"])
  moreover have "1 \<le> \<lfloor>r\<rfloor>" using assms by linarith
  ultimately show ?thesis by simp
next
  case False
  then have "py_trunc (of_int a + r) = a + \<lceil>r\<rceil>"
    by (simp add: py_trunc_def add.commute [of "of_int a"])
  moreover have "1 \<le> \<lceil>r\<rceil>" using assms by linarith
  ultimately show ?thesis by simp
qed

lemma py_trunc_le_step:
  assumes "r < 1"
  shows "py_trunc (of_int a + r) \<le> a + 1"
proof -
  have "of_int a + r \<le> of_int (a + 1)" using assms by simp
  then show ?thesis using py_trunc_mono py_trunc_of_int by metis
qed

lemma py_clamp_bounds [simp]: "lo \<le> hi \<Longrightarrow> lo \<le> py_clamp lo hi v \<and> py_clamp lo hi v \<le> hi"
  by (simp add: py_clamp_def)

section \<open>The random source\<close>

record rng =
  rnd_src :: "nat \<Rightarrow> real"
  rnd_pos :: nat

definition rng_ok :: "rng \<Rightarrow> bool" where
  "rng_ok g \<longleftrightarrow> (\<forall>n. 0 \<le> rnd_src g n \<and> rnd_src g n < 1)"

text \<open>\<open>random.random()\<close>: the next draw.\<close>

definition py_random :: "rng \<Rightarrow> real \<times> rng" where
  "py_random g = (rnd_src g (rnd_pos g), g\<lparr>rnd_pos := Suc (rnd_pos g)\<rparr>)"

text \<open>\<open>random.uniform(a, b)\<close> is \<open>a + (b - a) * random()\<close> in CPython.\<close>

definition uniform :: "real \<Rightarrow> real \<Rightarrow> rng \<Rightarrow> real \<times> rng" where
  "uniform a b g = (let (u, g') = py_random g in (a + (b - a) * u, g'))"

text \<open>\<open>random.randint(a, b)\<close> is \<open>a + _randbelow(b - a + 1)\<close>; one draw stands for
  \<open>_randbelow\<close>.\<close>

definition randint :: "int \<Rightarrow> int \<Rightarrow> rng \<Rightarrow> int \<times> rng" where
  "randint a b g = (let (u, g') = py_random g in (a + \<lfloor>u * of_int (b - a + 1)\<rfloor>, g'))"

text \<open>\<open>random.choice(seq)\<close> on the non-empty literal lists the games pass.\<close>

definition py_choice :: "'a list \<Rightarrow> rng \<Rightarrow> 'a \<times> rng" where
  "py_choice xs g = (let (u, g') = py_random g in (xs ! nat \<lfloor>u * of_nat (length xs)\<rfloor>, g'))"

lemmas rng_draws [arcade_simps] = py_random_def uniform_def randint_def py_choice_def

lemma py_random_src [simp]: "rnd_src (snd (py_random g)) = rnd_src g"
  by (simp add: py_random_def)

lemma rng_ok_py_random [simp]: "rng_ok (snd (py_random g)) = rng_ok g"
  by (simp add: rng_ok_def)

lemma rng_ok_uniform [simp]: "rng_ok (snd (uniform a b g)) = rng_ok g"
  by (simp add: uniform_def py_random_def rng_ok_def)

lemma rng_ok_randint [simp]: "rng_ok (snd (randint a b g)) = rng_ok g"
  by (simp add: randint_def py_random_def rng_ok_def)

lemma rng_ok_py_choice [simp]: "rng_ok (snd (py_choice xs g)) = rng_ok g"
  by (simp add: py_choice_def py_random_def rng_ok_def)

lemma uniform_fst: "fst (uniform a b g) = a + (b - a) * fst (py_random g)"
  by (simp add: uniform_def split_def Let_def)

lemma randint_fst: "fst (randint a b g) = a + \<lfloor>fst (py_random g) * of_int (b - a + 1)\<rfloor>"
  by (simp add: randint_def split_def Let_def)

lemma py_choice_fst: "fst (py_choice xs g) = xs ! nat \<lfloor>fst (py_random g) * of_nat (length xs)\<rfloor>"
  by (simp add: py_choice_def split_def Let_def)

lemma py_random_range: "rng_ok g \<Longrightarrow> 0 \<le> fst (py_random g) \<and> fst (py_random g) < 1"
  by (simp add: rng_ok_def py_random_def)

lemma randint_range:
  assumes "rng_ok g" and "a \<le> b"
  shows "a \<le> fst (randint a b g) \<and> fst (randint a b g) \<le> b"
proof -
  define u where "u = fst (py_random g)"
  have u: "0 \<le> u" "u < 1" using py_random_range [OF assms(1)] by (simp_all add: u_def)
  have n: "(0::real) < of_int (b - a + 1)" using assms(2) by (simp only: of_int_0_less_iff)
  have lo: "0 \<le> \<lfloor>u * of_int (b - a + 1)\<rfloor>" using u n by simp
  have "u * of_int (b - a + 1) < of_int (b - a + 1)" using u n by simp
  then have hi: "\<lfloor>u * of_int (b - a + 1)\<rfloor> < b - a + 1" by (simp only: floor_less_iff)
  show ?thesis using lo hi by (simp add: randint_fst u_def)
qed

lemma uniform_range:
  assumes "rng_ok g" and "a \<le> b"
  shows "a \<le> fst (uniform a b g) \<and> fst (uniform a b g) \<le> b"
proof -
  define u where "u = fst (py_random g)"
  have u: "0 \<le> u" "u \<le> 1" using py_random_range [OF assms(1)] by (simp_all add: u_def)
  have "0 \<le> (b - a) * u" using u assms(2) by simp
  moreover have "(b - a) * u \<le> b - a" using u assms(2) by (simp add: mult_left_le)
  ultimately show ?thesis by (simp add: uniform_fst u_def)
qed

lemma py_choice_in_set:
  assumes "rng_ok g" and "xs \<noteq> []"
  shows "fst (py_choice xs g) \<in> set xs"
proof -
  define u where "u = fst (py_random g)"
  have u: "0 \<le> u" "u < 1" using py_random_range [OF assms(1)] by (simp_all add: u_def)
  have "u * of_nat (length xs) < of_nat (length xs)" using u assms(2) by simp
  then have "nat \<lfloor>u * of_nat (length xs)\<rfloor> < length xs"
    using u by (simp add: nat_less_iff floor_less_iff)
  then show ?thesis by (simp add: py_choice_fst u_def)
qed

section \<open>Iterating a state update\<close>

lemma rng_ok_zero [simp]: "rng_ok \<lparr>rnd_src = \<lambda>_. 0, rnd_pos = 0\<rparr>"
  by (simp add: rng_ok_def)

lemma funpow_Suc_apply: "(f ^^ Suc n) x = (f ^^ n) (f x)"
  by (simp add: funpow_swap1)

section \<open>Runs of the game loop\<close>

text \<open>Each game is a loop of frames; a frame reads one frame's input and either
  continues with a new state or ends the process (\<open>None\<close>, the quit event). A run
  feeds a sequence of inputs to the loop, one per iteration, and stops at the first
  \<open>None\<close>.\<close>

fun run_frames :: "('i \<Rightarrow> 's \<Rightarrow> 's option) \<Rightarrow> 'i list \<Rightarrow> 's \<Rightarrow> 's option" where
  "run_frames f [] s = Some s"
| "run_frames f (i # is) s = (case f i s of None \<Rightarrow> None | Some s' \<Rightarrow> run_frames f is s')"

lemma run_frames_append:
  "run_frames f (is @ js) s = Option.bind (run_frames f is s) (run_frames f js)"
  by (induction "is" arbitrary: s) (auto split: option.split)

lemma run_frames_snoc [simp]: "run_frames f (is @ [i]) s = Option.bind (run_frames f is s) (f i)"
  by (cases "run_frames f is s") (auto simp: run_frames_append split: option.split)

text \<open>A property that holds initially and that every frame keeps holds after every run:
  the induction behind the equivalence of a reachability relation with the runs.\<close>

lemma run_frames_induct:
  assumes "run_frames f is s = Some s'" and "P s" and "\<And>i s s'. P s \<Longrightarrow> f i s = Some s' \<Longrightarrow> P s'"
  shows "P s'"
  using assms(1,2) by (induction "is" arbitrary: s) (auto split: option.splits intro: assms(3))

text \<open>A reachability relation given by a start rule, a frame rule and its induction rule
  holds of exactly the states of the runs from a start state.\<close>

lemma reachable_iff_run_frames:
  assumes start: "\<And>g. Q g \<Longrightarrow> R (init g)"
    and frame: "\<And>s i s'. R s \<Longrightarrow> f i s = Some s' \<Longrightarrow> R s'"
    and induct: "\<And>x P. R x \<Longrightarrow> (\<And>g. Q g \<Longrightarrow> P (init g)) \<Longrightarrow>
                   (\<And>s i s'. R s \<Longrightarrow> P s \<Longrightarrow> f i s = Some s' \<Longrightarrow> P s') \<Longrightarrow> P x"
  shows "R s \<longleftrightarrow> (\<exists>g is. Q g \<and> run_frames f is (init g) = Some s)"
proof
  assume "R s"
  then show "\<exists>g is. Q g \<and> run_frames f is (init g) = Some s"
  proof (rule induct)
    fix g assume "Q g"
    then show "\<exists>g' is. Q g' \<and> run_frames f is (init g') = Some (init g)"
      by (intro exI [of _ g] exI [of _ "[]"]) simp
  next
    fix s0 i s' assume "\<exists>g is. Q g \<and> run_frames f is (init g) = Some s0" and "f i s0 = Some s'"
    then show "\<exists>g is. Q g \<and> run_frames f is (init g) = Some s'"
      by (metis bind.bind_lunit run_frames_snoc)
  qed
next
  assume "\<exists>g is. Q g \<and> run_frames f is (init g) = Some s"
  then obtain g "is" where "Q g" and r: "run_frames f is (init g) = Some s" by blast
  from r start [OF \<open>Q g\<close>] show "R s" by (rule run_frames_induct) (rule frame)
qed

section \<open>Passes that keep an invariant\<close>

text \<open>A frame is a composition of passes over the game state; an invariant of the frame
  follows from one lemma per pass.\<close>

definition keeps :: "('s \<Rightarrow> bool) \<Rightarrow> ('s \<Rightarrow> 's) \<Rightarrow> bool" where
  "keeps P f \<longleftrightarrow> (\<forall>s. P s \<longrightarrow> P (f s))"

lemma keepsI [intro?]: "(\<And>s. P s \<Longrightarrow> P (f s)) \<Longrightarrow> keeps P f"
  by (simp add: keeps_def)

lemma keepsD: "keeps P f \<Longrightarrow> P s \<Longrightarrow> P (f s)"
  by (simp add: keeps_def)

lemma keeps_comp [intro]: "keeps P f \<Longrightarrow> keeps P g \<Longrightarrow> keeps P (f \<circ> g)"
  by (simp add: keeps_def)

end
