(* ===== verification/Pygame_Model.thy ===== *)
theory Pygame_Model
  imports Arcade_Prelude
begin

text \<open>
  The part of pygame the games' simulation relies on: \<open>pygame.Rect\<close> (integer
  position and size), its derived edges, the placement by \<open>get_rect(center=...)\<close> and
  \<open>get_rect(midbottom=...)\<close>, and \<open>colliderect\<close>, the axis-aligned bounding-box
  test of pygame's C implementation (\<open>_pg_do_rects_intersect\<close>). pygame is a library
  the sources only call, so these definitions follow its documented behaviour; the size of
  the display surface is a \<open>screen\<close> value, since every game reads it once at start-up.
  The input side is the event queue (\<open>pygame.event.get()\<close>, drained once per frame) and
  the held-key state (\<open>pygame.key.get_pressed()\<close>), restricted to the event types and
  keys the games test; every other event or key is \<open>OTHER\<close> or \<open>K_other\<close>, which
  the games ignore.
\<close>

datatype key = K_SPACE | K_r | K_LEFT | K_RIGHT | K_UP | K_DOWN | K_a | K_d | K_p | K_q
  | K_ESCAPE | K_RETURN | K_other

datatype event = QUIT | KEYDOWN key | MOUSEBUTTONDOWN | OTHER

text \<open>One frame's input: the drained event queue, the held keys, the left mouse button
  and the millisecond clock \<open>pygame.time.get_ticks()\<close>.\<close>

record frame_input =
  fi_events :: "event list"
  fi_held :: "key \<Rightarrow> bool"
  fi_mouse :: bool
  fi_ticks :: int

record rect =
  rx :: int
  ry :: int
  rw :: int
  rh :: int

record screen =
  scr_w :: int
  scr_h :: int

definition rect_left :: "rect \<Rightarrow> int" where "rect_left r = rx r"
definition rect_right :: "rect \<Rightarrow> int" where "rect_right r = rx r + rw r"
definition rect_top :: "rect \<Rightarrow> int" where "rect_top r = ry r"
definition rect_bottom :: "rect \<Rightarrow> int" where "rect_bottom r = ry r + rh r"

text \<open>pygame computes \<open>centerx\<close> as \<open>x + w / 2\<close> in C; the games' sizes are positive,
  where C's division is \<open>div\<close>.\<close>

definition rect_centerx :: "rect \<Rightarrow> int" where "rect_centerx r = rx r + rw r div 2"
definition rect_centery :: "rect \<Rightarrow> int" where "rect_centery r = ry r + rh r div 2"

lemmas rect_edges [arcade_simps] = rect_left_def rect_right_def rect_top_def rect_bottom_def rect_centerx_def rect_centery_def

text \<open>\<open>surface.get_rect(center=(cx, cy))\<close> for a surface of size \<open>w \<times> h\<close>.\<close>

definition rect_center :: "int \<Rightarrow> int \<Rightarrow> int \<Rightarrow> int \<Rightarrow> rect" where
  "rect_center w h cx cy = \<lparr>rx = cx - w div 2, ry = cy - h div 2, rw = w, rh = h\<rparr>"

text \<open>\<open>surface.get_rect(midbottom=(cx, bt))\<close>.\<close>

definition rect_midbottom :: "int \<Rightarrow> int \<Rightarrow> int \<Rightarrow> int \<Rightarrow> rect" where
  "rect_midbottom w h cx bt = \<lparr>rx = cx - w div 2, ry = bt - h, rw = w, rh = h\<rparr>"

definition colliderect :: "rect \<Rightarrow> rect \<Rightarrow> bool" where
  "colliderect a b \<longleftrightarrow>
     rw a \<noteq> 0 \<and> rh a \<noteq> 0 \<and> rw b \<noteq> 0 \<and> rh b \<noteq> 0 \<and>
     min (rx a) (rx a + rw a) < max (rx b) (rx b + rw b) \<and>
     min (ry a) (ry a + rh a) < max (ry b) (ry b + rh b) \<and>
     max (rx a) (rx a + rw a) > min (rx b) (rx b + rw b) \<and>
     max (ry a) (ry a + rh a) > min (ry b) (ry b + rh b)"

lemma colliderect_sym: "colliderect a b = colliderect b a"
  by (auto simp: colliderect_def)

text \<open>For rectangles of positive size, the test is the usual overlap of the open boxes.\<close>

lemma colliderect_pos:
  assumes "0 < rw a" "0 < rh a" "0 < rw b" "0 < rh b"
  shows "colliderect a b \<longleftrightarrow>
           rect_left a < rect_right b \<and> rect_top a < rect_bottom b \<and>
           rect_right a > rect_left b \<and> rect_bottom a > rect_top b"
  using assms by (simp add: colliderect_def rect_edges)

lemma rect_center_size [simp]:
  "rw (rect_center w h cx cy) = w" "rh (rect_center w h cx cy) = h"
  by (simp_all add: rect_center_def)

lemma rect_midbottom_size [simp]:
  "rw (rect_midbottom w h cx bt) = w" "rh (rect_midbottom w h cx bt) = h"
  by (simp_all add: rect_midbottom_def)

end
