(* ===== verification/SI_Entities.thy ===== *)
theory SI_Entities
  imports Pygame_Model
begin

text \<open>
  The transient and obstacle entities of \<open>src/apps/arcade/games/SpaceInvader.py\<close>:
  \<open>Star\<close>, \<open>Particle\<close> and \<open>ParticleSystem\<close>, the player's \<open>Bullet\<close>, \<open>Alien\<close>,
  \<open>AlienBullet\<close> and \<open>PowerUp\<close>. Each class is a record of its simulation fields (the
  pre-rendered \<open>image\<close> surfaces and the constant sizes are left out: they are read
  only by drawing), its constructor a function that draws from the random source, and its
  \<open>update\<close>/\<open>move\<close> method a function on the record. The lemmas give each entity's
  shape invariant, its motion per tick, and the bound on its lifetime.
\<close>

section \<open>Constants and colours\<close>

definition PLAYER_SPEED :: int where "PLAYER_SPEED = 6"
definition BULLET_SPEED :: int where "BULLET_SPEED = 10"
definition ALIEN_SPAWN_RATE :: int where "ALIEN_SPAWN_RATE = 60"
definition POWERUP_SPEED :: int where "POWERUP_SPEED = 3"

type_synonym colour = "nat \<times> nat \<times> nat"

definition RED :: colour where "RED = (255, 0, 0)"
definition ORANGE :: colour where "ORANGE = (255, 165, 0)"
definition PURPLE :: colour where "PURPLE = (200, 0, 255)"
definition CYAN :: colour where "CYAN = (0, 255, 255)"

lemmas si_constants [arcade_simps] = PLAYER_SPEED_def BULLET_SPEED_def ALIEN_SPAWN_RATE_def
  POWERUP_SPEED_def

section \<open>Star\<close>

record star =
  st_x :: real
  st_y :: real
  st_speed :: real
  st_brightness :: int
  st_size :: int

definition star_new :: "screen \<Rightarrow> rng \<Rightarrow> star \<times> rng" where
  "star_new scr g =
     (let (x, g1) = randint 0 (scr_w scr) g;
          (y, g2) = randint 0 (scr_h scr) g1;
          (sp, g3) = uniform 0.5 2 g2;
          (br, g4) = randint 100 255 g3;
          (sz, g5) = randint 1 3 g4
      in (\<lparr>st_x = of_int x, st_y = of_int y, st_speed = sp, st_brightness = br, st_size = sz\<rparr>, g5))"

definition star_update :: "screen \<Rightarrow> star \<Rightarrow> rng \<Rightarrow> star \<times> rng" where
  "star_update scr s g =
     (let y = st_y s + st_speed s
      in if y > of_int (scr_h scr)
         then (let (x, g') = randint 0 (scr_w scr) g in (s\<lparr>st_x := of_int x, st_y := 0\<rparr>, g'))
         else (s\<lparr>st_y := y\<rparr>, g))"

section \<open>Particles\<close>

record particle =
  pt_x :: real
  pt_y :: real
  pt_color :: colour
  pt_vx :: real
  pt_vy :: real
  pt_lifetime :: int
  pt_size :: real

definition particle_new :: "real \<Rightarrow> real \<Rightarrow> colour \<Rightarrow> rng \<Rightarrow> particle \<times> rng" where
  "particle_new x y c g =
     (let (vx, g1) = uniform (-4) 4 g;
          (vy, g2) = uniform (-4) 4 g1;
          (sz, g3) = randint 2 6 g2
      in (\<lparr>pt_x = x, pt_y = y, pt_color = c, pt_vx = vx, pt_vy = vy, pt_lifetime = 40,
            pt_size = of_int sz\<rparr>, g3))"

definition particle_update :: "particle \<Rightarrow> particle" where
  "particle_update p =
     p\<lparr>pt_x := pt_x p + pt_vx p, pt_y := pt_y p + pt_vy p, pt_vy := pt_vy p + 0.2,
       pt_lifetime := pt_lifetime p - 1, pt_size := max 1 (pt_size p - 0.1)\<rparr>"

text \<open>\<open>ParticleSystem()\<close>: the system holds its particles in a list, empty at first.\<close>

definition ps_new :: "particle list" where
  "ps_new = []"

declare ps_new_def [simp]

text \<open>\<open>ParticleSystem.emit\<close>: \<open>count\<close> new particles appended in order.\<close>

fun ps_emit :: "real \<Rightarrow> real \<Rightarrow> colour \<Rightarrow> nat \<Rightarrow> particle list \<Rightarrow> rng \<Rightarrow> particle list \<times> rng" where
  "ps_emit x y c 0 ps g = (ps, g)"
| "ps_emit x y c (Suc n) ps g =
     (let (p, g') = particle_new x y c g in ps_emit x y c n (ps @ [p]) g')"

text \<open>\<open>ParticleSystem.update\<close>: drop the expired particles first, then age the rest.\<close>

definition ps_update :: "particle list \<Rightarrow> particle list" where
  "ps_update ps = map particle_update (filter (\<lambda>p. pt_lifetime p > 0) ps)"

section \<open>The player's bullet\<close>

record bullet =
  bl_rect :: rect
  bl_angle :: int

definition bullet_new :: "int \<Rightarrow> int \<Rightarrow> int \<Rightarrow> bullet" where
  "bullet_new x y angle = \<lparr>bl_rect = rect_center 4 18 x y, bl_angle = angle\<rparr>"

definition bullet_move :: "bullet \<Rightarrow> bullet" where
  "bullet_move b =
     b\<lparr>bl_rect := (bl_rect b)\<lparr>ry := ry (bl_rect b) - BULLET_SPEED,
                               rx := rx (bl_rect b) + bl_angle b * 2\<rparr>\<rparr>"

section \<open>Aliens\<close>

record alien =
  al_type :: int
  al_rect :: rect
  al_speed_y :: real
  al_speed_x :: real
  al_points :: int
  al_shoot_cooldown :: int
  al_wobble :: real

text \<open>
  \<open>Alien.__init__\<close>. The third kind's horizontal speed reads the clock
  (\<open>pygame.time.get_ticks()\<close>, milliseconds), passed as \<open>ticks\<close>. In the second kind
  \<open>random.choice\<close> is drawn before \<open>random.uniform\<close>, as Python evaluates the product.
\<close>

definition alien_new :: "int \<Rightarrow> int \<Rightarrow> int \<Rightarrow> rng \<Rightarrow> alien \<times> rng" where
  "alien_new ticks x ty g =
     (let (sy, sx, pts, g1) =
        (if ty = 0 then (let (sy, g1) = uniform 1.5 2.5 g in (sy, 0, 10, g1))
         else if ty = 1 then
           (let (sy, g1) = uniform 2 3 g;
                (d, g2) = py_choice [-1, 1] g1;
                (m, g3) = uniform 0.5 1.5 g2
            in (sy, d * m, 20, g3))
         else (let (sy, g1) = uniform 2.5 3.5 g in (sy, sin (of_int ticks / 1000) * 2, 30, g1)));
        (cd, g2) = randint 60 180 g1;
        (wb, g3) = uniform 0 (pi * 2) g2
      in (\<lparr>al_type = ty, al_rect = rect_center 50 50 x (-50), al_speed_y = sy, al_speed_x = sx,
            al_points = pts, al_shoot_cooldown = cd, al_wobble = wb\<rparr>, g3))"

text \<open>
  \<open>Alien.move\<close>: fall by \<open>speed_y\<close>, drift (wobble for the second and third kinds,
  \<open>speed_x\<close> for the first), and keep inside the screen horizontally, reversing
  \<open>speed_x\<close>. The float sums are truncated when stored into the \<open>Rect\<close>.
\<close>

definition alien_move :: "screen \<Rightarrow> alien \<Rightarrow> alien" where
  "alien_move scr a =
     (let r = al_rect a;
          r1 = r\<lparr>ry := py_trunc (of_int (ry r) + al_speed_y a)\<rparr>;
          a1 = (if al_type a \<ge> 1
                then (let wb = al_wobble a + 0.05
                      in a\<lparr>al_wobble := wb,
                           al_rect := r1\<lparr>rx := py_trunc (of_int (rx r1) + sin wb * 1.5)\<rparr>\<rparr>)
                else a\<lparr>al_rect := r1\<lparr>rx := py_trunc (of_int (rx r1) + al_speed_x a)\<rparr>\<rparr>);
          r2 = al_rect a1
      in if rect_left r2 < 0
         then a1\<lparr>al_rect := r2\<lparr>rx := 0\<rparr>, al_speed_x := - al_speed_x a1\<rparr>
         else if rect_right r2 > scr_w scr
         then a1\<lparr>al_rect := r2\<lparr>rx := scr_w scr - rw r2\<rparr>, al_speed_x := - al_speed_x a1\<rparr>
         else a1)"

text \<open>\<open>Alien.can_shoot\<close>: count down; at zero, re-arm with a fresh random delay.\<close>

definition alien_can_shoot :: "alien \<Rightarrow> rng \<Rightarrow> bool \<times> alien \<times> rng" where
  "alien_can_shoot a g =
     (let cd = al_shoot_cooldown a - 1
      in if cd \<le> 0
         then (let (n, g') = randint 80 200 g in (True, a\<lparr>al_shoot_cooldown := n\<rparr>, g'))
         else (False, a\<lparr>al_shoot_cooldown := cd\<rparr>, g))"

section \<open>Alien bullets and power-ups\<close>

record alien_bullet =
  ab_rect :: rect

definition alien_bullet_new :: "int \<Rightarrow> int \<Rightarrow> alien_bullet" where
  "alien_bullet_new x y = \<lparr>ab_rect = rect_center 6 16 x y\<rparr>"

definition alien_bullet_move :: "alien_bullet \<Rightarrow> alien_bullet" where
  "alien_bullet_move b = b\<lparr>ab_rect := (ab_rect b)\<lparr>ry := ry (ab_rect b) + 4\<rparr>\<rparr>"

text \<open>The power-up kinds are the strings \<open>"triple"\<close> and \<open>"shield"\<close> of the source.\<close>

datatype powerup_kind = Triple | Shield

record powerup =
  pu_type :: powerup_kind
  pu_rect :: rect
  pu_wobble :: real

definition powerup_new :: "int \<Rightarrow> int \<Rightarrow> powerup_kind \<Rightarrow> powerup" where
  "powerup_new x y k = \<lparr>pu_type = k, pu_rect = rect_center 25 25 x y, pu_wobble = 0\<rparr>"

definition powerup_move :: "powerup \<Rightarrow> powerup" where
  "powerup_move p =
     (let r = pu_rect p; r1 = r\<lparr>ry := ry r + POWERUP_SPEED\<rparr>; wb = pu_wobble p + 0.1
      in p\<lparr>pu_wobble := wb, pu_rect := r1\<lparr>rx := py_trunc (of_int (rx r1) + sin wb * 0.5)\<rparr>\<rparr>)"

text \<open>The shape every alien keeps: its kind, its \<open>50 \<times> 50\<close> rectangle, a fall of
  at least one pixel a tick, and the points its kind is worth.\<close>

definition alien_ok :: "alien \<Rightarrow> bool" where
  "alien_ok a \<longleftrightarrow> al_type a \<in> {0, 1, 2} \<and> rw (al_rect a) = 50 \<and> rh (al_rect a) = 50 \<and>
     1 \<le> al_speed_y a \<and> al_points a = 10 * (al_type a + 1)"

section \<open>Lemmas\<close>

text \<open>C10: a particle system left to itself is empty one update after the largest remaining lifetime has run out: every particle is removed in bounded time.\<close>

lemma ps_update_lifetime_bound:
  "\<forall>p\<in>set ps. pt_lifetime p \<le> int n \<Longrightarrow> (ps_update ^^ Suc n) ps = []"
proof (induction n arbitrary: ps)
  case 0
  then show ?case by (auto simp: ps_update_def filter_empty_conv)
next
  case (Suc n)
  have "\<forall>p\<in>set (ps_update ps). pt_lifetime p \<le> int n"
    using Suc.prems by (auto simp: ps_update_def particle_update_def)
  then have "(ps_update ^^ Suc n) (ps_update ps) = []" by (rule Suc.IH)
  then show ?case by (simp only: funpow_Suc_apply)
qed


lemma ps_update_lifetime_bound_witness:
  "let p = \<lparr>pt_x = 0, pt_y = 0, pt_color = RED, pt_vx = 1, pt_vy = 0, pt_lifetime = 40, pt_size = 3\<rparr>
   in (\<forall>q\<in>set [p, p\<lparr>pt_lifetime := 7\<rparr>]. pt_lifetime q \<le> int 40) \<and>
      (ps_update ^^ Suc 40) [p, p\<lparr>pt_lifetime := 7\<rparr>] = []"
proof -
  let ?p = "\<lparr>pt_x = 0, pt_y = 0, pt_color = RED, pt_vx = 1, pt_vy = 0, pt_lifetime = 40, pt_size = 3\<rparr>"
  have h: "\<forall>q\<in>set [?p, ?p\<lparr>pt_lifetime := 7\<rparr>]. pt_lifetime q \<le> int 40" by simp
  show ?thesis using ps_update_lifetime_bound [OF h] h by (simp add: Let_def)
qed

lemma ps_emit_shape:
  "\<exists>qs. ps_emit x y c n ps g = (ps @ qs, snd (ps_emit x y c n ps g)) \<and> length qs = n \<and>
        (\<forall>q\<in>set qs. pt_lifetime q = 40)"
proof (induction n arbitrary: ps g)
  case 0
  then show ?case by simp
next
  case (Suc n)
  obtain p g' where pg: "particle_new x y c g = (p, g')" by fastforce
  have life: "pt_lifetime p = 40" using pg by (auto simp: particle_new_def split_def Let_def)
  obtain qs where "ps_emit x y c n (ps @ [p]) g' = ((ps @ [p]) @ qs, snd (ps_emit x y c n (ps @ [p]) g'))"
    and "length qs = n" and "\<forall>q\<in>set qs. pt_lifetime q = 40"
    using Suc.IH by blast
  then show ?case using pg life by (intro exI [of _ "p # qs"]) simp
qed

lemma rng_ok_ps_emit [simp]: "rng_ok (snd (ps_emit x y c n ps g)) = rng_ok g"
  by (induction n arbitrary: ps g) (simp_all add: particle_new_def split_def Let_def)

text \<open>After Alien.move an alien (no wider than the screen) lies horizontally inside the screen.\<close>

lemma alien_move_in_field:
  assumes "0 \<le> rw (al_rect a)" and "rw (al_rect a) \<le> scr_w scr"
  shows "0 \<le> rect_left (al_rect (alien_move scr a)) \<and>
         rect_right (al_rect (alien_move scr a)) \<le> scr_w scr"
  using assms by (simp add: alien_move_def Let_def rect_edges)


lemma alien_move_in_field_witness:
  "let a = \<lparr>al_type = 1, al_rect = \<lparr>rx = 2, ry = 0, rw = 50, rh = 50\<rparr>, al_speed_y = 2,
            al_speed_x = 0, al_points = 20, al_shoot_cooldown = 60, al_wobble = 0\<rparr>;
       scr = \<lparr>scr_w = 800, scr_h = 600\<rparr>
   in 0 \<le> rw (al_rect a) \<and> rw (al_rect a) \<le> scr_w scr \<and>
      0 \<le> rect_left (al_rect (alien_move scr a)) \<and> rect_right (al_rect (alien_move scr a)) \<le> scr_w scr"
proof -
  let ?a = "\<lparr>al_type = 1, al_rect = \<lparr>rx = 2, ry = 0, rw = 50, rh = 50\<rparr>, al_speed_y = 2,
            al_speed_x = 0, al_points = 20, al_shoot_cooldown = 60, al_wobble = 0\<rparr>"
  let ?scr = "\<lparr>scr_w = 800, scr_h = 600\<rparr>"
  have h: "0 \<le> rw (al_rect ?a)" "rw (al_rect ?a) \<le> scr_w ?scr" by simp_all
  show ?thesis using alien_move_in_field [OF h] h by (simp add: Let_def)
qed

lemma alien_move_rect:
  "ry (al_rect (alien_move scr a)) = py_trunc (of_int (ry (al_rect a)) + al_speed_y a)"
  "rw (al_rect (alien_move scr a)) = rw (al_rect a)"
  "rh (al_rect (alien_move scr a)) = rh (al_rect a)"
  "al_speed_y (alien_move scr a) = al_speed_y a"
  "al_type (alien_move scr a) = al_type a"
  "al_points (alien_move scr a) = al_points a"
  "al_shoot_cooldown (alien_move scr a) = al_shoot_cooldown a"
  by (simp_all add: alien_move_def Let_def)

lemma alien_new_fields:
  "al_type (fst (alien_new t x ty g)) = ty"
  "al_rect (fst (alien_new t x ty g)) = rect_center 50 50 x (-50)"
  by (simp_all add: alien_new_def split_def Let_def)

lemma alien_new_ok:
  assumes "rng_ok g" and "ty \<in> {0, 1, 2}"
  shows "alien_ok (fst (alien_new t x ty g))"
proof -
  have u1: "3/2 \<le> fst (uniform 1.5 2.5 g)" using uniform_range [OF assms(1), of "1.5" "2.5"] by simp
  have u2: "2 \<le> fst (uniform 2 3 g)" using uniform_range [OF assms(1), of 2 3] by simp
  have u3: "5/2 \<le> fst (uniform 2.5 3.5 g)" using uniform_range [OF assms(1), of "2.5" "3.5"] by simp
  show ?thesis using assms(2) u1 u2 u3
    by (auto simp: alien_ok_def alien_new_def split_def Let_def)
qed

lemma alien_move_ok: "alien_ok a \<Longrightarrow> alien_ok (alien_move scr a)"
  by (simp add: alien_ok_def alien_move_rect)

lemma alien_can_shoot_fields:
  "al_rect (fst (snd (alien_can_shoot a g))) = al_rect a"
  "al_type (fst (snd (alien_can_shoot a g))) = al_type a"
  "al_points (fst (snd (alien_can_shoot a g))) = al_points a"
  "al_speed_y (fst (snd (alien_can_shoot a g))) = al_speed_y a"
  by (simp_all add: alien_can_shoot_def split_def Let_def)

lemma alien_can_shoot_ok: "alien_ok a \<Longrightarrow> alien_ok (fst (snd (alien_can_shoot a g)))"
  by (simp add: alien_ok_def alien_can_shoot_fields)

lemma rng_ok_alien_can_shoot [simp]: "rng_ok (snd (snd (alien_can_shoot a g))) = rng_ok g"
  by (simp add: alien_can_shoot_def split_def Let_def)

lemma alien_moves_descend:
  assumes "1 \<le> al_speed_y a"
  shows "rect_top (al_rect a) + int n \<le> rect_top (al_rect ((alien_move scr ^^ n) a))"
proof (induction n)
  case 0
  then show ?case by simp
next
  case (Suc n)
  have "1 \<le> al_speed_y ((alien_move scr ^^ n) a)"
    using assms by (induction n) (simp_all add: alien_move_rect)
  then have "rect_top (al_rect ((alien_move scr ^^ n) a)) + 1 \<le> rect_top (al_rect ((alien_move scr ^^ Suc n) a))"
    using py_trunc_ge_step by (simp add: alien_move_rect rect_edges)
  with Suc.IH show ?case by simp
qed

lemma alien_ok_points: "alien_ok a \<Longrightarrow> 10 \<le> al_points a"
  by (auto simp: alien_ok_def)

end
