(* ===== verification/SI_Player.thy ===== *)
theory SI_Player
  imports SI_Entities
begin

text \<open>
  The \<open>Player\<close> class of \<open>src/apps/arcade/games/SpaceInvader.py\<close>: the ship's
  rectangle, its list of live bullets, the shot cooldown and the two power-up timers.
  \<open>move\<close>, \<open>shoot\<close>, \<open>update_bullets\<close>, \<open>update_powerups\<close> and
  \<open>activate_powerup\<close> are functions on the record. \<open>speed\<close> and
  \<open>max_shoot_delay\<close> are instance attributes the code never changes, so they are the
  constants \<open>PLAYER_SPEED\<close> and \<open>MAX_SHOOT_DELAY\<close>. \<open>engine_glow\<close> is kept
  although only \<open>draw\<close> changes it.
\<close>

record player =
  pl_rect :: rect
  pl_bullets :: "bullet list"
  pl_shoot_delay :: int
  pl_powerup_active :: bool
  pl_powerup_timer :: int
  pl_shield_active :: bool
  pl_shield_timer :: int
  pl_engine_glow :: int

definition MAX_SHOOT_DELAY :: int where "MAX_SHOOT_DELAY = 10"

text \<open>\<open>Player.__init__\<close>: the ship stands 40 pixels above the bottom edge, centred;
  \<open>SCREEN_WIDTH / 2\<close> is a float, truncated by pygame.\<close>

definition player_new :: "screen \<Rightarrow> player" where
  "player_new scr =
     \<lparr>pl_rect = rect_midbottom 60 50 (py_trunc (of_int (scr_w scr) / 2)) (scr_h scr - 40),
      pl_bullets = [], pl_shoot_delay = 0, pl_powerup_active = False, pl_powerup_timer = 0,
      pl_shield_active = False, pl_shield_timer = 0, pl_engine_glow = 0\<rparr>"

text \<open>The directions are the strings \<open>"left"\<close> and \<open>"right"\<close> of the source.\<close>

datatype direction = Left | Right

definition player_move :: "screen \<Rightarrow> direction \<Rightarrow> player \<Rightarrow> player" where
  "player_move scr d p =
     (let r = pl_rect p
      in case d of
           Left \<Rightarrow> if rect_left r > 0 then p\<lparr>pl_rect := r\<lparr>rx := rx r - PLAYER_SPEED\<rparr>\<rparr> else p
         | Right \<Rightarrow> if rect_right r < scr_w scr
                    then p\<lparr>pl_rect := r\<lparr>rx := rx r + PLAYER_SPEED\<rparr>\<rparr> else p)"

definition player_shoot :: "player \<Rightarrow> player" where
  "player_shoot p =
     (if pl_shoot_delay p \<le> 0
      then (let r = pl_rect p; cx = rect_centerx r; t = rect_top r;
                shots = (if pl_powerup_active p
                         then [bullet_new cx t 0, bullet_new (cx - 20) (t + 10) (-1),
                               bullet_new (cx + 20) (t + 10) 1]
                         else [bullet_new cx t 0])
            in p\<lparr>pl_bullets := pl_bullets p @ shots, pl_shoot_delay := MAX_SHOOT_DELAY\<rparr>)
      else p)"

text \<open>A bullet is dropped once its bottom edge is above the screen.\<close>

definition bullets_step :: "bullet list \<Rightarrow> bullet list" where
  "bullets_step bs = filter (\<lambda>b. \<not> rect_bottom (bl_rect b) < 0) (map bullet_move bs)"

definition player_update_bullets :: "player \<Rightarrow> player" where
  "player_update_bullets p =
     p\<lparr>pl_shoot_delay := (if pl_shoot_delay p > 0 then pl_shoot_delay p - 1 else pl_shoot_delay p),
       pl_bullets := bullets_step (pl_bullets p)\<rparr>"

definition player_update_powerups :: "player \<Rightarrow> player" where
  "player_update_powerups p =
     (let p1 = (if pl_powerup_active p
                then (let t = pl_powerup_timer p - 1
                      in p\<lparr>pl_powerup_timer := t, pl_powerup_active := \<not> t \<le> 0\<rparr>)
                else p)
      in if pl_shield_active p1
         then (let t = pl_shield_timer p1 - 1
               in p1\<lparr>pl_shield_timer := t, pl_shield_active := \<not> t \<le> 0\<rparr>)
         else p1)"

definition player_activate_powerup :: "powerup_kind \<Rightarrow> player \<Rightarrow> player" where
  "player_activate_powerup k p =
     (case k of
        Triple \<Rightarrow> p\<lparr>pl_powerup_active := True, pl_powerup_timer := 400\<rparr>
      | Shield \<Rightarrow> p\<lparr>pl_shield_active := True, pl_shield_timer := 400\<rparr>)"

text \<open>The ship's horizontal range: \<open>move\<close> tests the edge before stepping, so the ship
  can end up to \<open>PLAYER_SPEED - 1\<close> pixels past either edge.\<close>

definition player_in_bounds :: "screen \<Rightarrow> player \<Rightarrow> bool" where
  "player_in_bounds scr p \<longleftrightarrow>
     1 - PLAYER_SPEED \<le> rect_left (pl_rect p) \<and>
     rect_right (pl_rect p) \<le> scr_w scr + PLAYER_SPEED - 1"

section \<open>Lemmas\<close>

lemma py_trunc_half [simp]: "0 \<le> w \<Longrightarrow> py_trunc (of_int w / 2) = w div 2"
proof -
  assume "0 \<le> w"
  moreover have "\<lfloor>(of_int w :: real) / of_int 2\<rfloor> = w div 2" by (rule floor_divide_of_int_eq)
  ultimately show ?thesis by (simp add: py_trunc_def)
qed

lemma player_new_in_bounds: "60 \<le> scr_w scr \<Longrightarrow> player_in_bounds scr (player_new scr)"
  by (simp add: player_in_bounds_def player_new_def rect_midbottom_def rect_edges PLAYER_SPEED_def)
     presburger

text \<open>Player.move keeps the ship within PLAYER_SPEED - 1 pixels of the screen; the edge test comes before the step, so the ship may leave the screen by up to 5 pixels.\<close>

lemma player_move_in_bounds:
  "player_in_bounds scr p \<Longrightarrow> player_in_bounds scr (player_move scr d p)"
  by (cases d) (auto simp: player_in_bounds_def player_move_def rect_edges PLAYER_SPEED_def Let_def)


lemma player_move_in_bounds_witness:
  "let p = (player_new \<lparr>scr_w = 800, scr_h = 600\<rparr>)\<lparr>pl_rect := \<lparr>rx = 1, ry = 510, rw = 60, rh = 50\<rparr>\<rparr>;
       scr = \<lparr>scr_w = 800, scr_h = 600\<rparr>
   in player_in_bounds scr p \<and> player_in_bounds scr (player_move scr Left p) \<and>
      rect_left (pl_rect (player_move scr Left p)) = -5"
proof -
  let ?scr = "\<lparr>scr_w = 800, scr_h = 600\<rparr>"
  let ?p = "(player_new ?scr)\<lparr>pl_rect := \<lparr>rx = 1, ry = 510, rw = 60, rh = 50\<rparr>\<rparr>"
  have h: "player_in_bounds ?scr ?p" by (simp add: player_in_bounds_def rect_edges PLAYER_SPEED_def)
  have "rect_left (pl_rect (player_move ?scr Left ?p)) = -5"
    by (simp add: player_move_def rect_edges PLAYER_SPEED_def)
  then show ?thesis using player_move_in_bounds [OF h, of Left] h by (simp add: Let_def)
qed

text \<open>Several shoot presses within one frame fire a single volley: shooting twice is shooting once.\<close>

lemma player_shoot_twice: "player_shoot (player_shoot p) = player_shoot p"
  by (simp add: player_shoot_def MAX_SHOOT_DELAY_def Let_def)

lemma update_bullets_delay:
  "0 \<le> pl_shoot_delay p \<Longrightarrow>
   pl_shoot_delay ((player_update_bullets ^^ k) p) = max 0 (pl_shoot_delay p - int k)"
  by (induction k) (auto simp: player_update_bullets_def)

text \<open>After a volley the ship cannot fire again for the next nine bullet updates.\<close>

lemma shoot_blocked_while_cooling:
  assumes "pl_shoot_delay p \<le> 0" and "k < 10"
  shows "player_shoot ((player_update_bullets ^^ k) (player_shoot p)) =
         (player_update_bullets ^^ k) (player_shoot p)"
proof -
  have d: "pl_shoot_delay (player_shoot p) = 10"
    using assms(1) by (simp add: player_shoot_def MAX_SHOOT_DELAY_def Let_def)
  then have "pl_shoot_delay ((player_update_bullets ^^ k) (player_shoot p)) = 10 - int k"
    using assms(2) by (simp add: update_bullets_delay)
  then show ?thesis using assms(2) by (simp add: player_shoot_def)
qed


lemma shoot_blocked_while_cooling_witness:
  "let p = player_new \<lparr>scr_w = 800, scr_h = 600\<rparr>
   in pl_shoot_delay p \<le> 0 \<and> (3::nat) < 10 \<and>
      player_shoot ((player_update_bullets ^^ 3) (player_shoot p)) = (player_update_bullets ^^ 3) (player_shoot p)"
proof -
  let ?p = "player_new \<lparr>scr_w = 800, scr_h = 600\<rparr>"
  have h: "pl_shoot_delay ?p \<le> 0" "(3::nat) < 10" by (simp_all add: player_new_def)
  show ?thesis using shoot_blocked_while_cooling [OF h] h by (simp add: Let_def)
qed

lemma shoot_ready_after_cooldown:
  assumes "pl_shoot_delay p \<le> 0"
  shows "pl_shoot_delay ((player_update_bullets ^^ 10) (player_shoot p)) = 0"
proof -
  have d: "pl_shoot_delay (player_shoot p) = 10"
    using assms by (simp add: player_shoot_def MAX_SHOOT_DELAY_def Let_def)
  then show ?thesis by (simp add: update_bullets_delay)
qed

lemma update_bullets_powerup [simp]:
  "pl_powerup_active ((player_update_bullets ^^ k) p) = pl_powerup_active p"
  by (induction k) (simp_all add: player_update_bullets_def)

text \<open>C18: the ship's fire rate. After a volley, a shoot adds no bullet during the next nine
  bullet updates (one per frame) and from the tenth on fires a whole volley again: three
  bullets with the triple-shot power-up, one without.\<close>

theorem player_fire_rate:
  assumes "pl_shoot_delay p \<le> 0"
  shows "length (pl_bullets (player_shoot ((player_update_bullets ^^ k) (player_shoot p)))) =
           length (pl_bullets ((player_update_bullets ^^ k) (player_shoot p))) +
           (if k < 10 then 0 else if pl_powerup_active p then 3 else 1)"
proof -
  define q where "q = (player_update_bullets ^^ k) (player_shoot p)"
  have "pl_shoot_delay (player_shoot p) = 10"
    using assms by (simp add: player_shoot_def MAX_SHOOT_DELAY_def Let_def)
  then have d: "pl_shoot_delay q = max 0 (10 - int k)" by (simp add: q_def update_bullets_delay)
  have a: "pl_powerup_active q = pl_powerup_active p" by (simp add: q_def player_shoot_def Let_def)
  show ?thesis
    unfolding q_def [symmetric] using d a by (cases "k < 10") (simp_all add: player_shoot_def Let_def)
qed

theorem player_fire_rate_witness:
  "let p = player_new \<lparr>scr_w = 800, scr_h = 600\<rparr>; v = player_shoot p
   in pl_shoot_delay p \<le> 0 \<and>
      length (pl_bullets (player_shoot ((player_update_bullets ^^ 9) v))) =
        length (pl_bullets ((player_update_bullets ^^ 9) v)) \<and>
      length (pl_bullets (player_shoot ((player_update_bullets ^^ 10) v))) =
        length (pl_bullets ((player_update_bullets ^^ 10) v)) + 1"
proof -
  define p where "p = player_new \<lparr>scr_w = 800, scr_h = 600\<rparr>"
  have h: "pl_shoot_delay p \<le> 0" "\<not> pl_powerup_active p" by (simp_all add: p_def player_new_def)
  show ?thesis
    using h player_fire_rate [OF h(1), of 9] player_fire_rate [OF h(1), of 10]
    by (simp add: Let_def p_def [symmetric])
qed

text \<open>A player bullet whose bottom edge is below 10 (n + 1) pixels is removed within n + 1 bullet updates: bullets have bounded lifetime.\<close>

lemma bullets_step_gone:
  "\<forall>b\<in>set bs. rect_bottom (bl_rect b) < 10 * (int n + 1) \<Longrightarrow> (bullets_step ^^ Suc n) bs = []"
proof (induction n arbitrary: bs)
  case 0
  then show ?case
    by (auto simp: bullets_step_def bullet_move_def BULLET_SPEED_def rect_edges filter_empty_conv)
next
  case (Suc n)
  have "\<forall>b\<in>set (bullets_step bs). rect_bottom (bl_rect b) < 10 * (int n + 1)"
    using Suc.prems by (auto simp: bullets_step_def bullet_move_def BULLET_SPEED_def rect_edges)
  then have "(bullets_step ^^ Suc n) (bullets_step bs) = []" by (rule Suc.IH)
  then show ?case by (simp only: funpow_Suc_apply)
qed


lemma bullets_step_gone_witness:
  "(bullets_step ^^ Suc 50) [bullet_new 300 500 0] = []"
proof -
  have h: "\<forall>b\<in>set [bullet_new 300 500 0]. rect_bottom (bl_rect b) < 10 * (int 50 + 1)"
    by (simp add: bullet_new_def rect_center_def rect_edges)
  show ?thesis using bullets_step_gone [OF h] by simp
qed

lemma powerup_timer_runs:
  "pl_powerup_active p \<Longrightarrow> pl_powerup_timer p = int m \<Longrightarrow> 0 < m \<Longrightarrow>
   pl_powerup_active ((player_update_powerups ^^ k) p) \<longleftrightarrow> k < m"
proof (induction k arbitrary: p m)
  case 0
  then show ?case by simp
next
  case (Suc k)
  show ?case
  proof (cases "m = 1")
    case True
    have off: "\<not> pl_powerup_active (player_update_powerups p)"
      using Suc.prems True by (simp add: player_update_powerups_def Let_def)
    have "\<not> pl_powerup_active ((player_update_powerups ^^ j) q)" if "\<not> pl_powerup_active q" for j q
      using that by (induction j) (simp_all add: player_update_powerups_def Let_def)
    from this [OF off] True show ?thesis by (simp only: funpow_Suc_apply) simp
  next
    case False
    then have "pl_powerup_active (player_update_powerups p)"
      and "pl_powerup_timer (player_update_powerups p) = int (m - 1)" and "0 < m - 1"
      using Suc.prems by (simp_all add: player_update_powerups_def Let_def of_nat_diff)
    from Suc.IH [OF this] show ?thesis using False Suc.prems(3)
      by (simp only: funpow_Suc_apply) (simp add: less_diff_conv)
  qed
qed

end
