(* ===== verification/SI_Game.thy ===== *)
theory SI_Game
  imports SI_Player
begin

text \<open>
  The \<open>SpaceBattle\<close> class of \<open>src/apps/arcade/games/SpaceInvader.py\<close>: the entity
  registry (aliens, alien bullets, power-ups, stars, particles and, inside the player, the
  player's bullets), the round aggregates (score, lives, level, kills), the spawner's timer
  and the two-state game machine. Each method is a function on the \<open>battle\<close> record;
  the \<open>for x in self.xs[:]\<close> loops that move and remove entities are recursive functions
  that rebuild the list in order, the random source travels in the record.
  \<open>si_frame\<close> is one iteration of \<open>SpaceBattle.run\<close>: drain the events, run the
  update passes in the source's order while \<open>"playing"\<close>, then draw (which only
  advances the engine glow). \<open>si_reachable\<close> is the set of states a run can reach.
\<close>

datatype game_state = Playing | Game_over

record battle =
  bt_player :: player
  bt_aliens :: "alien list"
  bt_alien_bullets :: "alien_bullet list"
  bt_powerups :: "powerup list"
  bt_stars :: "star list"
  bt_score :: int
  bt_lives :: int
  bt_level :: int
  bt_particles :: "particle list"
  bt_game_state :: game_state
  bt_spawn_timer :: int
  bt_aliens_killed :: int
  bt_spawn_rate :: int
  bt_rng :: rng

section \<open>Construction and reset\<close>

fun stars_new :: "screen \<Rightarrow> nat \<Rightarrow> rng \<Rightarrow> star list \<times> rng" where
  "stars_new scr 0 g = ([], g)"
| "stars_new scr (Suc n) g =
     (let (s, g1) = star_new scr g; (ss, g2) = stars_new scr n g1 in (s # ss, g2))"

definition battle_new :: "screen \<Rightarrow> rng \<Rightarrow> battle" where
  "battle_new scr g =
     (let (sts, g1) = stars_new scr 100 g
      in \<lparr>bt_player = player_new scr, bt_aliens = [], bt_alien_bullets = [], bt_powerups = [],
          bt_stars = sts, bt_score = 0, bt_lives = 3, bt_level = 1, bt_particles = ps_new,
          bt_game_state = Playing, bt_spawn_timer = 0, bt_aliens_killed = 0,
          bt_spawn_rate = ALIEN_SPAWN_RATE, bt_rng = g1\<rparr>)"

definition reset_game :: "screen \<Rightarrow> battle \<Rightarrow> battle" where
  "reset_game scr s =
     s\<lparr>bt_player := player_new scr, bt_aliens := [], bt_alien_bullets := [], bt_powerups := [],
       bt_score := 0, bt_lives := 3, bt_level := 1, bt_game_state := Playing,
       bt_spawn_timer := 0, bt_aliens_killed := 0\<rparr>"

section \<open>Spawner\<close>

text \<open>The alien kind is drawn with weights 0.6, 0.25 and 0.15.\<close>

definition alien_kind :: "real \<Rightarrow> int" where
  "alien_kind u = (if u < 0.6 then 0 else if u < 0.85 then 1 else 2)"

definition spawn_alien :: "screen \<Rightarrow> int \<Rightarrow> battle \<Rightarrow> battle" where
  "spawn_alien scr ticks s =
     (let t = bt_spawn_timer s - 1
      in if t \<le> 0
         then (let (x, g1) = randint 50 (scr_w scr - 50) (bt_rng s);
                   (u, g2) = py_random g1;
                   (a, g3) = alien_new ticks x (alien_kind u) g2;
                   rate = max 20 (ALIEN_SPAWN_RATE - bt_level s * 3)
               in s\<lparr>bt_aliens := bt_aliens s @ [a], bt_spawn_rate := rate,
                    bt_spawn_timer := rate, bt_rng := g3\<rparr>)
         else s\<lparr>bt_spawn_timer := t\<rparr>)"

section \<open>Losing lives\<close>

text \<open>Every life lost is followed by the source's test \<open>if self.lives <= 0\<close>.\<close>

definition lose_life :: "battle \<Rightarrow> battle" where
  "lose_life s =
     (let s1 = s\<lparr>bt_lives := bt_lives s - 1\<rparr>
      in if bt_lives s1 \<le> 0 then s1\<lparr>bt_game_state := Game_over\<rparr> else s1)"

text \<open>\<open>move_aliens\<close>: move each alien; one that falls below the screen is removed and
  costs a life. The first argument is the snapshot being iterated; the kept aliens are
  appended to \<open>bt_aliens\<close>, which starts empty.\<close>

fun move_aliens_loop :: "screen \<Rightarrow> alien list \<Rightarrow> battle \<Rightarrow> battle" where
  "move_aliens_loop scr [] s = s"
| "move_aliens_loop scr (a # as) s =
     (let a' = alien_move scr a
      in if rect_top (al_rect a') > scr_h scr then move_aliens_loop scr as (lose_life s)
         else move_aliens_loop scr as (s\<lparr>bt_aliens := bt_aliens s @ [a']\<rparr>))"

definition move_aliens :: "screen \<Rightarrow> battle \<Rightarrow> battle" where
  "move_aliens scr s = move_aliens_loop scr (bt_aliens s) (s\<lparr>bt_aliens := []\<rparr>)"

text \<open>\<open>alien_shoot\<close>: \<open>can_shoot()\<close> ticks every alien's cooldown; only when it fires
  is \<open>random.random()\<close> drawn (Python's \<open>and\<close> short-circuits).\<close>

fun alien_shoot_loop :: "alien list \<Rightarrow> battle \<Rightarrow> battle" where
  "alien_shoot_loop [] s = s"
| "alien_shoot_loop (a # as) s =
     (let (ok, a', g1) = alien_can_shoot a (bt_rng s);
          s1 = s\<lparr>bt_aliens := bt_aliens s @ [a'], bt_rng := g1\<rparr>
      in if ok
         then (let (u, g2) = py_random g1;
                   s2 = s1\<lparr>bt_rng := g2\<rparr>
               in if u < 0.02
                  then alien_shoot_loop as
                         (s2\<lparr>bt_alien_bullets := bt_alien_bullets s2 @
                               [alien_bullet_new (rect_centerx (al_rect a')) (rect_bottom (al_rect a'))]\<rparr>)
                  else alien_shoot_loop as s2)
         else alien_shoot_loop as s1)"

definition alien_shoot :: "battle \<Rightarrow> battle" where
  "alien_shoot s = alien_shoot_loop (bt_aliens s) (s\<lparr>bt_aliens := []\<rparr>)"

definition emit :: "int \<Rightarrow> int \<Rightarrow> colour \<Rightarrow> nat \<Rightarrow> battle \<Rightarrow> battle" where
  "emit x y c n s =
     (let (ps, g) = ps_emit (of_int x) (of_int y) c n (bt_particles s) (bt_rng s)
      in s\<lparr>bt_particles := ps, bt_rng := g\<rparr>)"

text \<open>\<open>update_alien_bullets\<close>: an alien bullet that leaves the screen is dropped; one
  that hits the ship is dropped and costs a life unless the shield is up.\<close>

fun alien_bullets_loop :: "screen \<Rightarrow> alien_bullet list \<Rightarrow> battle \<Rightarrow> battle" where
  "alien_bullets_loop scr [] s = s"
| "alien_bullets_loop scr (b # bs) s =
     (let b' = alien_bullet_move b; pr = pl_rect (bt_player s)
      in if rect_top (ab_rect b') > scr_h scr then alien_bullets_loop scr bs s
         else if colliderect (ab_rect b') pr
         then (if \<not> pl_shield_active (bt_player s)
               then alien_bullets_loop scr bs
                      (let s1 = s\<lparr>bt_lives := bt_lives s - 1\<rparr>;
                           s2 = emit (rect_centerx pr) (rect_centery pr) RED 25 s1
                       in if bt_lives s2 \<le> 0 then s2\<lparr>bt_game_state := Game_over\<rparr> else s2)
               else alien_bullets_loop scr bs
                      (emit (rect_centerx (ab_rect b')) (rect_centery (ab_rect b')) CYAN 12 s))
         else alien_bullets_loop scr bs (s\<lparr>bt_alien_bullets := bt_alien_bullets s @ [b']\<rparr>))"

definition update_alien_bullets :: "screen \<Rightarrow> battle \<Rightarrow> battle" where
  "update_alien_bullets scr s = alien_bullets_loop scr (bt_alien_bullets s) (s\<lparr>bt_alien_bullets := []\<rparr>)"

section \<open>Collisions of the player's bullets with aliens\<close>

text \<open>The first alien of the list that a rectangle overlaps, with the aliens before and
  after it: the inner \<open>for alien in self.aliens[:]\<close> up to its \<open>break\<close>.\<close>

fun find_hit :: "rect \<Rightarrow> alien list \<Rightarrow> (alien list \<times> alien \<times> alien list) option" where
  "find_hit r [] = None"
| "find_hit r (a # as) =
     (if colliderect r (al_rect a) then Some ([], a, as)
      else (case find_hit r as of None \<Rightarrow> None | Some (pre, h, post) \<Rightarrow> Some (a # pre, h, post)))"

text \<open>What one kill does: score and kill count, the explosion, the level step every 20
  kills, and the power-up drop with probability 0.15.\<close>

definition kill_alien :: "alien \<Rightarrow> battle \<Rightarrow> battle" where
  "kill_alien a s =
     (let r = al_rect a; cx = rect_centerx r; cy = rect_centery r;
          s1 = s\<lparr>bt_score := bt_score s + al_points a, bt_aliens_killed := bt_aliens_killed s + 1\<rparr>;
          s2 = (if al_type a = 0 then emit cx cy RED 20 s1
                else if al_type a = 1 then emit cx cy PURPLE 20 s1
                else emit cx cy ORANGE 25 s1);
          s3 = (if bt_aliens_killed s2 mod 20 = 0 then s2\<lparr>bt_level := bt_level s2 + 1\<rparr> else s2);
          (u, g1) = py_random (bt_rng s3)
      in if u < 0.15
         then (let (k, g2) = py_choice [Triple, Shield] g1
               in s3\<lparr>bt_powerups := bt_powerups s3 @ [powerup_new cx cy k], bt_rng := g2\<rparr>)
         else s3\<lparr>bt_rng := g1\<rparr>)"

text \<open>The outer loop over the snapshot of the player's bullets: a bullet that hits is
  consumed with the first alien it overlaps; a bullet that misses is kept, in order.\<close>

fun collide_loop :: "bullet list \<Rightarrow> battle \<Rightarrow> battle" where
  "collide_loop [] s = s"
| "collide_loop (b # bs) s =
     (case find_hit (bl_rect b) (bt_aliens s) of
        None \<Rightarrow> collide_loop bs
                  (s\<lparr>bt_player := (bt_player s)\<lparr>pl_bullets := pl_bullets (bt_player s) @ [b]\<rparr>\<rparr>)
      | Some (pre, a, post) \<Rightarrow> collide_loop bs (kill_alien a (s\<lparr>bt_aliens := pre @ post\<rparr>)))"

definition check_collisions :: "battle \<Rightarrow> battle" where
  "check_collisions s =
     collide_loop (pl_bullets (bt_player s)) (s\<lparr>bt_player := (bt_player s)\<lparr>pl_bullets := []\<rparr>\<rparr>)"

section \<open>Power-ups, particles, stars\<close>

fun powerups_loop :: "screen \<Rightarrow> powerup list \<Rightarrow> battle \<Rightarrow> battle" where
  "powerups_loop scr [] s = s"
| "powerups_loop scr (p # ps) s =
     (let p' = powerup_move p
      in if rect_top (pu_rect p') > scr_h scr then powerups_loop scr ps s
         else if colliderect (pu_rect p') (pl_rect (bt_player s))
         then powerups_loop scr ps
                (emit (rect_centerx (pu_rect p')) (rect_centery (pu_rect p'))
                   (if pu_type p' = Triple then ORANGE else CYAN) 20
                   (s\<lparr>bt_player := player_activate_powerup (pu_type p') (bt_player s)\<rparr>))
         else powerups_loop scr ps (s\<lparr>bt_powerups := bt_powerups s @ [p']\<rparr>))"

definition update_powerups :: "screen \<Rightarrow> battle \<Rightarrow> battle" where
  "update_powerups scr s = powerups_loop scr (bt_powerups s) (s\<lparr>bt_powerups := []\<rparr>)"

fun stars_loop :: "screen \<Rightarrow> star list \<Rightarrow> rng \<Rightarrow> star list \<times> rng" where
  "stars_loop scr [] g = ([], g)"
| "stars_loop scr (st # sts) g =
     (let (st', g1) = star_update scr st g; (sts', g2) = stars_loop scr sts g1 in (st' # sts', g2))"

definition update_stars :: "screen \<Rightarrow> battle \<Rightarrow> battle" where
  "update_stars scr s = (let (sts, g) = stars_loop scr (bt_stars s) (bt_rng s) in s\<lparr>bt_stars := sts, bt_rng := g\<rparr>)"

definition update_particles :: "battle \<Rightarrow> battle" where
  "update_particles s = s\<lparr>bt_particles := ps_update (bt_particles s)\<rparr>"

section \<open>One frame of \<open>SpaceBattle.run\<close>\<close>

text \<open>The event loop: \<open>QUIT\<close> ends the process (\<open>None\<close>), space shoots while
  playing, \<open>r\<close> restarts after game over; other events are ignored.\<close>

fun si_handle_events :: "screen \<Rightarrow> event list \<Rightarrow> battle \<Rightarrow> battle option" where
  "si_handle_events scr [] s = Some s"
| "si_handle_events scr (QUIT # es) s = None"
| "si_handle_events scr (KEYDOWN k # es) s =
     si_handle_events scr es
       (if k = K_SPACE \<and> bt_game_state s = Playing
        then s\<lparr>bt_player := player_shoot (bt_player s)\<rparr>
        else if k = K_r \<and> bt_game_state s = Game_over then reset_game scr s
        else s)"
| "si_handle_events scr (MOUSEBUTTONDOWN # es) s = si_handle_events scr es s"
| "si_handle_events scr (OTHER # es) s = si_handle_events scr es s"

definition si_steer :: "screen \<Rightarrow> (key \<Rightarrow> bool) \<Rightarrow> battle \<Rightarrow> battle" where
  "si_steer scr held s =
     (let p = bt_player s;
          p1 = (if held K_LEFT \<or> held K_a then player_move scr Left p else p);
          p2 = (if held K_RIGHT \<or> held K_d then player_move scr Right p1 else p1)
      in s\<lparr>bt_player := p2\<rparr>)"

text \<open>The update passes of one playing frame, in the order of \<open>run\<close>.\<close>

definition si_update :: "screen \<Rightarrow> frame_input \<Rightarrow> battle \<Rightarrow> battle" where
  "si_update scr inp s =
     (let s1 = si_steer scr (fi_held inp) s;
          s2 = spawn_alien scr (fi_ticks inp) s1;
          s3 = s2\<lparr>bt_player := player_update_bullets (bt_player s2)\<rparr>;
          s4 = s3\<lparr>bt_player := player_update_powerups (bt_player s3)\<rparr>;
          s5 = move_aliens scr s4;
          s6 = alien_shoot s5;
          s7 = update_alien_bullets scr s6;
          s8 = check_collisions s7;
          s9 = update_powerups scr s8;
          s10 = update_particles s9
      in update_stars scr s10)"

text \<open>\<open>draw()\<close> renders, and also advances the ship's engine glow.\<close>

definition si_draw :: "battle \<Rightarrow> battle" where
  "si_draw s =
     s\<lparr>bt_player := (bt_player s)\<lparr>pl_engine_glow := (pl_engine_glow (bt_player s) + 1) mod 20\<rparr>\<rparr>"

definition si_frame :: "screen \<Rightarrow> frame_input \<Rightarrow> battle \<Rightarrow> battle option" where
  "si_frame scr inp s =
     (case si_handle_events scr (fi_events inp) s of
        None \<Rightarrow> None
      | Some s1 \<Rightarrow> Some (si_draw (if bt_game_state s1 = Playing then si_update scr inp s1 else s1)))"

inductive si_reachable :: "screen \<Rightarrow> battle \<Rightarrow> bool" for scr where
  start: "rng_ok g \<Longrightarrow> si_reachable scr (battle_new scr g)"
| frame: "si_reachable scr s \<Longrightarrow> si_frame scr inp s = Some s' \<Longrightarrow> si_reachable scr s'"

section \<open>The round invariant\<close>

text \<open>What every reachable state keeps: a well-formed random source, well-formed aliens,
  \<open>"playing"\<close> exactly while lives remain, and the level one more than the number of
  completed batches of 20 kills. \<open>pass_ok\<close> says of one update pass that it keeps the
  invariant, never lowers the score and never raises the lives.\<close>

definition battle_inv :: "battle \<Rightarrow> bool" where
  "battle_inv s \<longleftrightarrow>
     rng_ok (bt_rng s) \<and> (\<forall>a\<in>set (bt_aliens s). alien_ok a) \<and>
     (bt_game_state s = Playing \<longleftrightarrow> 0 < bt_lives s) \<and>
     0 \<le> bt_aliens_killed s \<and> bt_level s = 1 + bt_aliens_killed s div 20"

definition pass_ok :: "(battle \<Rightarrow> battle) \<Rightarrow> bool" where
  "pass_ok f \<longleftrightarrow> (\<forall>s. battle_inv s \<longrightarrow>
     battle_inv (f s) \<and> bt_score s \<le> bt_score (f s) \<and> bt_lives (f s) \<le> bt_lives s)"

section \<open>Lemmas: the collision pass\<close>

lemma find_hit_Some:
  "find_hit r as = Some (pre, a, post) \<Longrightarrow>
   as = pre @ a # post \<and> colliderect r (al_rect a) \<and> (\<forall>x\<in>set pre. \<not> colliderect r (al_rect x))"
  by (induction r as arbitrary: pre rule: find_hit.induct)
     (auto split: if_splits option.splits prod.splits)

lemma find_hit_None: "find_hit r as = None \<longleftrightarrow> (\<forall>x\<in>set as. \<not> colliderect r (al_rect x))"
  by (induction r as rule: find_hit.induct) (auto split: option.splits prod.splits)

lemma emit_fields [simp]:
  "bt_player (emit x y c n s) = bt_player s"
  "bt_aliens (emit x y c n s) = bt_aliens s"
  "bt_alien_bullets (emit x y c n s) = bt_alien_bullets s"
  "bt_powerups (emit x y c n s) = bt_powerups s"
  "bt_stars (emit x y c n s) = bt_stars s"
  "bt_score (emit x y c n s) = bt_score s"
  "bt_lives (emit x y c n s) = bt_lives s"
  "bt_level (emit x y c n s) = bt_level s"
  "bt_game_state (emit x y c n s) = bt_game_state s"
  "bt_spawn_timer (emit x y c n s) = bt_spawn_timer s"
  "bt_aliens_killed (emit x y c n s) = bt_aliens_killed s"
  "bt_spawn_rate (emit x y c n s) = bt_spawn_rate s"
  by (simp_all add: emit_def split_def Let_def)

lemma rng_ok_emit [simp]: "rng_ok (bt_rng (emit x y c n s)) = rng_ok (bt_rng s)"
  by (simp add: emit_def split_def Let_def)

lemma kill_alien_fields [simp]:
  "bt_player (kill_alien a s) = bt_player s"
  "bt_aliens (kill_alien a s) = bt_aliens s"
  "bt_alien_bullets (kill_alien a s) = bt_alien_bullets s"
  "bt_score (kill_alien a s) = bt_score s + al_points a"
  "bt_aliens_killed (kill_alien a s) = bt_aliens_killed s + 1"
  "bt_lives (kill_alien a s) = bt_lives s"
  "bt_game_state (kill_alien a s) = bt_game_state s"
  "bt_spawn_timer (kill_alien a s) = bt_spawn_timer s"
  by (simp_all add: kill_alien_def Let_def split_def)

lemma collide_loop_account:
  "\<exists>ks missed.
     bt_player (collide_loop bs s) = (bt_player s)\<lparr>pl_bullets := pl_bullets (bt_player s) @ missed\<rparr> \<and>
     mset (bt_aliens s) = mset (bt_aliens (collide_loop bs s)) + mset ks \<and>
     bt_score (collide_loop bs s) = bt_score s + sum_list (map al_points ks) \<and>
     bt_aliens_killed (collide_loop bs s) = bt_aliens_killed s + int (length ks) \<and>
     length ks + length missed = length bs \<and> set missed \<subseteq> set bs \<and>
     (\<forall>b\<in>set missed. \<forall>x\<in>set (bt_aliens (collide_loop bs s)). \<not> colliderect (bl_rect b) (al_rect x))"
proof (induction bs arbitrary: s)
  case Nil
  show ?case by (intro exI [of _ "[] :: alien list"] exI [of _ "[] :: bullet list"]) simp
next
  case (Cons b bs)
  show ?case
  proof (cases "find_hit (bl_rect b) (bt_aliens s)")
    case None
    let ?s' = "s\<lparr>bt_player := (bt_player s)\<lparr>pl_bullets := pl_bullets (bt_player s) @ [b]\<rparr>\<rparr>"
    obtain ks missed where IH:
      "bt_player (collide_loop bs ?s') = (bt_player ?s')\<lparr>pl_bullets := pl_bullets (bt_player ?s') @ missed\<rparr>"
      "mset (bt_aliens ?s') = mset (bt_aliens (collide_loop bs ?s')) + mset ks"
      "bt_score (collide_loop bs ?s') = bt_score ?s' + sum_list (map al_points ks)"
      "bt_aliens_killed (collide_loop bs ?s') = bt_aliens_killed ?s' + int (length ks)"
      "length ks + length missed = length bs" "set missed \<subseteq> set bs"
      "\<forall>b\<in>set missed. \<forall>x\<in>set (bt_aliens (collide_loop bs ?s')). \<not> colliderect (bl_rect b) (al_rect x)"
      using Cons.IH [of ?s'] by blast
    have sub: "set (bt_aliens (collide_loop bs ?s')) \<subseteq> set (bt_aliens s)"
    proof -
      have "set_mset (mset (bt_aliens (collide_loop bs ?s'))) \<subseteq> set_mset (mset (bt_aliens ?s'))"
        using IH(2) by (metis mset_subset_eq_add_left set_mset_mono)
      then show ?thesis by simp
    qed
    have "\<forall>x\<in>set (bt_aliens s). \<not> colliderect (bl_rect b) (al_rect x)"
      using None by (simp add: find_hit_None)
    then show ?thesis using None IH sub
      by (intro exI [of _ ks] exI [of _ "b # missed"]) auto
  next
    case (Some h)
    then obtain pre a post where h: "find_hit (bl_rect b) (bt_aliens s) = Some (pre, a, post)"
      by (cases h) auto
    let ?s' = "kill_alien a (s\<lparr>bt_aliens := pre @ post\<rparr>)"
    obtain ks missed where IH:
      "bt_player (collide_loop bs ?s') = (bt_player ?s')\<lparr>pl_bullets := pl_bullets (bt_player ?s') @ missed\<rparr>"
      "mset (bt_aliens ?s') = mset (bt_aliens (collide_loop bs ?s')) + mset ks"
      "bt_score (collide_loop bs ?s') = bt_score ?s' + sum_list (map al_points ks)"
      "bt_aliens_killed (collide_loop bs ?s') = bt_aliens_killed ?s' + int (length ks)"
      "length ks + length missed = length bs" "set missed \<subseteq> set bs"
      "\<forall>b\<in>set missed. \<forall>x\<in>set (bt_aliens (collide_loop bs ?s')). \<not> colliderect (bl_rect b) (al_rect x)"
      using Cons.IH [of ?s'] by blast
    have split: "bt_aliens s = pre @ a # post" using find_hit_Some [OF h] by simp
    show ?thesis using h IH split
      by (intro exI [of _ "a # ks"] exI [of _ missed]) auto
  qed
qed


lemma collide_loop_all_miss:
  "\<forall>b\<in>set bs. \<forall>x\<in>set (bt_aliens s). \<not> colliderect (bl_rect b) (al_rect x) \<Longrightarrow>
   collide_loop bs s = s\<lparr>bt_player := (bt_player s)\<lparr>pl_bullets := pl_bullets (bt_player s) @ bs\<rparr>\<rparr>"
proof (induction bs arbitrary: s)
  case Nil
  then show ?case by simp
next
  case (Cons b bs)
  then have "find_hit (bl_rect b) (bt_aliens s) = None" by (simp add: find_hit_None)
  with Cons show ?case by simp
qed

text \<open>C2: one collision pass credits each destroyed alien exactly once: the aliens
  removed are a sub-multiset of the aliens present, the score grows by exactly their points,
  the kill count by their number, and every removed alien consumed exactly one bullet.\<close>

lemma check_collisions_account:
  "\<exists>ks.
     mset (bt_aliens s) = mset (bt_aliens (check_collisions s)) + mset ks \<and>
     bt_score (check_collisions s) = bt_score s + sum_list (map al_points ks) \<and>
     bt_aliens_killed (check_collisions s) = bt_aliens_killed s + int (length ks) \<and>
     length ks + length (pl_bullets (bt_player (check_collisions s))) = length (pl_bullets (bt_player s)) \<and>
     set (pl_bullets (bt_player (check_collisions s))) \<subseteq> set (pl_bullets (bt_player s))"
  using collide_loop_account [of "pl_bullets (bt_player s)" "s\<lparr>bt_player := (bt_player s)\<lparr>pl_bullets := []\<rparr>\<rparr>"]
  by (auto simp: check_collisions_def)

text \<open>C1: the collision pass is idempotent: running it a second time in the same tick
  finds no collision left and changes nothing, so no hit is scored twice.\<close>

lemma check_collisions_idem: "check_collisions (check_collisions s) = check_collisions s"
proof -
  let ?s0 = "s\<lparr>bt_player := (bt_player s)\<lparr>pl_bullets := []\<rparr>\<rparr>"
  let ?s1 = "check_collisions s"
  obtain ks missed where
    pl: "bt_player ?s1 = (bt_player ?s0)\<lparr>pl_bullets := [] @ missed\<rparr>"
    and miss: "\<forall>b\<in>set missed. \<forall>x\<in>set (bt_aliens ?s1). \<not> colliderect (bl_rect b) (al_rect x)"
    using collide_loop_account [of "pl_bullets (bt_player s)" ?s0]
    unfolding check_collisions_def by auto
  have b: "pl_bullets (bt_player ?s1) = missed" using pl by simp
  have "check_collisions ?s1 =
        collide_loop missed (?s1\<lparr>bt_player := (bt_player ?s1)\<lparr>pl_bullets := []\<rparr>\<rparr>)"
    by (simp only: check_collisions_def [of ?s1] b)
  also have "\<dots> = ?s1"
    using collide_loop_all_miss [of missed] miss b by simp
  finally show ?thesis .
qed

text \<open>C3: a bullet that overlaps several aliens destroys only the first of them in list
  order, is consumed, and credits only that alien's points.\<close>

lemma check_collisions_first_hit:
  assumes "pl_bullets (bt_player s) = [b]" and "bt_aliens s = pre @ a # post"
    and "colliderect (bl_rect b) (al_rect a)"
    and "\<forall>x\<in>set pre. \<not> colliderect (bl_rect b) (al_rect x)"
  shows "bt_aliens (check_collisions s) = pre @ post \<and>
         bt_score (check_collisions s) = bt_score s + al_points a \<and>
         pl_bullets (bt_player (check_collisions s)) = []"
proof -
  have "find_hit (bl_rect b) (pre @ a # post) = Some (pre, a, post)"
    using assms(3,4) by (induction pre) auto
  then show ?thesis using assms(1,2) by (simp add: check_collisions_def)
qed

lemma check_collisions_first_hit_witness:
  "let b = \<lparr>bl_rect = \<lparr>rx = 100, ry = 10, rw = 4, rh = 18\<rparr>, bl_angle = 0\<rparr>;
       a1 = \<lparr>al_type = 0, al_rect = \<lparr>rx = 0, ry = 0, rw = 50, rh = 50\<rparr>, al_speed_y = 2,
             al_speed_x = 0, al_points = 10, al_shoot_cooldown = 60, al_wobble = 0\<rparr>;
       a2 = a1\<lparr>al_type := 1, al_points := 20, al_rect := \<lparr>rx = 80, ry = 0, rw = 50, rh = 50\<rparr>\<rparr>;
       a3 = a1\<lparr>al_rect := \<lparr>rx = 90, ry = 5, rw = 50, rh = 50\<rparr>\<rparr>;
       scr = \<lparr>scr_w = 800, scr_h = 600\<rparr>;
       s = (battle_new scr \<lparr>rnd_src = \<lambda>_. 0, rnd_pos = 0\<rparr>)
             \<lparr>bt_player := (player_new scr)\<lparr>pl_bullets := [b]\<rparr>, bt_aliens := [a1, a2, a3]\<rparr>
   in pl_bullets (bt_player s) = [b] \<and> bt_aliens s = [a1] @ a2 # [a3] \<and>
      colliderect (bl_rect b) (al_rect a2) \<and> colliderect (bl_rect b) (al_rect a3) \<and>
      (\<forall>x\<in>set [a1]. \<not> colliderect (bl_rect b) (al_rect x)) \<and>
      bt_aliens (check_collisions s) = [a1, a3] \<and>
      bt_score (check_collisions s) = bt_score s + 20 \<and>
      pl_bullets (bt_player (check_collisions s)) = []"
proof -
  define b :: bullet where "b = \<lparr>bl_rect = \<lparr>rx = 100, ry = 10, rw = 4, rh = 18\<rparr>, bl_angle = 0\<rparr>"
  define a1 :: alien where "a1 = \<lparr>al_type = 0, al_rect = \<lparr>rx = 0, ry = 0, rw = 50, rh = 50\<rparr>,
    al_speed_y = 2, al_speed_x = 0, al_points = 10, al_shoot_cooldown = 60, al_wobble = 0\<rparr>"
  define a2 where "a2 = a1\<lparr>al_type := 1, al_points := 20, al_rect := \<lparr>rx = 80, ry = 0, rw = 50, rh = 50\<rparr>\<rparr>"
  define a3 where "a3 = a1\<lparr>al_rect := \<lparr>rx = 90, ry = 5, rw = 50, rh = 50\<rparr>\<rparr>"
  define scr where "scr = \<lparr>scr_w = 800, scr_h = 600\<rparr>"
  define s where "s = (battle_new scr \<lparr>rnd_src = \<lambda>_. 0, rnd_pos = 0\<rparr>)
    \<lparr>bt_player := (player_new scr)\<lparr>pl_bullets := [b]\<rparr>, bt_aliens := [a1, a2, a3]\<rparr>"
  have hyps: "pl_bullets (bt_player s) = [b]" "bt_aliens s = [a1] @ a2 # [a3]"
    "colliderect (bl_rect b) (al_rect a2)" "\<forall>x\<in>set [a1]. \<not> colliderect (bl_rect b) (al_rect x)"
    by (simp_all add: s_def b_def a1_def a2_def colliderect_def)
  have "colliderect (bl_rect b) (al_rect a3)" by (simp add: b_def a3_def a1_def colliderect_def)
  with hyps check_collisions_first_hit [OF hyps] show ?thesis
    by (simp add: Let_def s_def b_def a1_def a2_def a3_def scr_def)
qed

section \<open>Lemmas: every pass keeps the round invariant\<close>

lemma pass_ok_comp: "pass_ok f \<Longrightarrow> pass_ok g \<Longrightarrow> pass_ok (g \<circ> f)"
  unfolding pass_ok_def by (metis comp_apply order.trans)

lemma battle_inv_frame:
  assumes "battle_inv s" and "rng_ok (bt_rng s')"
    and "set (bt_aliens s') \<subseteq> set (bt_aliens s)"
    and "bt_game_state s' = bt_game_state s" and "bt_lives s' = bt_lives s"
    and "bt_aliens_killed s' = bt_aliens_killed s" and "bt_level s' = bt_level s"
  shows "battle_inv s'"
  using assms unfolding battle_inv_def by auto

lemma lose_life_fields [simp]:
  "bt_lives (lose_life s) = bt_lives s - 1"
  "bt_aliens (lose_life s) = bt_aliens s"
  "bt_rng (lose_life s) = bt_rng s"
  "bt_score (lose_life s) = bt_score s"
  "bt_level (lose_life s) = bt_level s"
  "bt_aliens_killed (lose_life s) = bt_aliens_killed s"
  "bt_spawn_timer (lose_life s) = bt_spawn_timer s"
  by (simp_all add: lose_life_def Let_def)

lemma lose_life_state:
  "(bt_game_state s = Playing \<longleftrightarrow> 0 < bt_lives s) \<Longrightarrow>
   (bt_game_state (lose_life s) = Playing \<longleftrightarrow> 0 < bt_lives (lose_life s))"
  by (auto simp: lose_life_def Let_def)

lemma move_aliens_loop_inv:
  "\<forall>a\<in>set as. alien_ok a \<Longrightarrow> battle_inv s \<Longrightarrow> battle_inv (move_aliens_loop scr as s)"
proof (induction scr as s rule: move_aliens_loop.induct)
  case (1 scr s)
  then show ?case by simp
next
  case (2 scr a as s)
  have ok: "alien_ok (alien_move scr a)" using "2.prems"(1) by (simp add: alien_move_ok)
  have "battle_inv (lose_life s)" and "battle_inv (s\<lparr>bt_aliens := bt_aliens s @ [alien_move scr a]\<rparr>)"
    using "2.prems"(2) ok lose_life_state [of s] by (auto simp: battle_inv_def)
  then show ?case using "2.IH" "2.prems"(1) by (simp add: Let_def)
qed

lemma move_aliens_inv: "battle_inv s \<Longrightarrow> battle_inv (move_aliens scr s)"
  unfolding move_aliens_def
  by (rule move_aliens_loop_inv) (auto simp: battle_inv_def)

lemma move_aliens_loop_mono:
  "bt_score (move_aliens_loop scr as s) = bt_score s \<and> bt_lives (move_aliens_loop scr as s) \<le> bt_lives s"
  by (induction scr as s rule: move_aliens_loop.induct) (auto simp: Let_def intro: order.trans)


lemma pass_ok_player: "pass_ok (\<lambda>s. s\<lparr>bt_player := f (bt_player s)\<rparr>)"
  unfolding pass_ok_def by (simp add: battle_inv_def)

lemma pass_ok_move_aliens: "pass_ok (move_aliens scr)"
  unfolding pass_ok_def
proof (intro allI impI)
  fix s assume "battle_inv s"
  then show "battle_inv (move_aliens scr s) \<and> bt_score s \<le> bt_score (move_aliens scr s) \<and>
             bt_lives (move_aliens scr s) \<le> bt_lives s"
    using move_aliens_inv [of s scr] move_aliens_loop_mono [of scr "bt_aliens s" "s\<lparr>bt_aliens := []\<rparr>"]
    by (simp add: move_aliens_def)
qed

lemma rng_ok_alien_new [simp]: "rng_ok (snd (alien_new t x ty g)) = rng_ok g"
  by (simp add: alien_new_def split_def Let_def)

lemma alien_kind_range: "alien_kind u \<in> {0, 1, 2}"
  by (simp add: alien_kind_def)

lemma spawn_alien_fields [simp]:
  "bt_score (spawn_alien scr t s) = bt_score s"
  "bt_lives (spawn_alien scr t s) = bt_lives s"
  "bt_game_state (spawn_alien scr t s) = bt_game_state s"
  "bt_level (spawn_alien scr t s) = bt_level s"
  "bt_aliens_killed (spawn_alien scr t s) = bt_aliens_killed s"
  "bt_player (spawn_alien scr t s) = bt_player s"
  by (simp_all add: spawn_alien_def Let_def split_def)

lemma rng_ok_spawn_alien [simp]: "rng_ok (bt_rng (spawn_alien scr t s)) = rng_ok (bt_rng s)"
  by (simp add: spawn_alien_def Let_def split_def)

lemma spawn_alien_aliens:
  "bt_aliens (spawn_alien scr t s) = bt_aliens s \<or>
   (\<exists>x u. bt_aliens (spawn_alien scr t s) =
      bt_aliens s @ [fst (alien_new t x (alien_kind u) (snd (py_random (snd (randint 50 (scr_w scr - 50) (bt_rng s))))))])"
  by (simp add: spawn_alien_def Let_def split_def) blast

lemma pass_ok_spawn_alien: "pass_ok (spawn_alien scr t)"
  unfolding pass_ok_def
proof (intro allI impI)
  fix s assume inv: "battle_inv s"
  have "rng_ok (snd (py_random (snd (randint 50 (scr_w scr - 50) (bt_rng s)))))"
    using inv by (simp add: battle_inv_def)
  from alien_new_ok [OF this alien_kind_range]
  have "\<forall>a\<in>set (bt_aliens (spawn_alien scr t s)). alien_ok a"
    using spawn_alien_aliens [of scr t s] inv by (auto simp: battle_inv_def)
  with inv show "battle_inv (spawn_alien scr t s) \<and> bt_score s \<le> bt_score (spawn_alien scr t s) \<and>
             bt_lives (spawn_alien scr t s) \<le> bt_lives s"
    by (simp add: battle_inv_def)
qed


lemma alien_shoot_loop_step:
  assumes "alien_can_shoot a (bt_rng s) = (ok, a', g1)"
  defines "s1 \<equiv> s\<lparr>bt_aliens := bt_aliens s @ [a'], bt_rng := g1\<rparr>"
  shows "alien_shoot_loop (a # as) s = alien_shoot_loop as s1 \<or>
         alien_shoot_loop (a # as) s = alien_shoot_loop as (s1\<lparr>bt_rng := snd (py_random g1)\<rparr>) \<or>
         (\<exists>bs. alien_shoot_loop (a # as) s =
                 alien_shoot_loop as (s1\<lparr>bt_rng := snd (py_random g1), bt_alien_bullets := bs\<rparr>))"
  using assms by (simp add: Let_def split_def) blast

lemma alien_shoot_loop_inv:
  "\<forall>a\<in>set as. alien_ok a \<Longrightarrow> battle_inv s \<Longrightarrow>
   battle_inv (alien_shoot_loop as s) \<and> bt_score (alien_shoot_loop as s) = bt_score s \<and>
   bt_lives (alien_shoot_loop as s) = bt_lives s"
proof (induction as arbitrary: s)
  case Nil
  then show ?case by simp
next
  case (Cons a as)
  obtain ok a' g1 where c: "alien_can_shoot a (bt_rng s) = (ok, a', g1)"
    by (cases "alien_can_shoot a (bt_rng s)") auto
  have a': "alien_ok a'" using alien_can_shoot_ok [of a "bt_rng s"] c Cons.prems(1) by simp
  have g1: "rng_ok g1"
    using rng_ok_alien_can_shoot [of a "bt_rng s"] c Cons.prems(2) by (simp add: battle_inv_def)
  let ?s1 = "s\<lparr>bt_aliens := bt_aliens s @ [a'], bt_rng := g1\<rparr>"
  have "battle_inv ?s1" and "battle_inv (?s1\<lparr>bt_rng := snd (py_random g1)\<rparr>)"
    and "battle_inv (?s1\<lparr>bt_rng := snd (py_random g1), bt_alien_bullets := bs\<rparr>)" for bs
    using Cons.prems(2) a' g1 by (auto simp: battle_inv_def)
  then show ?case using alien_shoot_loop_step [OF c, of as] Cons.IH Cons.prems(1) by fastforce
qed

lemma pass_ok_alien_shoot: "pass_ok alien_shoot"
  unfolding pass_ok_def
proof (intro allI impI)
  fix s assume inv: "battle_inv s"
  then have "battle_inv (s\<lparr>bt_aliens := []\<rparr>)" by (simp add: battle_inv_def)
  with inv show "battle_inv (alien_shoot s) \<and> bt_score s \<le> bt_score (alien_shoot s) \<and>
             bt_lives (alien_shoot s) \<le> bt_lives s"
    using alien_shoot_loop_inv [of "bt_aliens s" "s\<lparr>bt_aliens := []\<rparr>"]
    by (simp add: alien_shoot_def battle_inv_def)
qed


lemma battle_inv_emit [simp]: "battle_inv (emit x y c n s) = battle_inv s"
  by (simp add: battle_inv_def)

lemma alien_bullets_loop_inv:
  "battle_inv s \<Longrightarrow>
   battle_inv (alien_bullets_loop scr bs s) \<and> bt_score (alien_bullets_loop scr bs s) = bt_score s \<and>
   bt_lives (alien_bullets_loop scr bs s) \<le> bt_lives s"
proof (induction bs arbitrary: s)
  case Nil
  then show ?case by simp
next
  case (Cons b bs)
  define b' where "b' = alien_bullet_move b"
  define pr where "pr = pl_rect (bt_player s)"
  consider (off) "rect_top (ab_rect b') > scr_h scr"
    | (hit) "\<not> rect_top (ab_rect b') > scr_h scr" "colliderect (ab_rect b') pr"
            "\<not> pl_shield_active (bt_player s)"
    | (shield) "\<not> rect_top (ab_rect b') > scr_h scr" "colliderect (ab_rect b') pr"
               "pl_shield_active (bt_player s)"
    | (miss) "\<not> rect_top (ab_rect b') > scr_h scr" "\<not> colliderect (ab_rect b') pr"
    by blast
  then show ?case
  proof cases
    case off
    then show ?thesis using Cons by (simp add: b'_def)
  next
    case hit
    define s2 where "s2 = emit (rect_centerx pr) (rect_centery pr) RED 25 (s\<lparr>bt_lives := bt_lives s - 1\<rparr>)"
    define s3 where "s3 = (if bt_lives s2 \<le> 0 then s2\<lparr>bt_game_state := Game_over\<rparr> else s2)"
    have eq: "alien_bullets_loop scr (b # bs) s = alien_bullets_loop scr bs s3"
      using hit by (simp add: Let_def b'_def pr_def s2_def s3_def)
    have "battle_inv s3" "bt_score s3 = bt_score s" "bt_lives s3 = bt_lives s - 1"
      using Cons.prems by (auto simp: s3_def s2_def battle_inv_def)
    then show ?thesis using eq Cons.IH [of s3] by simp
  next
    case shield
    define s3 where "s3 = emit (rect_centerx (ab_rect b')) (rect_centery (ab_rect b')) CYAN 12 s"
    have "alien_bullets_loop scr (b # bs) s = alien_bullets_loop scr bs s3"
      using shield by (simp add: Let_def b'_def pr_def s3_def)
    then show ?thesis using Cons.prems Cons.IH [of s3] by (simp add: s3_def)
  next
    case miss
    then have "alien_bullets_loop scr (b # bs) s =
               alien_bullets_loop scr bs (s\<lparr>bt_alien_bullets := bt_alien_bullets s @ [b']\<rparr>)"
      by (simp add: Let_def b'_def pr_def)
    moreover have "battle_inv (s\<lparr>bt_alien_bullets := bt_alien_bullets s @ [b']\<rparr>)"
      using Cons.prems by (simp add: battle_inv_def)
    ultimately show ?thesis using Cons.IH by fastforce
  qed
qed

lemma pass_ok_update_alien_bullets: "pass_ok (update_alien_bullets scr)"
  unfolding pass_ok_def update_alien_bullets_def
proof (intro allI impI)
  fix s assume "battle_inv s"
  then have "battle_inv (s\<lparr>bt_alien_bullets := []\<rparr>)" by (simp add: battle_inv_def)
  from alien_bullets_loop_inv [OF this, of scr "bt_alien_bullets s"]
  show "battle_inv (alien_bullets_loop scr (bt_alien_bullets s) (s\<lparr>bt_alien_bullets := []\<rparr>)) \<and>
        bt_score s \<le> bt_score (alien_bullets_loop scr (bt_alien_bullets s) (s\<lparr>bt_alien_bullets := []\<rparr>)) \<and>
        bt_lives (alien_bullets_loop scr (bt_alien_bullets s) (s\<lparr>bt_alien_bullets := []\<rparr>)) \<le> bt_lives s"
    by simp
qed


lemma kill_alien_level:
  "bt_level (kill_alien a s) =
     (if (bt_aliens_killed s + 1) mod 20 = 0 then bt_level s + 1 else bt_level s)"
  by (simp add: kill_alien_def Let_def split_def)

lemma rng_ok_kill_alien [simp]: "rng_ok (bt_rng (kill_alien a s)) = rng_ok (bt_rng s)"
  by (simp add: kill_alien_def Let_def split_def)

lemma level_step: 
  fixes k :: int
  assumes "0 \<le> k"
  shows "(if (k + 1) mod 20 = 0 then 1 + k div 20 + 1 else 1 + k div 20) = 1 + (k + 1) div 20"
proof -
  define q where "q = k div 20"
  define r where "r = k mod 20"
  have k: "k = 20 * q + r" by (simp add: q_def r_def)
  have r: "0 \<le> r" "r < 20" by (simp_all add: r_def)
  show ?thesis
  proof (cases "r = 19")
    case True
    then have "k + 1 = 20 * (q + 1)" using k by simp
    then show ?thesis using True by (simp add: q_def [symmetric])
  next
    case False
    have e: "k + 1 = (r + 1) + q * 20" using k by simp
    have "r + 1 < 20" using r False by simp
    then have "(r + 1) div 20 = 0" "(r + 1) mod 20 = r + 1" using r by simp_all
    then have "(k + 1) div 20 = q" and "(k + 1) mod 20 = r + 1"
      by (simp_all only: e div_mult_self1 mod_mult_self1 zero_neq_numeral [symmetric])
    then show ?thesis using False r by (simp add: q_def)
  qed
qed

lemma battle_inv_kill_alien: "battle_inv s \<Longrightarrow> battle_inv (kill_alien a s)"
  using level_step [of "bt_aliens_killed s"]
  by (auto simp: battle_inv_def kill_alien_level)

lemma collide_loop_inv:
  "battle_inv s \<Longrightarrow> battle_inv (collide_loop bs s) \<and> bt_lives (collide_loop bs s) = bt_lives s"
proof (induction bs arbitrary: s)
  case Nil
  then show ?case by simp
next
  case (Cons b bs)
  show ?case
  proof (cases "find_hit (bl_rect b) (bt_aliens s)")
    case None
    moreover have "battle_inv (s\<lparr>bt_player := q\<rparr>)" for q using Cons.prems by (simp add: battle_inv_def)
    ultimately show ?thesis using Cons.IH by fastforce
  next
    case (Some h)
    then obtain pre a post where h: "find_hit (bl_rect b) (bt_aliens s) = Some (pre, a, post)"
      by (cases h) auto
    then have "bt_aliens s = pre @ a # post" by (simp add: find_hit_Some)
    then have "battle_inv (s\<lparr>bt_aliens := pre @ post\<rparr>)" using Cons.prems by (auto simp: battle_inv_def)
    then have "battle_inv (kill_alien a (s\<lparr>bt_aliens := pre @ post\<rparr>))" by (rule battle_inv_kill_alien)
    then show ?thesis using h Cons.IH by fastforce
  qed
qed

lemma pass_ok_check_collisions: "pass_ok check_collisions"
  unfolding pass_ok_def
proof (intro allI impI conjI)
  fix s assume inv: "battle_inv s"
  let ?s0 = "s\<lparr>bt_player := (bt_player s)\<lparr>pl_bullets := []\<rparr>\<rparr>"
  have inv0: "battle_inv ?s0" using inv by (simp add: battle_inv_def)
  show "battle_inv (check_collisions s)" and "bt_lives (check_collisions s) \<le> bt_lives s"
    using collide_loop_inv [OF inv0] by (simp_all add: check_collisions_def)
  obtain ks where ks: "mset (bt_aliens s) = mset (bt_aliens (check_collisions s)) + mset ks"
    and sc: "bt_score (check_collisions s) = bt_score s + sum_list (map al_points ks)"
    using collide_loop_account [of "pl_bullets (bt_player s)" ?s0]
    unfolding check_collisions_def by auto
  have "set ks \<subseteq> set (bt_aliens s)"
    using ks by (metis mset_subset_eq_add_right set_mset_mono set_mset_mset)
  then have "\<forall>a\<in>set ks. alien_ok a" using inv by (auto simp: battle_inv_def)
  then have "\<forall>a\<in>set ks. 0 \<le> al_points a" using alien_ok_points by fastforce
  then have "0 \<le> sum_list (map al_points ks)" by (induction ks) auto
  then show "bt_score s \<le> bt_score (check_collisions s)" using sc by simp
qed

lemma powerups_loop_inv:
  "battle_inv s \<Longrightarrow>
   battle_inv (powerups_loop scr ps s) \<and> bt_score (powerups_loop scr ps s) = bt_score s \<and>
   bt_lives (powerups_loop scr ps s) = bt_lives s"
proof (induction ps arbitrary: s)
  case Nil
  then show ?case by simp
next
  case (Cons p ps)
  define p' where "p' = powerup_move p"
  have inv: "battle_inv (s\<lparr>bt_player := q\<rparr>)" "battle_inv (s\<lparr>bt_powerups := xs\<rparr>)" for q xs
    using Cons.prems by (simp_all add: battle_inv_def)
  consider (off) "rect_top (pu_rect p') > scr_h scr"
    | (pick) "\<not> rect_top (pu_rect p') > scr_h scr" "colliderect (pu_rect p') (pl_rect (bt_player s))"
    | (miss) "\<not> rect_top (pu_rect p') > scr_h scr" "\<not> colliderect (pu_rect p') (pl_rect (bt_player s))"
    by blast
  then show ?case
  proof cases
    case off
    then show ?thesis using Cons by (simp add: p'_def)
  next
    case pick
    define s1 where "s1 = emit (rect_centerx (pu_rect p')) (rect_centery (pu_rect p'))
                   (if pu_type p' = Triple then ORANGE else CYAN) 20
                   (s\<lparr>bt_player := player_activate_powerup (pu_type p') (bt_player s)\<rparr>)"
    have "powerups_loop scr (p # ps) s = powerups_loop scr ps s1"
      using pick by (simp add: Let_def p'_def s1_def)
    moreover have "battle_inv s1" "bt_score s1 = bt_score s" "bt_lives s1 = bt_lives s"
      using inv by (simp_all add: s1_def)
    ultimately show ?thesis using Cons.IH [of s1] by simp
  next
    case miss
    then have "powerups_loop scr (p # ps) s = powerups_loop scr ps (s\<lparr>bt_powerups := bt_powerups s @ [p']\<rparr>)"
      by (simp add: Let_def p'_def)
    then show ?thesis using Cons.IH inv by fastforce
  qed
qed

lemma pass_ok_update_powerups: "pass_ok (update_powerups scr)"
  unfolding pass_ok_def update_powerups_def
proof (intro allI impI)
  fix s assume "battle_inv s"
  then have "battle_inv (s\<lparr>bt_powerups := []\<rparr>)" by (simp add: battle_inv_def)
  from powerups_loop_inv [OF this, of scr "bt_powerups s"]
  show "battle_inv (powerups_loop scr (bt_powerups s) (s\<lparr>bt_powerups := []\<rparr>)) \<and>
        bt_score s \<le> bt_score (powerups_loop scr (bt_powerups s) (s\<lparr>bt_powerups := []\<rparr>)) \<and>
        bt_lives (powerups_loop scr (bt_powerups s) (s\<lparr>bt_powerups := []\<rparr>)) \<le> bt_lives s"
    by simp
qed

lemma pass_ok_update_particles: "pass_ok update_particles"
  by (simp add: pass_ok_def update_particles_def battle_inv_def)

lemma rng_ok_stars_loop [simp]: "rng_ok (snd (stars_loop scr sts g)) = rng_ok g"
  by (induction sts arbitrary: g) (simp_all add: star_update_def split_def Let_def)

lemma pass_ok_update_stars: "pass_ok (update_stars scr)"
  by (simp add: pass_ok_def update_stars_def battle_inv_def split_def Let_def)

lemma si_update_passes:
  "si_update scr inp =
     update_stars scr \<circ> update_particles \<circ> update_powerups scr \<circ> check_collisions \<circ>
     update_alien_bullets scr \<circ> alien_shoot \<circ> move_aliens scr \<circ>
     (\<lambda>s. s\<lparr>bt_player := player_update_powerups (bt_player s)\<rparr>) \<circ>
     (\<lambda>s. s\<lparr>bt_player := player_update_bullets (bt_player s)\<rparr>) \<circ>
     spawn_alien scr (fi_ticks inp) \<circ> si_steer scr (fi_held inp)"
  by (simp add: si_update_def Let_def fun_eq_iff)

lemma pass_ok_si_steer: "pass_ok (si_steer scr held)"
  by (simp add: pass_ok_def si_steer_def Let_def battle_inv_def)

lemma pass_ok_si_update: "pass_ok (si_update scr inp)"
  unfolding si_update_passes
  by (intro pass_ok_comp pass_ok_si_steer pass_ok_spawn_alien pass_ok_player pass_ok_move_aliens
        pass_ok_alien_shoot pass_ok_update_alien_bullets pass_ok_check_collisions
        pass_ok_update_powerups pass_ok_update_particles pass_ok_update_stars)


lemma battle_inv_reset [simp]: "battle_inv (reset_game scr s) = rng_ok (bt_rng s)"
  by (simp add: battle_inv_def reset_game_def)

lemma si_handle_events_inv:
  "battle_inv s \<Longrightarrow> si_handle_events scr es s = Some s' \<Longrightarrow> battle_inv s'"
proof (induction scr es s rule: si_handle_events.induct)
  case (3 scr k es s)
  let ?n = "if k = K_SPACE \<and> bt_game_state s = Playing
            then s\<lparr>bt_player := player_shoot (bt_player s)\<rparr>
            else if k = K_r \<and> bt_game_state s = Game_over then reset_game scr s else s"
  have "battle_inv ?n" using "3.prems"(1) by (simp add: battle_inv_def reset_game_def)
  then show ?case using "3.IH" "3.prems"(2) by simp
qed simp_all

lemma si_handle_events_playing:
  "si_handle_events scr es s = Some s' \<Longrightarrow> bt_game_state s = Playing \<Longrightarrow>
   s' = s\<lparr>bt_player := bt_player s'\<rparr>"
proof (induction scr es s rule: si_handle_events.induct)
  case (3 scr k es s)
  then show ?case by (auto split: if_splits)
qed simp_all

lemma battle_inv_si_draw [simp]: "battle_inv (si_draw s) = battle_inv s"
  by (simp add: battle_inv_def si_draw_def)

lemma si_draw_fields [simp]:
  "bt_score (si_draw s) = bt_score s" "bt_lives (si_draw s) = bt_lives s"
  "bt_game_state (si_draw s) = bt_game_state s" "bt_aliens (si_draw s) = bt_aliens s"
  by (simp_all add: si_draw_def)

lemma si_frame_inv: "battle_inv s \<Longrightarrow> si_frame scr inp s = Some s' \<Longrightarrow> battle_inv s'"
  using si_handle_events_inv pass_ok_si_update
  by (fastforce simp: si_frame_def pass_ok_def split: option.splits)

lemma rng_ok_stars_new [simp]: "rng_ok (snd (stars_new scr n g)) = rng_ok g"
  by (induction n arbitrary: g) (simp_all add: star_new_def split_def Let_def)

lemma battle_new_inv: "rng_ok g \<Longrightarrow> battle_inv (battle_new scr g)"
  by (simp add: battle_inv_def battle_new_def split_def Let_def)

lemma si_reachable_inv: "si_reachable scr s \<Longrightarrow> battle_inv s"
proof (induction rule: si_reachable.induct)
  case (start g)
  then show ?case by (rule battle_new_inv)
next
  case (frame s inp s')
  from frame.IH frame.hyps(2) show ?case by (rule si_frame_inv)
qed

lemma si_frame_playing_mono:
  assumes "battle_inv s" and "bt_game_state s = Playing" and "si_frame scr inp s = Some s'"
  shows "bt_score s \<le> bt_score s' \<and> bt_lives s' \<le> bt_lives s"
proof -
  obtain s1 where ev: "si_handle_events scr (fi_events inp) s = Some s1"
    and s': "s' = si_draw (if bt_game_state s1 = Playing then si_update scr inp s1 else s1)"
    using assms(3) by (auto simp: si_frame_def split: option.splits)
  have s1: "s1 = s\<lparr>bt_player := bt_player s1\<rparr>" using si_handle_events_playing [OF ev assms(2)] .
  have eqs: "bt_game_state s1 = Playing" "bt_score s1 = bt_score s" "bt_lives s1 = bt_lives s"
    using assms(2) by (subst s1, simp)+
  have "battle_inv s1" using assms(1) by (subst s1) (simp add: battle_inv_def)
  with pass_ok_si_update [of scr inp]
  have "bt_score s1 \<le> bt_score (si_update scr inp s1) \<and> bt_lives (si_update scr inp s1) \<le> bt_lives s1"
    by (simp add: pass_ok_def)
  then show ?thesis using s' eqs by simp
qed

section \<open>Lemmas: the spawner\<close>

lemma spawn_alien_wait:
  "1 < bt_spawn_timer s \<Longrightarrow> spawn_alien scr t s = s\<lparr>bt_spawn_timer := bt_spawn_timer s - 1\<rparr>"
  by (simp add: spawn_alien_def Let_def)

lemma spawn_alien_fire:
  assumes "bt_spawn_timer s \<le> 1"
  shows "length (bt_aliens (spawn_alien scr t s)) = Suc (length (bt_aliens s)) \<and>
         bt_spawn_timer (spawn_alien scr t s) = max 20 (ALIEN_SPAWN_RATE - bt_level s * 3) \<and>
         bt_spawn_rate (spawn_alien scr t s) = max 20 (ALIEN_SPAWN_RATE - bt_level s * 3)"
  using assms by (simp add: spawn_alien_def Let_def split_def)

lemma spawn_alien_waiting_iter:
  assumes "bt_spawn_timer s = int c" and "k < c"
  shows "(spawn_alien scr t ^^ k) s = s\<lparr>bt_spawn_timer := int c - int k\<rparr>"
  using assms(2)
proof (induction k)
  case 0
  then show ?case using assms(1) by simp
next
  case (Suc k)
  then have "(spawn_alien scr t ^^ k) s = s\<lparr>bt_spawn_timer := int c - int k\<rparr>" by simp
  moreover have "1 < int c - int k" using Suc.prems by simp
  ultimately show ?case by (simp add: spawn_alien_wait)
qed

end
