(* ===== verification/Pong.thy ===== *)
theory Pong
  imports Arcade_Prelude Pygame_Model
begin

text \<open>
  The Pong game of \<open>src/arcade-flipper/src/games/pong.py\<close>: the two paddles (class
  \<open>Paddle\<close>, \<open>move_player\<close> and \<open>move_ai\<close>), the ball (class \<open>Ball\<close>,
  \<open>reset\<close> and \<open>update\<close> with its wall bounce, paddle hits and scoring), and the
  loops of \<open>game()\<close> and \<open>win_screen()\<close> as one frame function on a phase value.
  Positions and velocities are floats, modelled as \<open>real\<close>; \<open>math.cos\<close>,
  \<open>math.sin\<close> and \<open>math.pi\<close> are the real functions. Drawing, the HUD and the
  pre-rendered overlays only read the state and are not modelled.
\<close>

section \<open>Constants\<close>

definition PAD_W :: int where "PAD_W = 19"
definition PAD_H :: int where "PAD_H = 185"
definition BALL_R :: int where "BALL_R = 10"
definition PAD_SPEED :: int where "PAD_SPEED = 35"
definition INIT_SPEED :: int where "INIT_SPEED = 25"
definition WIN_SCORE :: int where "WIN_SCORE = 7"
definition MARGIN :: int where "MARGIN = 50"

lemmas pong_consts [arcade_simps] = PAD_W_def PAD_H_def BALL_R_def PAD_SPEED_def INIT_SPEED_def
  WIN_SCORE_def MARGIN_def

section \<open>Paddle\<close>

text \<open>The colour and the pre-rendered surface are cosmetic; \<open>x\<close> is an int fixed at
  construction, \<open>y\<close> and \<open>vy\<close> become floats after the first move.\<close>

record paddle =
  pd_x :: int
  pd_y :: real
  pd_vy :: real

definition paddle_new :: "screen \<Rightarrow> int \<Rightarrow> paddle" where
  "paddle_new scr x = \<lparr>pd_x = x, pd_y = of_int (scr_h scr div 2 - PAD_H div 2), pd_vy = 0\<rparr>"

definition paddle_rect :: "paddle \<Rightarrow> rect" where
  "paddle_rect p = \<lparr>rx = pd_x p, ry = py_trunc (pd_y p), rw = PAD_W, rh = PAD_H\<rparr>"

definition move_player :: "screen \<Rightarrow> bool \<Rightarrow> bool \<Rightarrow> paddle \<Rightarrow> paddle" where
  "move_player scr up down p =
     (let vy = (if up then - of_int PAD_SPEED else if down then of_int PAD_SPEED else pd_vy p * 0.6)
      in p\<lparr>pd_vy := vy, pd_y := max 0 (min (of_int (scr_h scr - PAD_H)) (pd_y p + vy))\<rparr>)"

text \<open>\<open>math.copysign(m, d)\<close> for a magnitude \<open>m \<ge> 0\<close>; a float \<open>-0.0\<close> cannot arise
  as \<open>ball.y - center\<close>, so the sign of zero does not matter here.\<close>

definition py_copysign :: "real \<Rightarrow> real \<Rightarrow> real" where
  "py_copysign m d = (if d < 0 then - \<bar>m\<bar> else \<bar>m\<bar>)"

definition move_ai :: "screen \<Rightarrow> real \<Rightarrow> paddle \<Rightarrow> paddle" where
  "move_ai scr ball_y p =
     (let center = pd_y p + of_int PAD_H / 2;
          diff = ball_y - center;
          speed = min \<bar>diff\<bar> (of_int PAD_SPEED * 0.78);
          y1 = pd_y p + py_copysign speed diff
      in p\<lparr>pd_y := max 0 (min (of_int (scr_h scr - PAD_H)) y1)\<rparr>)"

section \<open>Ball\<close>

record ball =
  b_x :: real
  b_y :: real
  b_vx :: real
  b_vy :: real
  b_speed :: real
  b_trail :: "(int \<times> int) list"

definition ball_reset :: "screen \<Rightarrow> int \<Rightarrow> ball \<Rightarrow> rng \<Rightarrow> ball \<times> rng" where
  "ball_reset scr direction b g =
     (let (angle, g1) = uniform (-0.6) 0.6 g
      in (b\<lparr>b_x := of_int (scr_w scr) / 2, b_y := of_int (scr_h scr) / 2,
            b_vx := cos angle * of_int INIT_SPEED * of_int direction,
            b_vy := sin angle * of_int INIT_SPEED,
            b_speed := of_int INIT_SPEED, b_trail := []\<rparr>, g1))"

text \<open>\<open>Ball()\<close>: an empty trail and \<open>reset(1)\<close>.\<close>

definition ball_new :: "screen \<Rightarrow> rng \<Rightarrow> ball \<times> rng" where
  "ball_new scr g =
     ball_reset scr 1 \<lparr>b_x = 0, b_y = 0, b_vx = 0, b_vy = 0, b_speed = 0, b_trail = []\<rparr> g"

definition ball_rect :: "ball \<Rightarrow> rect" where
  "ball_rect b = \<lparr>rx = py_trunc (b_x b) - BALL_R, ry = py_trunc (b_y b) - BALL_R,
                   rw = BALL_R * 2, rh = BALL_R * 2\<rparr>"

text \<open>One iteration of \<open>for pad in (player, ai)\<close>; \<open>is_player\<close> is the test
  \<open>pad is player\<close>.\<close>

definition ball_paddle :: "bool \<Rightarrow> paddle \<Rightarrow> ball \<Rightarrow> ball" where
  "ball_paddle is_player pad b =
     (if colliderect (ball_rect b) (paddle_rect pad) then
        (let rel = (b_y b - (pd_y pad + of_int PAD_H / 2)) / (of_int PAD_H / 2);
             rel = max (-1.0) (min 1.0 rel);
             speed = min (b_speed b + 1.5) 100;
             angle = rel * pi / 3.5;
             direction = (if is_player then 1 else -1 :: real)
         in b\<lparr>b_speed := speed, b_vx := cos angle * speed * direction, b_vy := sin angle * speed,
              b_x := (if is_player then of_int (pd_x pad + PAD_W + BALL_R + 1)
                      else of_int (pd_x pad - BALL_R - 1))\<rparr>)
      else b)"

datatype point = Point_ai | Point_player

definition trail_push :: "int \<times> int \<Rightarrow> (int \<times> int) list \<Rightarrow> (int \<times> int) list" where
  "trail_push p tr = (let tr1 = tr @ [p] in if length tr1 > 10 then tl tr1 else tr1)"

definition ball_update :: "screen \<Rightarrow> paddle \<Rightarrow> paddle \<Rightarrow> ball \<Rightarrow> point option \<times> ball" where
  "ball_update scr player ai b =
     (let b1 = b\<lparr>b_trail := trail_push (py_trunc (b_x b), py_trunc (b_y b)) (b_trail b)\<rparr>;
          b2 = b1\<lparr>b_x := b_x b1 + b_vx b1, b_y := b_y b1 + b_vy b1\<rparr>;
          b3 = (if b_y b2 - of_int BALL_R \<le> 0 then b2\<lparr>b_y := of_int BALL_R, b_vy := \<bar>b_vy b2\<bar>\<rparr>
                else if b_y b2 + of_int BALL_R \<ge> of_int (scr_h scr)
                then b2\<lparr>b_y := of_int (scr_h scr - BALL_R), b_vy := - \<bar>b_vy b2\<bar>\<rparr>
                else b2);
          b4 = ball_paddle False ai (ball_paddle True player b3)
      in (if b_x b4 < 0 then Some Point_ai
          else if b_x b4 > of_int (scr_w scr) then Some Point_player else None, b4))"

section \<open>The game loop\<close>

text \<open>The local variables of \<open>game()\<close>: the two paddles, the ball, the scores, the
  pause flag and the serve direction; the random generator is threaded through.\<close>

record pong =
  pg_player :: paddle
  pg_ai :: paddle
  pg_ball :: ball
  pg_score_p :: int
  pg_score_ai :: int
  pg_paused :: bool
  pg_direction :: int
  pg_rng :: rng

definition pong_new :: "screen \<Rightarrow> rng \<Rightarrow> pong" where
  "pong_new scr g =
     (let (b, g1) = ball_new scr g
      in \<lparr>pg_player = paddle_new scr MARGIN, pg_ai = paddle_new scr (scr_w scr - MARGIN - PAD_W),
          pg_ball = b, pg_score_p = 0, pg_score_ai = 0, pg_paused = False, pg_direction = 1,
          pg_rng = g1\<rparr>)"

text \<open>The process is either in the loop of \<open>game()\<close> or in the loop of
  \<open>win_screen(winner)\<close>, whose frame counter \<open>t\<close> only drives the blinking.\<close>

datatype pong_phase = Match pong | Win_screen string int rng

text \<open>The event loop of \<open>game()\<close>: \<open>QUIT\<close> and escape end the process
  (\<open>None\<close>), \<open>p\<close> toggles the pause.\<close>

fun pong_events :: "event list \<Rightarrow> pong \<Rightarrow> pong option" where
  "pong_events [] s = Some s"
| "pong_events (QUIT # es) s = None"
| "pong_events (KEYDOWN k # es) s =
     (if k = K_ESCAPE then None
      else pong_events es (if k = K_p then s\<lparr>pg_paused := \<not> pg_paused s\<rparr> else s))"
| "pong_events (MOUSEBUTTONDOWN # es) s = pong_events es s"
| "pong_events (OTHER # es) s = pong_events es s"

text \<open>The block \<open>if result:\<close> of \<open>game()\<close>: the point is counted and the serve
  direction set towards the side that scored it (\<open>-1\<close>, towards the player's paddle on the
  left, after a player point); seven points end the match
  (\<open>win_screen\<close>, after which \<open>game()\<close> returns), otherwise a new ball is served.\<close>

definition pong_point :: "screen \<Rightarrow> point \<Rightarrow> pong \<Rightarrow> pong_phase" where
  "pong_point scr r s1 =
     (let s2 = (if r = Point_player
                then s1\<lparr>pg_score_p := pg_score_p s1 + 1, pg_direction := -1\<rparr>
                else s1\<lparr>pg_score_ai := pg_score_ai s1 + 1, pg_direction := 1\<rparr>)
      in if pg_score_p s2 \<ge> WIN_SCORE then Win_screen ''SPELER'' 0 (pg_rng s2)
         else if pg_score_ai s2 \<ge> WIN_SCORE then Win_screen ''A.I.'' 0 (pg_rng s2)
         else (let (b', g) = ball_reset scr (pg_direction s2) (pg_ball s2) (pg_rng s2)
               in Match (s2\<lparr>pg_ball := b', pg_rng := g\<rparr>)))"

text \<open>The rest of one iteration of \<open>game()\<close>: a paused game only redraws; otherwise
  the player's paddle follows the held keys, the AI paddle tracks the ball's position before
  its move, and the ball moves against both moved paddles.\<close>

definition pong_tick :: "screen \<Rightarrow> (key \<Rightarrow> bool) \<Rightarrow> pong \<Rightarrow> pong_phase" where
  "pong_tick scr held s =
     (if pg_paused s then Match s
      else
        (let player = move_player scr (held K_UP) (held K_DOWN) (pg_player s);
             ai = move_ai scr (b_y (pg_ball s)) (pg_ai s);
             (res, b) = ball_update scr player ai (pg_ball s);
             s1 = s\<lparr>pg_player := player, pg_ai := ai, pg_ball := b\<rparr>
         in case res of None \<Rightarrow> Match s1 | Some r \<Rightarrow> pong_point scr r s1))"

text \<open>The event loop of \<open>win_screen\<close>: \<open>None\<close> is \<open>QUIT\<close>, \<open>Some True\<close> an enter
  key, which returns at once and drops the rest of the frame's events.\<close>

fun win_events :: "event list \<Rightarrow> bool option" where
  "win_events [] = Some False"
| "win_events (QUIT # es) = None"
| "win_events (KEYDOWN k # es) = (if k = K_RETURN then Some True else win_events es)"
| "win_events (MOUSEBUTTONDOWN # es) = win_events es"
| "win_events (OTHER # es) = win_events es"

text \<open>One frame of the process \<open>while True: game()\<close>; \<open>None\<close> is the exit.\<close>

fun pong_frame :: "screen \<Rightarrow> frame_input \<Rightarrow> pong_phase \<Rightarrow> pong_phase option" where
  "pong_frame scr inp (Match s) =
     (case pong_events (fi_events inp) s of
        None \<Rightarrow> None
      | Some s' \<Rightarrow> Some (pong_tick scr (fi_held inp) s'))"
| "pong_frame scr inp (Win_screen w t g) =
     (case win_events (fi_events inp) of
        None \<Rightarrow> None
      | Some True \<Rightarrow> Some (Match (pong_new scr g))
      | Some False \<Rightarrow> Some (Win_screen w (t + 1) g))"

inductive pong_reachable :: "screen \<Rightarrow> pong_phase \<Rightarrow> bool" for scr where
  start: "rng_ok g \<Longrightarrow> pong_reachable scr (Match (pong_new scr g))"
| frame: "pong_reachable scr p \<Longrightarrow> pong_frame scr inp p = Some p' \<Longrightarrow> pong_reachable scr p'"

section \<open>Invariants\<close>

text \<open>The field must be at least one paddle high, as any real display is.\<close>

definition pong_screen_ok :: "screen \<Rightarrow> bool" where
  "pong_screen_ok scr \<longleftrightarrow> PAD_H \<le> scr_h scr"

definition paddle_ok :: "screen \<Rightarrow> paddle \<Rightarrow> bool" where
  "paddle_ok scr p \<longleftrightarrow> 0 \<le> pd_y p \<and> pd_y p \<le> of_int (scr_h scr - PAD_H)"

definition ball_ok :: "screen \<Rightarrow> ball \<Rightarrow> bool" where
  "ball_ok scr b \<longleftrightarrow>
     of_int BALL_R \<le> b_y b \<and> b_y b \<le> of_int (scr_h scr - BALL_R) \<and>
     (b_vx b)\<^sup>2 + (b_vy b)\<^sup>2 = (b_speed b)\<^sup>2 \<and>
     of_int INIT_SPEED \<le> b_speed b \<and> b_speed b \<le> 100 \<and> length (b_trail b) \<le> 10"

definition pong_inv :: "screen \<Rightarrow> pong \<Rightarrow> bool" where
  "pong_inv scr s \<longleftrightarrow>
     paddle_ok scr (pg_player s) \<and> paddle_ok scr (pg_ai s) \<and>
     pd_x (pg_player s) = MARGIN \<and> pd_x (pg_ai s) = scr_w scr - MARGIN - PAD_W \<and>
     ball_ok scr (pg_ball s) \<and>
     0 \<le> pg_score_p s \<and> pg_score_p s < WIN_SCORE \<and> 0 \<le> pg_score_ai s \<and> pg_score_ai s < WIN_SCORE \<and>
     pg_direction s \<in> {1, -1} \<and> rng_ok (pg_rng s)"

fun phase_inv :: "screen \<Rightarrow> pong_phase \<Rightarrow> bool" where
  "phase_inv scr (Match s) = pong_inv scr s"
| "phase_inv scr (Win_screen w t g) = (rng_ok g \<and> w \<in> {''SPELER'', ''A.I.''})"

text \<open>A paddle lies wholly above or below the rows covered by a ball at height \<open>y\<close>.\<close>

definition row_clear :: "real \<Rightarrow> paddle \<Rightarrow> bool" where
  "row_clear y p \<longleftrightarrow>
     py_trunc (pd_y p) + PAD_H \<le> py_trunc y - BALL_R \<or> py_trunc y + BALL_R \<le> py_trunc (pd_y p)"

section \<open>Lemmas: paddles and ball\<close>

lemma polar_norm:
  assumes "dir\<^sup>2 = 1"
  shows "(cos a * s * dir)\<^sup>2 + (sin a * s)\<^sup>2 = (s::real)\<^sup>2"
proof -
  have "(cos a * s * dir)\<^sup>2 + (sin a * s)\<^sup>2 = ((cos a)\<^sup>2 + (sin a)\<^sup>2) * s\<^sup>2"
    by (simp only: power_mult_distrib assms mult_1_right distrib_right)
  then show ?thesis by (simp only: sin_cos_squared_add2 mult_1)
qed

lemma paddle_new_ok: "pong_screen_ok scr \<Longrightarrow> paddle_ok scr (paddle_new scr x)"
proof -
  assume "pong_screen_ok scr"
  then have h: "185 \<le> scr_h scr" by (simp add: pong_screen_ok_def PAD_H_def)
  have "scr_h scr = 2 * (scr_h scr div 2) + scr_h scr mod 2" by simp
  moreover have "0 \<le> scr_h scr mod 2" "scr_h scr mod 2 < 2" by simp_all
  ultimately have "92 \<le> scr_h scr div 2" "scr_h scr div 2 - 92 \<le> scr_h scr - 185"
    using h by linarith+
  then show ?thesis
    by (simp only: paddle_ok_def paddle_new_def PAD_H_def of_int_le_iff of_int_0_le_iff
        paddle.select_convs) simp
qed

lemma move_player_ok: "pong_screen_ok scr \<Longrightarrow> paddle_ok scr (move_player scr u d p)"
  by (simp add: move_player_def Let_def paddle_ok_def pong_screen_ok_def)

lemma move_ai_ok: "pong_screen_ok scr \<Longrightarrow> paddle_ok scr (move_ai scr y p)"
  by (simp add: move_ai_def Let_def paddle_ok_def pong_screen_ok_def)

lemma move_player_x [simp]: "pd_x (move_player scr u d p) = pd_x p"
  by (simp add: move_player_def Let_def)

lemma move_ai_x [simp]: "pd_x (move_ai scr y p) = pd_x p"
  by (simp add: move_ai_def Let_def)

lemma ball_reset_ok:
  assumes "pong_screen_ok scr" and "d \<in> {1, -1}"
  shows "ball_ok scr (fst (ball_reset scr d b g))"
proof -
  have "(real_of_int d)\<^sup>2 = 1" using assms(2) by auto
  then show ?thesis using assms(1) polar_norm [of "real_of_int d" _ 25]
    by (simp add: ball_reset_def ball_ok_def pong_screen_ok_def BALL_R_def INIT_SPEED_def PAD_H_def
        split: prod.split)
qed

lemma ball_paddle_ok: "ball_ok scr b \<Longrightarrow> ball_ok scr (ball_paddle ip pad b)"
  using polar_norm [of 1] polar_norm [of "-1"]
  by (auto simp: ball_paddle_def Let_def ball_ok_def INIT_SPEED_def)

lemma trail_push_length: "length tr \<le> 10 \<Longrightarrow> length (trail_push p tr) \<le> 10"
  by (simp add: trail_push_def Let_def)

lemma ball_update_ok:
  assumes "pong_screen_ok scr" and "ball_ok scr b"
  shows "ball_ok scr (snd (ball_update scr pl ai b))"
  unfolding ball_update_def Let_def snd_conv
proof (intro ball_paddle_ok)
  let ?b1 = "b\<lparr>b_trail := trail_push (py_trunc (b_x b), py_trunc (b_y b)) (b_trail b)\<rparr>"
  let ?b2 = "?b1\<lparr>b_x := b_x ?b1 + b_vx ?b1, b_y := b_y ?b1 + b_vy ?b1\<rparr>"
  have t: "length (b_trail ?b2) \<le> 10" using assms(2) trail_push_length by (simp add: ball_ok_def)
  have h: "20 \<le> scr_h scr" using assms(1) by (simp add: pong_screen_ok_def PAD_H_def)
  show "ball_ok scr (if b_y ?b2 - of_int BALL_R \<le> 0 then ?b2\<lparr>b_y := of_int BALL_R, b_vy := \<bar>b_vy ?b2\<bar>\<rparr>
          else if of_int (scr_h scr) \<le> b_y ?b2 + of_int BALL_R
          then ?b2\<lparr>b_y := of_int (scr_h scr - BALL_R), b_vy := - \<bar>b_vy ?b2\<bar>\<rparr> else ?b2)"
    using assms(2) t h by (simp add: ball_ok_def BALL_R_def)
qed

lemma pong_events_Some:
  "pong_events es s = Some s' \<Longrightarrow> s' = s\<lparr>pg_paused := pg_paused s'\<rparr>"
proof (induction es s rule: pong_events.induct)
  case (3 k es s)
  then show ?case by (cases "k = K_ESCAPE"; cases "k = K_p") auto
qed auto

lemma pong_events_inv: "pong_events es s = Some s' \<Longrightarrow> pong_inv scr s' = pong_inv scr s"
  by (subst pong_events_Some [of es s s']) (auto simp: pong_inv_def)

lemma rng_ok_ball_reset [simp]: "rng_ok (snd (ball_reset scr d b g)) = rng_ok g"
  by (simp add: ball_reset_def case_prod_beta)

lemma paddle_new_x [simp]: "pd_x (paddle_new scr x) = x"
  by (simp add: paddle_new_def)

lemma pong_new_inv: "pong_screen_ok scr \<Longrightarrow> rng_ok g \<Longrightarrow> pong_inv scr (pong_new scr g)"
  using ball_reset_ok [of scr 1] paddle_new_ok [of scr]
  by (simp add: pong_new_def ball_new_def pong_inv_def WIN_SCORE_def case_prod_beta)

lemma pong_point_inv:
  assumes ok: "pong_screen_ok scr" and inv: "pong_inv scr s"
  shows "phase_inv scr (pong_point scr r s)"
proof (cases r)
  case Point_ai
  then show ?thesis using inv ball_reset_ok [OF ok, of 1]
    by (auto simp: pong_point_def pong_inv_def WIN_SCORE_def case_prod_beta Let_def)
next
  case Point_player
  then show ?thesis using inv ball_reset_ok [OF ok, of "-1"]
    by (auto simp: pong_point_def pong_inv_def WIN_SCORE_def case_prod_beta Let_def)
qed

lemma pong_tick_inv:
  assumes ok: "pong_screen_ok scr" and inv: "pong_inv scr s"
  shows "phase_inv scr (pong_tick scr held s)"
proof (cases "pg_paused s")
  case True
  then show ?thesis using inv by (simp add: pong_tick_def)
next
  case False
  define pl where "pl = move_player scr (held K_UP) (held K_DOWN) (pg_player s)"
  define ai where "ai = move_ai scr (b_y (pg_ball s)) (pg_ai s)"
  obtain res b where rb: "ball_update scr pl ai (pg_ball s) = (res, b)" by fastforce
  have "ball_ok scr b" using ball_update_ok [OF ok, of "pg_ball s" pl ai] inv rb
    by (simp add: pong_inv_def)
  then have inv1: "pong_inv scr (s\<lparr>pg_player := pl, pg_ai := ai, pg_ball := b\<rparr>)"
    using inv move_player_ok [OF ok] move_ai_ok [OF ok] by (simp add: pong_inv_def pl_def ai_def)
  show ?thesis
    using False rb inv1 pong_point_inv [OF ok inv1]
    by (simp add: pong_tick_def pl_def [symmetric] ai_def [symmetric] Let_def split: option.split)
qed

lemma pong_frame_inv:
  assumes ok: "pong_screen_ok scr" and inv: "phase_inv scr p" and fr: "pong_frame scr inp p = Some p'"
  shows "phase_inv scr p'"
proof (cases p)
  case (Match s)
  then obtain s' where "pong_events (fi_events inp) s = Some s'" "p' = pong_tick scr (fi_held inp) s'"
    using fr by (auto split: option.splits)
  then show ?thesis using inv Match pong_events_inv pong_tick_inv [OF ok] by auto
next
  case (Win_screen w t g)
  then show ?thesis using inv fr pong_new_inv [OF ok] by (auto split: option.splits bool.splits)
qed

lemma pong_reachable_inv:
  assumes ok: "pong_screen_ok scr"
  shows "pong_reachable scr p \<Longrightarrow> phase_inv scr p"
proof (induction rule: pong_reachable.induct)
  case (start g)
  then show ?case using pong_new_inv [OF ok] by simp
next
  case (frame p inp p')
  then show ?case using pong_frame_inv [OF ok] by blast
qed

lemma pong_start_reachable: "rng_ok g \<Longrightarrow> pong_reachable scr (Match (pong_new scr g))"
  by (rule pong_reachable.start)

text \<open>C29: in every state of a match, on a screen at least one paddle high, both paddles lie
  wholly inside the field: 0 <= y <= HEIGHT - PAD_H.\<close>

theorem pong_paddles_in_field:
  assumes "pong_screen_ok scr" and "pong_reachable scr (Match s)"
  shows "0 \<le> pd_y (pg_player s) \<and> pd_y (pg_player s) \<le> of_int (scr_h scr - PAD_H) \<and>
         0 \<le> pd_y (pg_ai s) \<and> pd_y (pg_ai s) \<le> of_int (scr_h scr - PAD_H)"
  using pong_reachable_inv [OF assms] by (simp add: pong_inv_def paddle_ok_def)

theorem pong_paddles_in_field_witness:
  "let scr = \<lparr>scr_w = 1920, scr_h = 1080\<rparr>; s = pong_new scr \<lparr>rnd_src = \<lambda>_. 0, rnd_pos = 0\<rparr>
   in pong_screen_ok scr \<and> pong_reachable scr (Match s) \<and>
      0 \<le> pd_y (pg_player s) \<and> pd_y (pg_player s) \<le> of_int (scr_h scr - PAD_H) \<and>
      0 \<le> pd_y (pg_ai s) \<and> pd_y (pg_ai s) \<le> of_int (scr_h scr - PAD_H)"
proof -
  let ?scr = "\<lparr>scr_w = 1920, scr_h = 1080\<rparr>"
  let ?s = "pong_new ?scr \<lparr>rnd_src = \<lambda>_. 0, rnd_pos = 0\<rparr>"
  have ok: "pong_screen_ok ?scr" by (simp add: pong_screen_ok_def PAD_H_def)
  have r: "pong_reachable ?scr (Match ?s)" by (rule pong_start_reachable) simp
  show ?thesis using ok r pong_paddles_in_field [OF ok r] by (simp add: Let_def)
qed

lemma polar_angle_cos_pos:
  assumes "\<bar>rel\<bar> \<le> (1::real)"
  shows "0 < cos (rel * pi / 3.5)"
proof (rule cos_gt_zero_pi)
  have "\<bar>rel * pi / 3.5\<bar> \<le> pi / 3.5" using assms pi_gt_zero
    by (simp add: abs_mult mult_le_cancel_right1)
  moreover have "pi / 3.5 < pi / 2" using pi_gt_zero by (simp add: divide_strict_left_mono)
  ultimately have a: "\<bar>rel * pi / 3.5\<bar> < pi / 2" by (rule le_less_trans)
  show "- (pi / 2) < rel * pi / 3.5" using a [unfolded abs_less_iff] by linarith
  show "rel * pi / 3.5 < pi / 2" using a [unfolded abs_less_iff] by linarith
qed

text \<open>C24: a ball that touches the player's paddle leaves it moving right, placed just
  right of the paddle, one that touches the AI paddle leaves it moving left, placed just left
  of it; each hit adds 1.5 to the speed up to 100.\<close>

theorem ball_paddle_hit:
  assumes hit: "colliderect (ball_rect b) (paddle_rect pad)" and pos: "0 < b_speed b"
  shows "(if ip then 0 < b_vx (ball_paddle ip pad b) else b_vx (ball_paddle ip pad b) < 0) \<and>
         b_x (ball_paddle ip pad b) =
           (if ip then of_int (pd_x pad + PAD_W + BALL_R + 1) else of_int (pd_x pad - BALL_R - 1)) \<and>
         b_speed (ball_paddle ip pad b) = min (b_speed b + 1.5) 100"
proof -
  define rel where "rel = max (-1.0) (min 1.0 ((b_y b - (pd_y pad + of_int PAD_H / 2)) / (of_int PAD_H / 2)))"
  define sp where "sp = min (b_speed b + 1.5) (100::real)"
  define dir where "dir = (if ip then 1 else -1 :: real)"
  have eq: "ball_paddle ip pad b =
      b\<lparr>b_speed := sp, b_vx := cos (rel * pi / 3.5) * sp * dir, b_vy := sin (rel * pi / 3.5) * sp,
        b_x := (if ip then of_int (pd_x pad + PAD_W + BALL_R + 1) else of_int (pd_x pad - BALL_R - 1))\<rparr>"
    unfolding ball_paddle_def if_P [OF hit] Let_def rel_def sp_def dir_def by (rule refl)
  have "\<bar>rel\<bar> \<le> 1" by (simp add: rel_def)
  then have c: "0 < cos (rel * pi / 3.5)" by (rule polar_angle_cos_pos)
  have "0 < sp" using pos by (simp add: sp_def)
  then have "0 < cos (rel * pi / 3.5) * sp" using c by simp
  then show ?thesis unfolding eq by (simp add: dir_def sp_def)
qed

text \<open>The AI paddle moves at most 0.78 * PAD_SPEED = 27.3 pixels per frame and
  never moves away from the ball (its centre never ends farther from the ball's height).\<close>

theorem move_ai_toward_ball:
  assumes "pong_screen_ok scr" and "paddle_ok scr p"
  shows "\<bar>pd_y (move_ai scr y p) - pd_y p\<bar> \<le> of_int PAD_SPEED * 0.78 \<and>
         \<bar>y - of_int PAD_H / 2 - pd_y (move_ai scr y p)\<bar> \<le> \<bar>y - of_int PAD_H / 2 - pd_y p\<bar>"
  using assms
  by (auto simp: move_ai_def Let_def py_copysign_def paddle_ok_def pong_screen_ok_def PAD_SPEED_def
      abs_if min_def max_def split: if_splits)

lemma pong_events_quiet:
  "\<forall>e\<in>set es. e \<noteq> QUIT \<and> e \<noteq> KEYDOWN K_p \<and> e \<noteq> KEYDOWN K_ESCAPE \<Longrightarrow> pong_events es s = Some s"
proof (induction es)
  case (Cons e es)
  then show ?case by (cases e) auto
qed simp

text \<open>C25: while paused, a frame without a quit, escape or p event leaves the whole game
  state unchanged.\<close>

theorem pong_pause_freezes:
  assumes "pg_paused s" and "\<forall>e\<in>set (fi_events inp). e \<noteq> QUIT \<and> e \<noteq> KEYDOWN K_p \<and> e \<noteq> KEYDOWN K_ESCAPE"
  shows "pong_frame scr inp (Match s) = Some (Match s)"
  using assms pong_events_quiet [OF assms(2)] by (simp add: pong_tick_def)

lemma serve_angle_cos_pos:
  assumes "rng_ok g"
  shows "0 < cos (fst (uniform (-0.6) 0.6 g))"
proof (rule cos_gt_zero_pi)
  have u: "0 \<le> fst (py_random g)" "fst (py_random g) < 1" using py_random_range [OF assms] by simp_all
  have "pi / 2 \<ge> 1" using pi_ge_two by simp
  then show "- (pi / 2) < fst (uniform (-0.6) 0.6 g)" "fst (uniform (-0.6) 0.6 g) < pi / 2"
    using u by (simp_all add: uniform_fst)
qed

text \<open>C23: a point that does not end the match counts for the side that scored it, and the
  new ball is served from the centre at the initial speed, with an empty trail, towards the
  scorer's paddle: left (vx < 0, towards the player's paddle) after a player point, right
  after an AI point; the match goes on only while both scores are below seven.\<close>

theorem pong_serve_towards_scorer:
  assumes "rng_ok (pg_rng s)" and "pong_point scr r s = Match s'"
  shows "(if r = Point_player
          then pg_score_p s' = pg_score_p s + 1 \<and> pg_score_ai s' = pg_score_ai s \<and> b_vx (pg_ball s') < 0
          else pg_score_ai s' = pg_score_ai s + 1 \<and> pg_score_p s' = pg_score_p s \<and> 0 < b_vx (pg_ball s')) \<and>
         pg_score_p s' < WIN_SCORE \<and> pg_score_ai s' < WIN_SCORE \<and>
         b_x (pg_ball s') = of_int (scr_w scr) / 2 \<and> b_y (pg_ball s') = of_int (scr_h scr) / 2 \<and>
         b_speed (pg_ball s') = of_int INIT_SPEED \<and> b_trail (pg_ball s') = []"
proof -
  have c: "0 < cos (fst (uniform (-0.6) 0.6 (pg_rng s)))" using serve_angle_cos_pos [OF assms(1)] .
  show ?thesis
  proof (cases "r = Point_player")
    case True
    then show ?thesis using assms(2) c
      by (auto simp: pong_point_def ball_reset_def Let_def INIT_SPEED_def WIN_SCORE_def
          mult_pos_neg split: if_splits prod.splits)
  next
    case False
    then show ?thesis using assms(2) c
      by (auto simp: pong_point_def ball_reset_def Let_def INIT_SPEED_def WIN_SCORE_def
          split: if_splits prod.splits)
  qed
qed

text \<open>Pressing enter on the win screen starts a new match with both scores 0, unpaused,
  and a fresh ball at the initial speed with an empty trail.\<close>

theorem pong_restart:
  "pong_frame scr \<lparr>fi_events = KEYDOWN K_RETURN # es, fi_held = h, fi_mouse = m, fi_ticks = t'\<rparr>
      (Win_screen w t g) = Some (Match (pong_new scr g)) \<and>
   pg_score_p (pong_new scr g) = 0 \<and> pg_score_ai (pong_new scr g) = 0 \<and>
   \<not> pg_paused (pong_new scr g) \<and> b_trail (pg_ball (pong_new scr g)) = [] \<and>
   b_speed (pg_ball (pong_new scr g)) = of_int INIT_SPEED"
  by (simp add: pong_new_def ball_new_def ball_reset_def case_prod_beta)

lemma row_clear_no_hit:
  assumes "py_trunc (pd_y p) + PAD_H \<le> py_trunc (b_y b) - BALL_R \<or> py_trunc (b_y b) + BALL_R \<le> py_trunc (pd_y p)"
  shows "\<not> colliderect (ball_rect b) (paddle_rect p)"
  using assms by (auto simp: colliderect_def ball_rect_def paddle_rect_def BALL_R_def PAD_H_def PAD_W_def)

lemma ball_paddle_miss: "\<not> colliderect (ball_rect b) (paddle_rect p) \<Longrightarrow> ball_paddle ip p b = b"
  by (simp add: ball_paddle_def)

lemma ball_update_miss:
  assumes "of_int BALL_R < b_y b + b_vy b" and "b_y b + b_vy b < of_int (scr_h scr - BALL_R)"
    and "\<not> colliderect (ball_rect (b\<lparr>b_x := b_x b + b_vx b, b_y := b_y b + b_vy b\<rparr>)) (paddle_rect pl)"
    and "\<not> colliderect (ball_rect (b\<lparr>b_x := b_x b + b_vx b, b_y := b_y b + b_vy b\<rparr>)) (paddle_rect ai)"
  shows "ball_update scr pl ai b =
           (if b_x b + b_vx b < 0 then Some Point_ai
            else if b_x b + b_vx b > of_int (scr_w scr) then Some Point_player else None,
            b\<lparr>b_trail := trail_push (py_trunc (b_x b), py_trunc (b_y b)) (b_trail b),
              b_x := b_x b + b_vx b, b_y := b_y b + b_vy b\<rparr>)"
proof -
  let ?b3 = "b\<lparr>b_trail := trail_push (py_trunc (b_x b), py_trunc (b_y b)) (b_trail b),
               b_x := b_x b + b_vx b, b_y := b_y b + b_vy b\<rparr>"
  have "ball_rect ?b3 = ball_rect (b\<lparr>b_x := b_x b + b_vx b, b_y := b_y b + b_vy b\<rparr>)"
    by (simp add: ball_rect_def)
  then have "\<not> colliderect (ball_rect ?b3) (paddle_rect pl)" "\<not> colliderect (ball_rect ?b3) (paddle_rect ai)"
    using assms(3,4) by simp_all
  then show ?thesis using assms(1,2)
    by (simp add: ball_update_def Let_def ball_paddle_miss BALL_R_def)
qed

lemma ball_update_straight:
  assumes "b_vy b = 0" and "of_int BALL_R < b_y b" and "b_y b < of_int (scr_h scr - BALL_R)"
    and "row_clear (b_y b) pl" and "row_clear (b_y b) ai"
  shows "ball_update scr pl ai b =
           (if b_x b + b_vx b < 0 then Some Point_ai
            else if b_x b + b_vx b > of_int (scr_w scr) then Some Point_player else None,
            b\<lparr>b_trail := trail_push (py_trunc (b_x b), py_trunc (b_y b)) (b_trail b),
              b_x := b_x b + b_vx b\<rparr>)"
proof -
  let ?bm = "b\<lparr>b_x := b_x b + b_vx b, b_y := b_y b + b_vy b\<rparr>"
  have "\<not> colliderect (ball_rect ?bm) (paddle_rect pl)" "\<not> colliderect (ball_rect ?bm) (paddle_rect ai)"
    using assms(1,4,5) row_clear_no_hit [of pl ?bm] row_clear_no_hit [of ai ?bm]
    by (simp_all add: row_clear_def)
  then show ?thesis using ball_update_miss [of b scr pl ai] assms(1-3) by simp
qed

text \<open>C27: a ball flying horizontally at speed vx > 0 from x0 >= 0, clear of both paddles,
  is at x0 + n * vx after n updates, and the update reports a point for the player exactly when
  the centre has passed the right edge: x0 + (n + 1) * vx > WIDTH.\<close>

theorem ball_scores_after:
  assumes "b_vy b = 0" and "of_int BALL_R < b_y b" and "b_y b < of_int (scr_h scr - BALL_R)"
    and "row_clear (b_y b) pl" and "row_clear (b_y b) ai" and "0 \<le> b_x b" and "0 < b_vx b"
  shows "b_x (((\<lambda>c. snd (ball_update scr pl ai c)) ^^ n) b) = b_x b + of_nat n * b_vx b \<and>
         fst (ball_update scr pl ai (((\<lambda>c. snd (ball_update scr pl ai c)) ^^ n) b)) =
           (if b_x b + of_nat (Suc n) * b_vx b > of_int (scr_w scr) then Some Point_player else None)"
proof -
  let ?step = "\<lambda>c. snd (ball_update scr pl ai c)"
  have inv: "b_vy ((?step ^^ k) b) = 0 \<and> b_y ((?step ^^ k) b) = b_y b \<and>
             b_vx ((?step ^^ k) b) = b_vx b \<and> b_x ((?step ^^ k) b) = b_x b + of_nat k * b_vx b" for k
  proof (induction k)
    case 0
    then show ?case using assms(1) by simp
  next
    case (Suc k)
    then show ?case using ball_update_straight [of "(?step ^^ k) b" scr pl ai] assms(1-5)
      by (simp add: algebra_simps)
  qed
  have "0 \<le> b_x b + of_nat (Suc n) * b_vx b" using assms(6,7) by simp
  then show ?thesis using inv [of n] ball_update_straight [of "(?step ^^ n) b" scr pl ai] assms(1-5)
    by (simp add: algebra_simps)
qed

theorem ball_scores_after_witness:
  "let scr = \<lparr>scr_w = 800, scr_h = 600\<rparr>; pad = \<lparr>pd_x = 50, pd_y = 0, pd_vy = 0\<rparr>;
       ai = \<lparr>pd_x = 731, pd_y = 0, pd_vy = 0\<rparr>;
       b = \<lparr>b_x = 400, b_y = 300, b_vx = 15, b_vy = 0, b_speed = 15, b_trail = []\<rparr>;
       step = (\<lambda>c. snd (ball_update scr pad ai c))
   in b_vy b = 0 \<and> of_int BALL_R < b_y b \<and> b_y b < of_int (scr_h scr - BALL_R) \<and>
      row_clear (b_y b) pad \<and> row_clear (b_y b) ai \<and> 0 \<le> b_x b \<and> 0 < b_vx b \<and>
      fst (ball_update scr pad ai ((step ^^ 25) b)) = None \<and>
      fst (ball_update scr pad ai ((step ^^ 26) b)) = Some Point_player"
proof -
  let ?scr = "\<lparr>scr_w = 800, scr_h = 600\<rparr>"
  let ?pad = "\<lparr>pd_x = 50, pd_y = 0 :: real, pd_vy = 0 :: real\<rparr>"
  let ?ai = "\<lparr>pd_x = 731, pd_y = 0 :: real, pd_vy = 0 :: real\<rparr>"
  let ?b = "\<lparr>b_x = 400 :: real, b_y = 300, b_vx = 15, b_vy = 0, b_speed = 15, b_trail = []\<rparr>"
  have h: "b_vy ?b = 0" "of_int BALL_R < b_y ?b" "b_y ?b < of_int (scr_h ?scr - BALL_R)"
    "row_clear (b_y ?b) ?pad" "row_clear (b_y ?b) ?ai" "0 \<le> b_x ?b" "0 < b_vx ?b"
    by (simp_all add: BALL_R_def row_clear_def PAD_H_def)
  show ?thesis
    using h ball_scores_after [OF h, of 25] ball_scores_after [OF h, of 26] by (simp add: Let_def)
qed

text \<open>C20: in every state of a match the ball's centre lies between the walls,
  BALL_R <= y <= HEIGHT - BALL_R, and its trail holds at most 10 positions.\<close>

theorem pong_ball_in_field:
  assumes "pong_screen_ok scr" and "pong_reachable scr (Match s)"
  shows "of_int BALL_R \<le> b_y (pg_ball s) \<and> b_y (pg_ball s) \<le> of_int (scr_h scr - BALL_R) \<and>
         length (b_trail (pg_ball s)) \<le> 10"
  using pong_reachable_inv [OF assms] by (simp add: pong_inv_def ball_ok_def)

text \<open>C21: in every state of a match the ball's velocity has magnitude speed, and speed
  lies between INIT_SPEED = 25 and the cap 100.\<close>

theorem pong_ball_speed:
  assumes "pong_screen_ok scr" and "pong_reachable scr (Match s)"
  shows "(b_vx (pg_ball s))\<^sup>2 + (b_vy (pg_ball s))\<^sup>2 = (b_speed (pg_ball s))\<^sup>2 \<and>
         of_int INIT_SPEED \<le> b_speed (pg_ball s) \<and> b_speed (pg_ball s) \<le> 100"
  using pong_reachable_inv [OF assms] by (simp add: pong_inv_def ball_ok_def)

text \<open>C22: in every state of a match both scores lie in [0, WIN_SCORE): the seventh point
  always ends the match.\<close>

theorem pong_scores_below_win:
  assumes "pong_screen_ok scr" and "pong_reachable scr (Match s)"
  shows "0 \<le> pg_score_p s \<and> pg_score_p s < WIN_SCORE \<and> 0 \<le> pg_score_ai s \<and> pg_score_ai s < WIN_SCORE"
  using pong_reachable_inv [OF assms] by (simp add: pong_inv_def)

lemma pong_start_1080: 
  "pong_screen_ok \<lparr>scr_w = 1920, scr_h = 1080\<rparr> \<and>
   pong_reachable \<lparr>scr_w = 1920, scr_h = 1080\<rparr> (Match (pong_new \<lparr>scr_w = 1920, scr_h = 1080\<rparr> \<lparr>rnd_src = \<lambda>_. 0, rnd_pos = 0\<rparr>))"
  by (simp add: pong_screen_ok_def PAD_H_def pong_start_reachable)

theorem pong_ball_in_field_witness:
  "let scr = \<lparr>scr_w = 1920, scr_h = 1080\<rparr>; s = pong_new scr \<lparr>rnd_src = \<lambda>_. 0, rnd_pos = 0\<rparr>
   in pong_screen_ok scr \<and> pong_reachable scr (Match s) \<and>
      of_int BALL_R \<le> b_y (pg_ball s) \<and> b_y (pg_ball s) \<le> of_int (scr_h scr - BALL_R) \<and>
      length (b_trail (pg_ball s)) \<le> 10"
  using pong_start_1080 pong_ball_in_field [OF pong_start_1080 [THEN conjunct1] pong_start_1080 [THEN conjunct2]]
  by (simp add: Let_def)

theorem pong_ball_speed_witness:
  "let scr = \<lparr>scr_w = 1920, scr_h = 1080\<rparr>; s = pong_new scr \<lparr>rnd_src = \<lambda>_. 0, rnd_pos = 0\<rparr>
   in pong_screen_ok scr \<and> pong_reachable scr (Match s) \<and>
      (b_vx (pg_ball s))\<^sup>2 + (b_vy (pg_ball s))\<^sup>2 = (b_speed (pg_ball s))\<^sup>2 \<and>
      of_int INIT_SPEED \<le> b_speed (pg_ball s) \<and> b_speed (pg_ball s) \<le> 100"
  using pong_start_1080 pong_ball_speed [OF pong_start_1080 [THEN conjunct1] pong_start_1080 [THEN conjunct2]]
  by (simp add: Let_def)

theorem pong_scores_below_win_witness:
  "let scr = \<lparr>scr_w = 1920, scr_h = 1080\<rparr>; s = pong_new scr \<lparr>rnd_src = \<lambda>_. 0, rnd_pos = 0\<rparr>
   in pong_screen_ok scr \<and> pong_reachable scr (Match s) \<and>
      0 \<le> pg_score_p s \<and> pg_score_p s < WIN_SCORE \<and> 0 \<le> pg_score_ai s \<and> pg_score_ai s < WIN_SCORE"
  using pong_start_1080 pong_scores_below_win [OF pong_start_1080 [THEN conjunct1] pong_start_1080 [THEN conjunct2]]
  by (simp add: Let_def)

theorem ball_paddle_hit_witness:
  "let b = \<lparr>b_x = 75, b_y = 490, b_vx = -25, b_vy = 0, b_speed = 25, b_trail = []\<rparr>;
       pad = \<lparr>pd_x = 50, pd_y = 400, pd_vy = 0\<rparr>
   in colliderect (ball_rect b) (paddle_rect pad) \<and> 0 < b_speed b \<and>
      0 < b_vx (ball_paddle True pad b) \<and> b_x (ball_paddle True pad b) = 80 \<and>
      b_speed (ball_paddle True pad b) = 26.5"
proof -
  let ?b = "\<lparr>b_x = 75 :: real, b_y = 490 :: real, b_vx = -25 :: real, b_vy = 0 :: real, b_speed = 25 :: real, b_trail = []\<rparr>"
  let ?pad = "\<lparr>pd_x = 50 :: int, pd_y = 400 :: real, pd_vy = 0 :: real\<rparr>"
  have h: "colliderect (ball_rect ?b) (paddle_rect ?pad)" "0 < b_speed ?b"
    by (simp_all add: colliderect_def ball_rect_def paddle_rect_def BALL_R_def PAD_W_def PAD_H_def)
  show ?thesis using h ball_paddle_hit [OF h, of True]
    by (simp add: Let_def PAD_W_def BALL_R_def)
qed

theorem move_ai_toward_ball_witness:
  "let scr = \<lparr>scr_w = 800, scr_h = 600\<rparr>; p = \<lparr>pd_x = 731, pd_y = 0, pd_vy = 0\<rparr>
   in pong_screen_ok scr \<and> paddle_ok scr p \<and> pd_y (move_ai scr 500 p) = 27.3 \<and>
      \<bar>pd_y (move_ai scr 500 p) - pd_y p\<bar> \<le> of_int PAD_SPEED * 0.78 \<and>
      \<bar>500 - of_int PAD_H / 2 - pd_y (move_ai scr 500 p)\<bar> \<le> \<bar>500 - of_int PAD_H / 2 - pd_y p\<bar>"
proof -
  let ?scr = "\<lparr>scr_w = 800, scr_h = 600\<rparr>"
  let ?p = "\<lparr>pd_x = 731 :: int, pd_y = 0 :: real, pd_vy = 0 :: real\<rparr>"
  have h: "pong_screen_ok ?scr" "paddle_ok ?scr ?p"
    by (simp_all add: pong_screen_ok_def paddle_ok_def PAD_H_def)
  have "pd_y (move_ai ?scr 500 ?p) = 27.3"
    by (simp add: move_ai_def py_copysign_def PAD_H_def PAD_SPEED_def)
  then show ?thesis using h move_ai_toward_ball [OF h, of 500] by (simp add: Let_def)
qed

theorem pong_pause_freezes_witness:
  "let s = (pong_new \<lparr>scr_w = 800, scr_h = 600\<rparr> \<lparr>rnd_src = \<lambda>_. 0, rnd_pos = 0\<rparr>)\<lparr>pg_paused := True\<rparr>;
       inp = \<lparr>fi_events = [KEYDOWN K_UP, MOUSEBUTTONDOWN], fi_held = \<lambda>k. k = K_UP, fi_mouse = True, fi_ticks = 0\<rparr>
   in pg_paused s \<and>
      (\<forall>e\<in>set (fi_events inp). e \<noteq> QUIT \<and> e \<noteq> KEYDOWN K_p \<and> e \<noteq> KEYDOWN K_ESCAPE) \<and>
      pong_frame \<lparr>scr_w = 800, scr_h = 600\<rparr> inp (Match s) = Some (Match s)"
proof -
  let ?s = "(pong_new \<lparr>scr_w = 800, scr_h = 600\<rparr> \<lparr>rnd_src = \<lambda>_. 0, rnd_pos = 0\<rparr>)\<lparr>pg_paused := True\<rparr>"
  let ?inp = "\<lparr>fi_events = [KEYDOWN K_UP, MOUSEBUTTONDOWN], fi_held = \<lambda>k. k = K_UP, fi_mouse = True, fi_ticks = 0::int\<rparr>"
  have h: "pg_paused ?s" "\<forall>e\<in>set (fi_events ?inp). e \<noteq> QUIT \<and> e \<noteq> KEYDOWN K_p \<and> e \<noteq> KEYDOWN K_ESCAPE"
    by simp_all
  show ?thesis using h pong_pause_freezes [OF h, of "\<lparr>scr_w = 800, scr_h = 600\<rparr>"] by (simp add: Let_def)
qed

theorem pong_serve_towards_scorer_witness:
  "let scr = \<lparr>scr_w = 800, scr_h = 600\<rparr>;
       s = (pong_new scr \<lparr>rnd_src = \<lambda>_. 0, rnd_pos = 0\<rparr>)\<lparr>pg_score_p := 2, pg_score_ai := 3\<rparr>
   in rng_ok (pg_rng s) \<and>
      (\<exists>s'. pong_point scr Point_player s = Match s' \<and> pg_score_p s' = 3 \<and> b_vx (pg_ball s') < 0 \<and>
            b_x (pg_ball s') = 400)"
proof -
  let ?scr = "\<lparr>scr_w = 800, scr_h = 600\<rparr>"
  let ?s = "(pong_new ?scr \<lparr>rnd_src = \<lambda>_. 0, rnd_pos = 0\<rparr>)\<lparr>pg_score_p := 2, pg_score_ai := 3\<rparr>"
  have g: "rng_ok (pg_rng ?s)"
    by (simp add: pong_new_def ball_new_def ball_reset_def case_prod_beta rng_ok_def uniform_def py_random_def)
  obtain s' where m: "pong_point ?scr Point_player ?s = Match s'"
    by (simp add: pong_point_def Let_def WIN_SCORE_def case_prod_beta)
  have "pg_score_p s' = pg_score_p ?s + 1 \<and> b_vx (pg_ball s') < 0 \<and> b_x (pg_ball s') = 400"
    using pong_serve_towards_scorer [OF g m] by simp
  then show ?thesis using g m by (simp add: Let_def)
qed

text \<open>Collisions are tested only at the ball's positions after each update, so a ball
  faster than the paddle and ball widths together (39 pixels per frame; the speed cap is 100)
  can pass through a paddle that is squarely in its path: here, at speed 60, the ball never
  overlaps the player's paddle and the AI scores.\<close>

theorem ball_tunnels_through_paddle:
  "let scr = \<lparr>scr_w = 1920, scr_h = 1080\<rparr>;
       pad = \<lparr>pd_x = MARGIN, pd_y = 410, pd_vy = 0\<rparr>;
       ai = \<lparr>pd_x = 1920 - MARGIN - PAD_W, pd_y = 410, pd_vy = 0\<rparr>;
       b = \<lparr>b_x = 100, b_y = 500, b_vx = -60, b_vy = 0, b_speed = 60, b_trail = []\<rparr>;
       b1 = snd (ball_update scr pad ai b)
   in ball_ok scr b \<and> pd_y pad \<le> b_y b \<and> b_y b \<le> pd_y pad + of_int PAD_H \<and>
      \<not> colliderect (ball_rect b) (paddle_rect pad) \<and>
      fst (ball_update scr pad ai b) = None \<and> b_x b1 = 40 \<and>
      \<not> colliderect (ball_rect b1) (paddle_rect pad) \<and>
      fst (ball_update scr pad ai b1) = Some Point_ai"
proof -
  let ?scr = "\<lparr>scr_w = 1920, scr_h = 1080\<rparr>"
  let ?pad = "\<lparr>pd_x = MARGIN, pd_y = 410 :: real, pd_vy = 0 :: real\<rparr>"
  let ?ai = "\<lparr>pd_x = 1920 - MARGIN - PAD_W, pd_y = 410 :: real, pd_vy = 0 :: real\<rparr>"
  let ?b = "\<lparr>b_x = 100 :: real, b_y = 500 :: real, b_vx = -60 :: real, b_vy = 0 :: real,
             b_speed = 60 :: real, b_trail = []\<rparr>"
  let ?b1 = "?b\<lparr>b_trail := [(100, 500)], b_x := 40\<rparr>"
  have u1: "ball_update ?scr ?pad ?ai ?b = (None, ?b1)"
    by (subst ball_update_miss)
      (simp_all add: colliderect_def ball_rect_def paddle_rect_def trail_push_def pong_consts)
  have u2: "fst (ball_update ?scr ?pad ?ai ?b1) = Some Point_ai"
    by (subst ball_update_miss)
      (simp_all add: colliderect_def ball_rect_def paddle_rect_def pong_consts)
  have "ball_ok ?scr ?b" "\<not> colliderect (ball_rect ?b) (paddle_rect ?pad)"
    "\<not> colliderect (ball_rect ?b1) (paddle_rect ?pad)"
    by (simp_all add: ball_ok_def colliderect_def ball_rect_def paddle_rect_def pong_consts)
  then show ?thesis using u1 u2 by (simp add: Let_def PAD_H_def)
qed

end
