(* ===== verification/Bird_Objects.thy ===== *)
theory Bird_Objects
  imports Arcade_Prelude Pygame_Model
begin

text \<open>
  The objects of the RetroBird game, \<open>src/arcade-flipper/src/games/RetroBird/objects.py\<close>:
  the bird (\<open>Grumpy\<close>: gravity, the jump on a held mouse button, the flap animation of
  the start screen), the scrolling ground (\<open>Base\<close>) and the pipes (\<open>Pipe\<close>). The
  window surface and the drawing calls are not modelled; \<open>Score\<close> has no state and an
  empty \<open>update\<close>. A colour is an RGB triple of ints. The pipe group is related to an
  abstract course of gaps, the specification the spawner and the scroll implement.
\<close>

type_synonym rgb = "int \<times> int \<times> int"

section \<open>Screen and colours\<close>

definition WIDTH :: int where "WIDTH = 288"
definition HEIGHT :: int where "HEIGHT = 512"

text \<open>\<open>display_height = 0.80 * HEIGHT\<close> is the float 409.6.\<close>

definition display_height :: real where "display_height = 0.80 * of_int HEIGHT"

definition NEON_GREEN :: rgb where "NEON_GREEN = (0, 255, 0)"
definition NEON_BLUE :: rgb where "NEON_BLUE = (0, 255, 255)"
definition NEON_PINK :: rgb where "NEON_PINK = (255, 0, 255)"
definition NEON_YELLOW :: rgb where "NEON_YELLOW = (255, 255, 0)"

lemmas bird_consts [arcade_simps] = WIDTH_def HEIGHT_def display_height_def

section \<open>The bird\<close>

record grumpy =
  gr_rect :: rect
  gr_color :: rgb
  gr_counter :: int
  gr_vel :: real
  gr_jumped :: bool
  gr_alive :: bool
  gr_theta :: real
  gr_flap_pos :: int
  gr_flap_inc :: int

definition bird_colors :: "rgb list" where
  "bird_colors = [NEON_GREEN, NEON_PINK, NEON_YELLOW, NEON_BLUE]"

text \<open>\<open>Grumpy.reset\<close>; the colour is kept.\<close>

definition grumpy_reset :: "grumpy \<Rightarrow> grumpy" where
  "grumpy_reset b =
     b\<lparr>gr_rect := \<lparr>rx = 60, ry = py_trunc display_height div 2, rw = 40, rh = 40\<rparr>,
       gr_counter := 0, gr_vel := 0, gr_jumped := False, gr_alive := True, gr_theta := 0,
       gr_flap_pos := 0, gr_flap_inc := 1\<rparr>"

text \<open>\<open>Grumpy(win)\<close>: one draw of \<open>random.choice\<close> for the colour, then \<open>reset()\<close>.\<close>

definition grumpy_new :: "rng \<Rightarrow> grumpy \<times> rng" where
  "grumpy_new g =
     (let (c, g1) = py_choice bird_colors g
      in (grumpy_reset \<lparr>gr_rect = \<lparr>rx = 0, ry = 0, rw = 40, rh = 40\<rparr>, gr_color = c, gr_counter = 0,
                        gr_vel = 0, gr_jumped = False, gr_alive = True, gr_theta = 0,
                        gr_flap_pos = 0, gr_flap_inc = 1\<rparr>, g1))"

text \<open>\<open>Grumpy.update\<close>: gravity capped at 8, a move only while the bird's bottom is above
  the ground line, and, while alive, a jump on a fresh press of the left mouse button
  (\<open>pressed\<close> is \<open>pygame.mouse.get_pressed()[0]\<close>) and the flap counter.\<close>

definition grumpy_update :: "bool \<Rightarrow> grumpy \<Rightarrow> grumpy" where
  "grumpy_update pressed b =
     (let v1 = gr_vel b + 0.3;
          v2 = (if v1 \<ge> 8 then 8 else v1);
          r = gr_rect b;
          r1 = (if of_int (rect_bottom r) \<le> display_height then r\<lparr>ry := ry r + py_trunc v2\<rparr> else r);
          b1 = b\<lparr>gr_vel := v2, gr_rect := r1\<rparr>;
          b2 = (if gr_alive b1 then
                  (let b3 = (if pressed \<and> \<not> gr_jumped b1 then b1\<lparr>gr_jumped := True, gr_vel := -6\<rparr> else b1);
                       b4 = (if \<not> pressed then b3\<lparr>gr_jumped := False\<rparr> else b3);
                       c = gr_counter b4 + 1
                   in b4\<lparr>gr_counter := (if c > 5 then 0 else c)\<rparr>)
                else b1)
      in b2\<lparr>gr_rect := (gr_rect b2)\<lparr>rw := 40, rh := 40\<rparr>\<rparr>)"

text \<open>\<open>Grumpy.draw_flap\<close>: the hovering of the start screen.\<close>

definition grumpy_draw_flap :: "grumpy \<Rightarrow> grumpy" where
  "grumpy_draw_flap b =
     (let c = gr_counter b + 1;
          inc = (if gr_flap_pos b \<le> -10 \<or> gr_flap_pos b > 10 then - gr_flap_inc b else gr_flap_inc b)
      in b\<lparr>gr_counter := (if c > 5 then 0 else c), gr_flap_inc := inc,
           gr_flap_pos := gr_flap_pos b + inc,
           gr_rect := (gr_rect b)\<lparr>ry := ry (gr_rect b) + inc, rx := WIDTH div 2 - 20\<rparr>\<rparr>)"

section \<open>The ground\<close>

record base =
  bs_color :: rgb
  bs_x1 :: int
  bs_x2 :: int
  bs_y :: int

definition base_new :: "rgb \<Rightarrow> base" where
  "base_new c = \<lparr>bs_color = c, bs_x1 = 0, bs_x2 = WIDTH, bs_y = py_trunc display_height\<rparr>"

definition base_update :: "int \<Rightarrow> base \<Rightarrow> base" where
  "base_update speed bs =
     (let x1 = bs_x1 bs - speed; x2 = bs_x2 bs - speed
      in bs\<lparr>bs_x1 := (if x1 \<le> - WIDTH then WIDTH - 5 else x1),
            bs_x2 := (if x2 \<le> - WIDTH then WIDTH - 5 else x2)\<rparr>)"

section \<open>Pipes\<close>

record pipe =
  pp_rect :: rect
  pp_is_top :: bool
  pp_color :: rgb

definition PIPE_W :: int where "PIPE_W = 52"
definition PIPE_H :: int where "PIPE_H = 320"

text \<open>\<open>Pipe(win, y, position, color)\<close>: a top pipe (\<open>position = 1\<close>) ends 50 pixels above
  \<open>y\<close>, a bottom pipe (\<open>position = -1\<close>) starts 50 pixels below it; any other position leaves
  \<open>self.rect\<close> unset, so the object is unusable (\<open>None\<close>).\<close>

definition pipe_new :: "int \<Rightarrow> int \<Rightarrow> rgb \<Rightarrow> pipe option" where
  "pipe_new y position c =
     (let pipe_gap = 100 div 2; x = WIDTH
      in if position = 1
         then Some \<lparr>pp_rect = \<lparr>rx = x, ry = y - pipe_gap - PIPE_H, rw = PIPE_W, rh = PIPE_H\<rparr>,
                    pp_is_top = True, pp_color = c\<rparr>
         else if position = -1
         then Some \<lparr>pp_rect = \<lparr>rx = x, ry = y + pipe_gap, rw = PIPE_W, rh = PIPE_H\<rparr>,
                    pp_is_top = False, pp_color = c\<rparr>
         else None)"

text \<open>\<open>Pipe.update\<close>: the scroll; \<open>kill()\<close> when the pipe is wholly left of the screen
  is the \<open>False\<close> of the returned flag (kept in the group).\<close>

definition pipe_update :: "int \<Rightarrow> pipe \<Rightarrow> pipe \<times> bool" where
  "pipe_update speed p =
     (let p1 = p\<lparr>pp_rect := (pp_rect p)\<lparr>rx := rx (pp_rect p) - speed\<rparr>\<rparr>
      in (p1, \<not> rect_right (pp_rect p1) < 0))"

text \<open>\<open>pipe_group.update(speed)\<close>: every pipe of the group in insertion order; a killed
  pipe leaves the group.\<close>

definition pipes_update :: "int \<Rightarrow> pipe list \<Rightarrow> pipe list" where
  "pipes_update speed ps = map fst (filter snd (map (pipe_update speed) ps))"

section \<open>Score\<close>

text \<open>\<open>Score\<close> keeps a position and the window; its \<open>update\<close> does nothing, since
  \<open>main.py\<close> draws the score itself (and never creates a \<open>Score\<close>). The window is
  the display and holds no state of the game.\<close>

record score_display =
  sc_x :: int
  sc_y :: int

definition score_new :: "int \<Rightarrow> int \<Rightarrow> score_display" where
  "score_new x y = \<lparr>sc_x = x, sc_y = y\<rparr>"

definition score_update :: "int \<Rightarrow> score_display \<Rightarrow> score_display" where
  "score_update score sd = sd"

section \<open>Invariants\<close>

text \<open>The bird's physical bounds, its hover on the start screen, the ground tiles, and
  the pipes as aligned pairs with a 100-pixel gap centred between 104 and 300.\<close>

definition grumpy_ok :: "grumpy \<Rightarrow> bool" where
  "grumpy_ok b \<longleftrightarrow> -6 \<le> gr_vel b \<and> gr_vel b \<le> 8 \<and> rw (gr_rect b) = 40 \<and> rh (gr_rect b) = 40 \<and>
     rect_bottom (gr_rect b) \<le> 417 \<and> 0 \<le> gr_counter b \<and> gr_counter b \<le> 5"

definition hover_ok :: "grumpy \<Rightarrow> bool" where
  "hover_ok b \<longleftrightarrow> ry (gr_rect b) = 204 + gr_flap_pos b \<and> gr_flap_inc b \<in> {1, -1} \<and>
     -10 \<le> gr_flap_pos b \<and> gr_flap_pos b \<le> 11 \<and>
     (gr_flap_pos b = 11 \<longrightarrow> gr_flap_inc b = 1) \<and> (gr_flap_pos b = -10 \<longrightarrow> gr_flap_inc b = -1)"

definition base_ok :: "base \<Rightarrow> bool" where
  "base_ok bs \<longleftrightarrow> - WIDTH < bs_x1 bs \<and> bs_x1 bs \<le> WIDTH \<and> - WIDTH < bs_x2 bs \<and> bs_x2 bs \<le> WIDTH \<and>
     bs_y bs = py_trunc display_height"

definition pair_ok :: "pipe \<Rightarrow> pipe \<Rightarrow> bool" where
  "pair_ok t b \<longleftrightarrow> pp_is_top t \<and> \<not> pp_is_top b \<and> rx (pp_rect t) = rx (pp_rect b) \<and>
     rw (pp_rect t) = PIPE_W \<and> rw (pp_rect b) = PIPE_W \<and> rh (pp_rect t) = PIPE_H \<and> rh (pp_rect b) = PIPE_H \<and>
     ry (pp_rect b) - 100 = rect_bottom (pp_rect t) \<and>
     154 \<le> ry (pp_rect b) \<and> ry (pp_rect b) \<le> 350"

fun pipe_pairs_ok :: "pipe list \<Rightarrow> bool" where
  "pipe_pairs_ok [] = True"
| "pipe_pairs_ok [p] = False"
| "pipe_pairs_ok (t # b # ps) = (pair_ok t b \<and> pipe_pairs_ok ps)"

section \<open>Abstract pipe course\<close>

text \<open>What the pipes mean for the player: the list of gaps, one per aligned pair, as the
  pair's left edge and the centre of its gap. Scrolling moves every gap left by the speed
  and forgets the gaps whose pipes have left the screen; a spawn adds a gap at the right edge.\<close>

fun pipe_gaps :: "pipe list \<Rightarrow> (int \<times> int) list" where
  "pipe_gaps (t # b # ps) = (rx (pp_rect t), ry (pp_rect b) - 50) # pipe_gaps ps"
| "pipe_gaps _ = []"

definition gaps_scroll :: "int \<Rightarrow> (int \<times> int) list \<Rightarrow> (int \<times> int) list" where
  "gaps_scroll speed gs = filter (\<lambda>(x, c). 0 \<le> x + PIPE_W) (map (\<lambda>(x, c). (x - speed, c)) gs)"

section \<open>Lemmas\<close>

lemma py_trunc_vel_bounds: "-6 \<le> v \<Longrightarrow> v \<le> 8 \<Longrightarrow> -6 \<le> py_trunc v \<and> py_trunc v \<le> 8"
  by (auto simp: py_trunc_def floor_le_iff le_ceiling_iff intro: floor_mono ceiling_mono)

lemma display_height_le_iff [simp]: "(of_int k \<le> display_height) = (k \<le> 409)"
  by (simp add: display_height_def HEIGHT_def) linarith

lemma display_height_ge_iff [simp]: "(display_height \<le> of_int k) = (410 \<le> k)"
  by (simp add: display_height_def HEIGHT_def) linarith

lemma display_height_le_add_iff [simp]:
  "(of_int k + numeral n \<le> display_height) = (k + numeral n \<le> 409)"
  using display_height_le_iff [of "k + numeral n"] by simp

lemma display_height_ge_add_iff [simp]:
  "(display_height \<le> of_int k + numeral n) = (410 \<le> k + numeral n)"
  using display_height_ge_iff [of "k + numeral n"] by simp

lemma py_trunc_display_height [simp]: "py_trunc display_height = 409"
  by (simp add: py_trunc_def display_height_def HEIGHT_def)

lemma grumpy_reset_ok: "grumpy_ok (grumpy_reset b) \<and> hover_ok (grumpy_reset b)"
  by (simp add: grumpy_reset_def grumpy_ok_def hover_ok_def rect_edges)

lemma grumpy_update_ok:
  assumes "grumpy_ok b"
  shows "grumpy_ok (grumpy_update pressed b)"
proof -
  define v2 where "v2 = (if gr_vel b + 0.3 \<ge> 8 then 8 else gr_vel b + 0.3)"
  have v: "-6 \<le> v2" "v2 \<le> 8" using assms by (auto simp: v2_def grumpy_ok_def)
  have t: "py_trunc v2 \<le> 8" using py_trunc_vel_bounds [OF v] by simp
  show ?thesis using assms v t
    by (auto simp: grumpy_update_def Let_def grumpy_ok_def rect_edges v2_def [symmetric])
qed

lemma grumpy_draw_flap_ok:
  assumes "grumpy_ok b" and "hover_ok b"
  shows "grumpy_ok (grumpy_draw_flap b) \<and> hover_ok (grumpy_draw_flap b)"
  using assms by (auto simp: grumpy_draw_flap_def Let_def grumpy_ok_def hover_ok_def rect_edges)

lemma grumpy_new_ok: "grumpy_ok (fst (grumpy_new g)) \<and> hover_ok (fst (grumpy_new g))"
  using grumpy_reset_ok by (simp add: grumpy_new_def case_prod_beta)

lemma rng_ok_grumpy_new [simp]: "rng_ok (snd (grumpy_new g)) = rng_ok g"
  by (simp add: grumpy_new_def case_prod_beta)

lemma base_new_ok: "base_ok (base_new c)"
  by (simp add: base_new_def base_ok_def WIDTH_def)

lemma base_update_ok: "base_ok bs \<Longrightarrow> 0 \<le> speed \<Longrightarrow> base_ok (base_update speed bs)"
  by (auto simp: base_update_def base_ok_def Let_def WIDTH_def)

lemma pipe_pairs_ok_append:
  "pipe_pairs_ok ps \<Longrightarrow> pair_ok t b \<Longrightarrow> pipe_pairs_ok (ps @ [t, b])"
  by (induction ps rule: pipe_pairs_ok.induct) auto

lemma pipe_new_pair:
  assumes "104 \<le> h" and "h \<le> 300"
  shows "pipe_new h 1 c \<noteq> None \<and> pipe_new h (-1) c \<noteq> None \<and>
         pair_ok (the (pipe_new h 1 c)) (the (pipe_new h (-1) c))"
  using assms by (simp add: pipe_new_def pair_ok_def PIPE_W_def PIPE_H_def rect_edges)

lemma pipes_update_pair:
  "pair_ok t b \<Longrightarrow> pipes_update speed [t, b] = [] \<or>
     (\<exists>t' b'. pipes_update speed [t, b] = [t', b'] \<and> pair_ok t' b')"
  by (auto simp: pipes_update_def pipe_update_def pair_ok_def rect_edges Let_def)

lemma pipes_update_append: "pipes_update speed (xs @ ys) = pipes_update speed xs @ pipes_update speed ys"
  by (simp add: pipes_update_def)

lemma pipes_update_ok: "pipe_pairs_ok ps \<Longrightarrow> pipe_pairs_ok (pipes_update speed ps)"
proof (induction ps rule: pipe_pairs_ok.induct)
  case (3 t b ps)
  then have "pair_ok t b" "pipe_pairs_ok (pipes_update speed ps)" by simp_all
  moreover have "pipes_update speed (t # b # ps) = pipes_update speed [t, b] @ pipes_update speed ps"
    using pipes_update_append [of speed "[t, b]" ps] by simp
  ultimately show ?case using pipes_update_pair [of t b speed] pipe_pairs_ok_append
    by (auto simp del: pipe_pairs_ok.simps(3)) (metis append_Cons append_Nil pipe_pairs_ok.simps(3))
qed (auto simp: pipes_update_def)

lemma gaps_scroll_append:
  "gaps_scroll speed (gs @ hs) = gaps_scroll speed gs @ gaps_scroll speed hs"
  by (simp add: gaps_scroll_def)

lemma pipes_update_pair_gaps:
  "pair_ok t b \<Longrightarrow> pipe_gaps (pipes_update speed [t, b]) = gaps_scroll speed (pipe_gaps [t, b])"
  by (auto simp: pipes_update_def pipe_update_def pair_ok_def rect_edges gaps_scroll_def Let_def)

lemma pipe_gaps_append: "pipe_pairs_ok ps \<Longrightarrow> pipe_gaps (ps @ qs) = pipe_gaps ps @ pipe_gaps qs"
  by (induction ps rule: pipe_pairs_ok.induct) auto

lemma pipes_update_pairs_ok_pair:
  "pair_ok t b \<Longrightarrow> pipe_pairs_ok (pipes_update speed [t, b])"
  using pipes_update_pair [of t b speed] by auto

lemma pipe_gaps_spawn:
  "pipe_pairs_ok ps \<Longrightarrow> pipe_gaps (ps @ [the (pipe_new h 1 c), the (pipe_new h (-1) c')]) = pipe_gaps ps @ [(WIDTH, h)]"
  by (simp add: pipe_gaps_append pipe_new_def)

lemma pipes_update_gaps:
  assumes "pipe_pairs_ok ps"
  shows "pipe_gaps (pipes_update speed ps) = gaps_scroll speed (pipe_gaps ps)"
  using assms
proof (induction ps rule: pipe_pairs_ok.induct)
  case (3 t b ps)
  then have tb: "pair_ok t b" and ok: "pipe_pairs_ok ps" by simp_all
  have "pipes_update speed (t # b # ps) = pipes_update speed [t, b] @ pipes_update speed ps"
    using pipes_update_append [of speed "[t, b]" ps] by simp
  then have "pipe_gaps (pipes_update speed (t # b # ps)) =
      pipe_gaps (pipes_update speed [t, b]) @ pipe_gaps (pipes_update speed ps)"
    using pipe_gaps_append pipes_update_pairs_ok_pair [OF tb] by simp
  also have "\<dots> = gaps_scroll speed (pipe_gaps [t, b]) @ gaps_scroll speed (pipe_gaps ps)"
    using pipes_update_pair_gaps [OF tb] "3.IH" ok by simp
  also have "\<dots> = gaps_scroll speed (pipe_gaps (t # b # ps))"
    using gaps_scroll_append [of speed "pipe_gaps [t, b]" "pipe_gaps ps"] by simp
  finally show ?case .
qed (auto simp: pipes_update_def gaps_scroll_def)

text \<open>C33: while the ground scrolls at a positive speed, every pipe leaves the group within
  right / speed + 1 updates.\<close>

theorem pipes_update_gone:
  assumes "0 < speed"
  shows "\<forall>p\<in>set ps. rect_right (pp_rect p) < speed * (int n + 1) \<Longrightarrow> (pipes_update speed ^^ Suc n) ps = []"
proof (induction n arbitrary: ps)
  case 0
  then show ?case
    by (auto simp: pipes_update_def pipe_update_def rect_edges filter_empty_conv Let_def)
next
  case (Suc n)
  have "\<forall>p\<in>set (pipes_update speed ps). rect_right (pp_rect p) < speed * (int n + 1)"
    using Suc.prems by (auto simp: pipes_update_def pipe_update_def rect_edges Let_def algebra_simps)
  then have "(pipes_update speed ^^ Suc n) (pipes_update speed ps) = []" by (rule Suc.IH)
  then show ?case by (simp only: funpow_Suc_apply)
qed

theorem pipes_update_gone_witness:
  "let p = \<lparr>pp_rect = \<lparr>rx = 0, ry = 0, rw = PIPE_W, rh = PIPE_H\<rparr>, pp_is_top = True, pp_color = NEON_GREEN\<rparr>
   in 0 < (2::int) \<and> rect_right (pp_rect p) < 2 * (int 26 + 1) \<and> (pipes_update 2 ^^ Suc 26) [p] = []"
proof -
  let ?p = "\<lparr>pp_rect = \<lparr>rx = 0, ry = 0, rw = PIPE_W, rh = PIPE_H\<rparr>, pp_is_top = True, pp_color = NEON_GREEN\<rparr>"
  have h: "0 < (2::int)" by simp
  have r: "rect_right (pp_rect ?p) < 2 * (int 26 + 1)" by (simp add: rect_edges PIPE_W_def)
  have "\<forall>q\<in>set [?p]. rect_right (pp_rect q) < 2 * (int 26 + 1)" using r by simp
  then show ?thesis using pipes_update_gone [OF h, of "[?p]" 26] r by (simp add: Let_def)
qed

text \<open>C14: the pipe group refines the abstract course of gaps: updating the group with a
  scroll speed is scrolling its gaps, and spawning a pair at height \<open>h\<close> adds the gap
  \<open>(WIDTH, h)\<close>, for every group of aligned pairs.\<close>

theorem pipes_refine:
  assumes "pipe_pairs_ok ps"
  shows "pipe_gaps (pipes_update speed ps) = gaps_scroll speed (pipe_gaps ps) \<and>
         pipe_gaps (ps @ [the (pipe_new h 1 c), the (pipe_new h (-1) c')]) = pipe_gaps ps @ [(WIDTH, h)]"
  using pipes_update_gaps [OF assms] pipe_gaps_spawn [OF assms] by blast

theorem pipes_refine_witness:
  "pipe_pairs_ok [the (pipe_new 200 1 NEON_GREEN), the (pipe_new 200 (-1) NEON_GREEN)] \<and>
   pipe_gaps (pipes_update 3 [the (pipe_new 200 1 NEON_GREEN), the (pipe_new 200 (-1) NEON_GREEN)]) = [(WIDTH - 3, 200)] \<and>
   pipe_gaps [the (pipe_new 200 1 NEON_GREEN), the (pipe_new 200 (-1) NEON_GREEN),
              the (pipe_new 150 1 NEON_GREEN), the (pipe_new 150 (-1) NEON_GREEN)] = [(WIDTH, 200), (WIDTH, 150)]"
proof -
  have ok: "pipe_pairs_ok [the (pipe_new 200 1 NEON_GREEN), the (pipe_new 200 (-1) NEON_GREEN)]"
    by (simp add: pipe_new_def pair_ok_def rect_edges PIPE_W_def PIPE_H_def)
  show ?thesis
    using pipes_refine [OF ok, of 3 150 NEON_GREEN NEON_GREEN] ok
    by (simp add: gaps_scroll_def pipe_new_def PIPE_W_def WIDTH_def)
qed

end
