(* ===== verification/Bird_Game.thy ===== *)
theory Bird_Game
  imports Bird_Objects
begin

text \<open>
  The main loop of RetroBird, \<open>src/apps/arcade/games/RetroBird/main.py\<close>, on the
  objects of \<open>Bird_Objects\<close>. The module-level variables of the loop are the record
  \<open>bird_game\<close>; one iteration of \<open>while running\<close> is \<open>bird_frame\<close>, built from
  the blocks of the loop body in source order: the start screen or the play step (pipe
  spawner, scrolling, the bird, crash, landing, the pass counter), the particles, and the
  event loop. Both calls of \<open>pygame.time.get_ticks()\<close> in one iteration read the frame's
  tick value \<open>fi_ticks\<close>; the held mouse button is \<open>fi_mouse\<close>.
\<close>

section \<open>Constants\<close>

definition pipe_frequency :: int where "pipe_frequency = 1600"

text \<open>\<open>main.py\<close> defines its own palette; its NEON colours have the values of those
  of \<open>objects.py\<close>.\<close>

definition BIRD_NEON_GREEN :: rgb where "BIRD_NEON_GREEN = (0, 255, 0)"
definition BIRD_NEON_BLUE :: rgb where "BIRD_NEON_BLUE = (0, 255, 255)"
definition BIRD_NEON_PINK :: rgb where "BIRD_NEON_PINK = (255, 0, 255)"
definition BIRD_NEON_YELLOW :: rgb where "BIRD_NEON_YELLOW = (255, 255, 0)"
definition BIRD_RED :: rgb where "BIRD_RED = (255, 0, 0)"
definition BIRD_WHITE :: rgb where "BIRD_WHITE = (255, 255, 255)"

definition pipe_colors :: "rgb list" where
  "pipe_colors = [BIRD_NEON_GREEN, BIRD_NEON_PINK, BIRD_NEON_YELLOW, BIRD_NEON_BLUE]"

text \<open>\<open>range(-100, 100, 4)\<close>, the offsets of the pipe gap.\<close>

definition pipe_offsets :: "int list" where
  "pipe_offsets = map (\<lambda>i. -100 + 4 * int i) [0..<50]"

section \<open>Particles\<close>

text \<open>A particle is a dict with keys \<open>x, y, vx, vy, life, color\<close>.\<close>

record bird_particle =
  bq_x :: real
  bq_y :: real
  bq_vx :: real
  bq_vy :: real
  bq_life :: int
  bq_color :: rgb

text \<open>\<open>for _ in range(10)\<close> of \<open>create_particles\<close>: the dict's values are evaluated in
  key order, so \<open>vx\<close> is drawn before \<open>vy\<close>.\<close>

fun create_particles_loop ::
  "nat \<Rightarrow> real \<Rightarrow> real \<Rightarrow> rgb \<Rightarrow> bird_particle list \<Rightarrow> rng \<Rightarrow> bird_particle list \<times> rng" where
  "create_particles_loop 0 x y c ps g = (ps, g)"
| "create_particles_loop (Suc n) x y c ps g =
     (let (vx, g1) = uniform (-3) 3 g;
          (vy, g2) = uniform (-5) 0 g1
      in create_particles_loop n x y c
           (ps @ [\<lparr>bq_x = x, bq_y = y, bq_vx = vx, bq_vy = vy, bq_life = 30, bq_color = c\<rparr>]) g2)"

definition create_particles ::
  "real \<Rightarrow> real \<Rightarrow> rgb \<Rightarrow> bird_particle list \<Rightarrow> rng \<Rightarrow> bird_particle list \<times> rng" where
  "create_particles x y c ps g = create_particles_loop 10 x y c ps g"

definition bird_particle_step :: "bird_particle \<Rightarrow> bird_particle" where
  "bird_particle_step p =
     p\<lparr>bq_x := bq_x p + bq_vx p, bq_y := bq_y p + bq_vy p, bq_vy := bq_vy p + 0.3,
       bq_life := bq_life p - 1\<rparr>"

text \<open>\<open>update_particles\<close>: every particle moves and ages; one whose life reaches 0 is
  removed, the others are drawn.\<close>

definition update_particles_bird :: "bird_particle list \<Rightarrow> bird_particle list" where
  "update_particles_bird ps = filter (\<lambda>p. \<not> bq_life p \<le> 0) (map bird_particle_step ps)"

section \<open>The state of the loop\<close>

record bird_game =
  bg_pipes :: "pipe list"
  bg_base :: base
  bg_bird :: grumpy
  bg_speed :: int
  bg_started :: bool
  bg_over :: bool
  bg_score :: int
  bg_start_screen :: bool
  bg_pipe_pass :: bool
  bg_last_pipe :: int
  bg_particles :: "bird_particle list"
  bg_pipe_color :: rgb
  bg_rng :: rng

text \<open>\<open>draw_retro_background(bg_surface)\<close> is drawn once at start-up; it changes no
  state of the game but takes four random draws per star.\<close>

fun retro_background_draws :: "nat \<Rightarrow> rng \<Rightarrow> rng" where
  "retro_background_draws 0 g = g"
| "retro_background_draws (Suc n) g =
     (let (x, g1) = randint 0 WIDTH g;
          (y, g2) = randint 0 HEIGHT g1;
          (sz, g3) = randint 1 3 g2;
          (c, g4) = py_choice [BIRD_WHITE, BIRD_NEON_BLUE, BIRD_NEON_PINK] g3
      in retro_background_draws n g4)"

text \<open>The module-level set-up: the background, the pipe colour, the base, the bird and the
  loop variables.\<close>

text \<open>\<open>current_pipe_color = random.choice(pipe_colors)\<close> at module level.\<close>

definition initial_pipe_color :: "rng \<Rightarrow> rgb \<times> rng" where
  "initial_pipe_color g = py_choice pipe_colors g"

declare initial_pipe_color_def [simp]

definition bird_game_init :: "rng \<Rightarrow> bird_game" where
  "bird_game_init g =
     (let g1 = retro_background_draws 50 g;
          (c, g2) = initial_pipe_color g1;
          (b, g3) = grumpy_new g2
      in \<lparr>bg_pipes = [], bg_base = base_new c, bg_bird = b, bg_speed = 0, bg_started = False,
          bg_over = False, bg_score = 0, bg_start_screen = True, bg_pipe_pass = False,
          bg_last_pipe = 0, bg_particles = [], bg_pipe_color = c, bg_rng = g3\<rparr>)"

section \<open>One iteration of the loop\<close>

text \<open>The start screen: the bird hovers and the ground stands still.\<close>

definition start_screen_step :: "bird_game \<Rightarrow> bird_game" where
  "start_screen_step s =
     s\<lparr>bg_speed := 0, bg_bird := grumpy_draw_flap (bg_bird s), bg_base := base_update 0 (bg_base s)\<rparr>"

text \<open>The pipe spawner: a pair whose gap is centred \<open>display_height // 2 + pipe_pos\<close>
  once \<open>pipe_frequency\<close> milliseconds have passed since the last one.\<close>

definition spawn_pipes :: "int \<Rightarrow> bird_game \<Rightarrow> bird_game" where
  "spawn_pipes ticks s =
     (if bg_started s \<and> \<not> bg_over s \<and> ticks - bg_last_pipe s \<ge> pipe_frequency then
        (let y = \<lfloor>display_height / 2\<rfloor>;
             (pipe_pos, g1) = py_choice pipe_offsets (bg_rng s);
             height = y + pipe_pos;
             top = the (pipe_new height 1 (bg_pipe_color s));
             bottom = the (pipe_new height (-1) (bg_pipe_color s))
         in s\<lparr>bg_pipes := bg_pipes s @ [top, bottom], bg_last_pipe := ticks, bg_rng := g1\<rparr>)
      else s)"

text \<open>\<open>pipe_group.update(speed); base.update(speed); grumpy.update()\<close>.\<close>

definition scroll_step :: "bool \<Rightarrow> bird_game \<Rightarrow> bird_game" where
  "scroll_step pressed s =
     s\<lparr>bg_pipes := pipes_update (bg_speed s) (bg_pipes s), bg_base := base_update (bg_speed s) (bg_base s),
       bg_bird := grumpy_update pressed (bg_bird s)\<rparr>"

text \<open>A bird touching a pipe or the top of the screen dies (with a burst of red particles
  the first time) and stops the spawner.\<close>

definition crash_step :: "bird_game \<Rightarrow> bird_game" where
  "crash_step s =
     (let b = bg_bird s
      in if list_ex (\<lambda>p. colliderect (gr_rect b) (pp_rect p)) (bg_pipes s) \<or> rect_top (gr_rect b) \<le> 0
         then (let (ps, g) = (if gr_alive b
                              then create_particles (of_int (rect_centerx (gr_rect b)))
                                     (of_int (rect_centery (gr_rect b))) BIRD_RED (bg_particles s) (bg_rng s)
                              else (bg_particles s, bg_rng s))
               in s\<lparr>bg_started := False, bg_particles := ps, bg_rng := g,
                    bg_bird := b\<lparr>gr_alive := False, gr_theta := gr_vel b * -2\<rparr>\<rparr>)
         else s)"

text \<open>A bird whose bottom reaches the ground line ends the game and stops the scroll.\<close>

definition land_step :: "bird_game \<Rightarrow> bird_game" where
  "land_step s =
     (if of_int (rect_bottom (gr_rect (bg_bird s))) \<ge> display_height
      then s\<lparr>bg_speed := 0, bg_over := True\<rparr> else s)"

text \<open>The pass counter on the oldest pipe of the group: entering it while alive arms
  \<open>pipe_pass\<close>; leaving it to the right scores a point.\<close>

definition pass_step :: "bird_game \<Rightarrow> bird_game" where
  "pass_step s =
     (case bg_pipes s of
        [] \<Rightarrow> s
      | p # _ \<Rightarrow>
          (let b = gr_rect (bg_bird s);
               s1 = (if rect_left b > rect_left (pp_rect p) \<and> rect_right b < rect_right (pp_rect p) \<and>
                        \<not> bg_pipe_pass s \<and> gr_alive (bg_bird s)
                     then s\<lparr>bg_pipe_pass := True\<rparr> else s)
           in if bg_pipe_pass s1 \<and> rect_left b > rect_right (pp_rect p)
              then (let (ps, g) = create_particles (of_int (WIDTH div 2)) 60 BIRD_NEON_YELLOW
                                    (bg_particles s1) (bg_rng s1)
                    in s1\<lparr>bg_pipe_pass := False, bg_score := bg_score s1 + 1,
                          bg_particles := ps, bg_rng := g\<rparr>)
              else s1))"

definition play_step :: "bool \<Rightarrow> int \<Rightarrow> bird_game \<Rightarrow> bird_game" where
  "play_step pressed ticks s = pass_step (land_step (crash_step (scroll_step pressed (spawn_pipes ticks s))))"

text \<open>The event loop: quitting only clears \<open>running\<close> (the remaining events of the frame
  are still handled); a click on the start screen starts a game, a click after the game is
  over returns to the start screen with a new bird.\<close>

definition bird_click :: "int \<Rightarrow> bird_game \<Rightarrow> bird_game" where
  "bird_click ticks s =
     (let s1 = (if bg_start_screen s then
                  (let (c, g) = py_choice pipe_colors (bg_rng s)
                   in s\<lparr>bg_started := True, bg_speed := 2, bg_start_screen := False, bg_over := False,
                        bg_last_pipe := ticks - pipe_frequency, bg_pipes := [], bg_score := 0,
                        bg_pipe_color := c, bg_base := base_new c, bg_rng := g\<rparr>)
                else s)
      in if bg_over s1 then
           (let (b, g) = grumpy_new (bg_rng s1)
            in s1\<lparr>bg_start_screen := True, bg_bird := b, bg_particles := [], bg_rng := g\<rparr>)
         else s1)"

fun bird_events :: "int \<Rightarrow> event list \<Rightarrow> bool \<times> bird_game \<Rightarrow> bool \<times> bird_game" where
  "bird_events ticks [] rs = rs"
| "bird_events ticks (QUIT # es) (running, s) = bird_events ticks es (False, s)"
| "bird_events ticks (KEYDOWN k # es) (running, s) =
     bird_events ticks es (if k = K_ESCAPE \<or> k = K_q then False else running, s)"
| "bird_events ticks (MOUSEBUTTONDOWN # es) (running, s) = bird_events ticks es (running, bird_click ticks s)"
| "bird_events ticks (OTHER # es) rs = bird_events ticks es rs"

text \<open>One iteration of \<open>while running\<close>; \<open>None\<close> when the loop ends after it.\<close>

definition bird_frame :: "frame_input \<Rightarrow> bird_game \<Rightarrow> bird_game option" where
  "bird_frame inp s =
     (let s1 = (if bg_start_screen s then start_screen_step s else play_step (fi_mouse inp) (fi_ticks inp) s);
          s2 = s1\<lparr>bg_particles := update_particles_bird (bg_particles s1)\<rparr>;
          (running, s3) = bird_events (fi_ticks inp) (fi_events inp) (True, s2)
      in if running then Some s3 else None)"

inductive bird_reachable :: "bird_game \<Rightarrow> bool" where
  start: "rng_ok g \<Longrightarrow> bird_reachable (bird_game_init g)"
| frame: "bird_reachable s \<Longrightarrow> bird_frame inp s = Some s' \<Longrightarrow> bird_reachable s'"

section \<open>Sample states\<close>

text \<open>A bird falling onto the ground in the middle of a game, and the inputs of a click
  and of an idle frame; the examples below run the loop on them.\<close>

definition demo_bird :: grumpy where
  "demo_bird = \<lparr>gr_rect = \<lparr>rx = 60, ry = 369, rw = 40, rh = 40\<rparr>, gr_color = NEON_GREEN, gr_counter = 0,
                gr_vel = 7.9, gr_jumped = False, gr_alive = True, gr_theta = 0, gr_flap_pos = 0,
                gr_flap_inc = 1\<rparr>"

definition demo_game :: bird_game where
  "demo_game = \<lparr>bg_pipes = [], bg_base = base_new NEON_GREEN, bg_bird = demo_bird, bg_speed = 2,
                bg_started = True, bg_over = False, bg_score = 3, bg_start_screen = False,
                bg_pipe_pass = False, bg_last_pipe = 1000, bg_particles = [], bg_pipe_color = NEON_GREEN,
                bg_rng = \<lparr>rnd_src = \<lambda>_. 0, rnd_pos = 0\<rparr>\<rparr>"

definition demo_input :: frame_input where
  "demo_input = \<lparr>fi_events = [], fi_held = \<lambda>_. False, fi_mouse = False, fi_ticks = 1000\<rparr>"

definition click_input :: frame_input where
  "click_input = \<lparr>fi_events = [MOUSEBUTTONDOWN], fi_held = \<lambda>_. False, fi_mouse = True, fi_ticks = 5000\<rparr>"

definition idle_input :: frame_input where
  "idle_input = \<lparr>fi_events = [], fi_held = \<lambda>_. False, fi_mouse = False, fi_ticks = 5016\<rparr>"

section \<open>The invariant of the loop\<close>

text \<open>The bird within its physical bounds and hovering on the start screen, the ground
  tiles in range, the pipes in aligned pairs, particles with at most 30 frames to live, a
  non-negative score, a scroll speed of 0 or 2, and a valid random source.\<close>

definition bird_inv :: "bird_game \<Rightarrow> bool" where
  "bird_inv s \<longleftrightarrow>
     grumpy_ok (bg_bird s) \<and> (bg_start_screen s \<longrightarrow> hover_ok (bg_bird s)) \<and> base_ok (bg_base s) \<and>
     pipe_pairs_ok (bg_pipes s) \<and> (\<forall>p\<in>set (bg_particles s). bq_life p \<le> 30) \<and> 0 \<le> bg_score s \<and>
     bg_speed s \<in> {0, 2} \<and> rng_ok (bg_rng s)"

section \<open>Lemmas: every block of the loop keeps the invariant\<close>

lemma create_particles_loop_life:
  "\<forall>p\<in>set ps. bq_life p \<le> 30 \<Longrightarrow>
   (\<forall>p\<in>set (fst (create_particles_loop n x y c ps g)). bq_life p \<le> 30) \<and>
   rng_ok (snd (create_particles_loop n x y c ps g)) = rng_ok g"
proof (induction n arbitrary: ps g)
  case 0
  then show ?case by simp
next
  case (Suc n)
  let ?g1 = "snd (uniform (-3) 3 g)"
  let ?q = "\<lparr>bq_x = x, bq_y = y, bq_vx = fst (uniform (-3) 3 g), bq_vy = fst (uniform (-5) 0 ?g1),
             bq_life = 30, bq_color = c\<rparr>"
  have "\<forall>p\<in>set (ps @ [?q]). bq_life p \<le> 30" using Suc.prems by simp
  from Suc.IH [OF this, of "snd (uniform (-5) 0 ?g1)"] show ?case by (simp add: case_prod_beta)
qed

lemma create_particles_life:
  "\<forall>p\<in>set ps. bq_life p \<le> 30 \<Longrightarrow>
   (\<forall>p\<in>set (fst (create_particles x y c ps g)). bq_life p \<le> 30) \<and>
   rng_ok (snd (create_particles x y c ps g)) = rng_ok g"
  unfolding create_particles_def by (rule create_particles_loop_life)

lemma update_particles_bird_life:
  "\<forall>p\<in>set ps. bq_life p \<le> k \<Longrightarrow> \<forall>p\<in>set (update_particles_bird ps). bq_life p \<le> k - 1"
  by (auto simp: update_particles_bird_def bird_particle_step_def)

lemma pipe_offsets_range: "x \<in> set pipe_offsets \<Longrightarrow> -100 \<le> x \<and> x \<le> 96"
  by (auto simp: pipe_offsets_def)

lemma floor_half_display_height [simp]: "\<lfloor>display_height / 2\<rfloor> = 204"
  by (simp add: display_height_def HEIGHT_def floor_eq_iff)

lemma spawn_pipes_inv:
  assumes "bird_inv s"
  shows "bird_inv (spawn_pipes ticks s) \<and> bg_start_screen (spawn_pipes ticks s) = bg_start_screen s \<and>
         bg_bird (spawn_pipes ticks s) = bg_bird s"
proof -
  define pos where "pos = fst (py_choice pipe_offsets (bg_rng s))"
  have "pos \<in> set pipe_offsets"
    using py_choice_in_set [of "bg_rng s" pipe_offsets] assms by (simp add: pos_def bird_inv_def pipe_offsets_def)
  then have r: "104 \<le> 204 + pos" "204 + pos \<le> 300" using pipe_offsets_range by force+
  show ?thesis
    using assms pipe_new_pair [OF r] pipe_pairs_ok_append
    by (auto simp: spawn_pipes_def bird_inv_def case_prod_beta pos_def [symmetric] Let_def)
qed

lemma scroll_step_inv:
  "bird_inv s \<Longrightarrow> \<not> bg_start_screen s \<Longrightarrow> bird_inv (scroll_step pressed s) \<and> \<not> bg_start_screen (scroll_step pressed s)"
  using grumpy_update_ok base_update_ok pipes_update_ok
  by (auto simp: scroll_step_def bird_inv_def)

lemma crash_step_inv:
  "bird_inv s \<Longrightarrow> \<not> bg_start_screen s \<Longrightarrow> bird_inv (crash_step s) \<and> \<not> bg_start_screen (crash_step s)"
  using create_particles_life [of "bg_particles s"]
  by (auto simp: crash_step_def bird_inv_def grumpy_ok_def Let_def case_prod_beta)

lemma land_step_inv:
  "bird_inv s \<Longrightarrow> \<not> bg_start_screen s \<Longrightarrow> bird_inv (land_step s) \<and> \<not> bg_start_screen (land_step s)"
  by (simp add: land_step_def bird_inv_def)

lemma pass_step_inv:
  "bird_inv s \<Longrightarrow> \<not> bg_start_screen s \<Longrightarrow> bird_inv (pass_step s) \<and> \<not> bg_start_screen (pass_step s)"
  using create_particles_life [of "bg_particles s"]
  by (auto simp: pass_step_def bird_inv_def Let_def case_prod_beta split: list.split)

lemma play_step_inv:
  assumes "bird_inv s" and "\<not> bg_start_screen s"
  shows "bird_inv (play_step pressed ticks s) \<and> \<not> bg_start_screen (play_step pressed ticks s)"
proof -
  have "bird_inv (spawn_pipes ticks s)" "\<not> bg_start_screen (spawn_pipes ticks s)"
    using spawn_pipes_inv [OF assms(1), of ticks] assms(2) by simp_all
  then show ?thesis
    unfolding play_step_def using scroll_step_inv crash_step_inv land_step_inv pass_step_inv by blast
qed

lemma start_screen_step_inv:
  "bird_inv s \<Longrightarrow> bg_start_screen s \<Longrightarrow> bird_inv (start_screen_step s)"
  using grumpy_draw_flap_ok base_update_ok [of "bg_base s" 0]
  by (simp add: start_screen_step_def bird_inv_def)

lemma bird_click_inv: "bird_inv s \<Longrightarrow> bird_inv (bird_click ticks s)"
  using base_new_ok grumpy_new_ok
  by (auto simp: bird_click_def bird_inv_def Let_def case_prod_beta)

lemma bird_events_inv: "bird_inv s \<Longrightarrow> bird_inv (snd (bird_events ticks es (r, s)))"
proof (induction es arbitrary: r s)
  case (Cons e es)
  then show ?case using bird_click_inv by (cases e) auto
qed simp

lemma bird_frame_inv:
  assumes "bird_inv s" and "bird_frame inp s = Some s'"
  shows "bird_inv s'"
proof -
  define s1 where "s1 = (if bg_start_screen s then start_screen_step s else play_step (fi_mouse inp) (fi_ticks inp) s)"
  have "bird_inv s1" using assms(1) start_screen_step_inv play_step_inv by (auto simp: s1_def)
  then have "bird_inv (s1\<lparr>bg_particles := update_particles_bird (bg_particles s1)\<rparr>)"
    using update_particles_bird_life [of "bg_particles s1" 30] by (auto simp: bird_inv_def)
  then show ?thesis using assms(2) bird_events_inv
    by (auto simp: bird_frame_def s1_def [symmetric] Let_def case_prod_beta split: if_splits)
qed

lemma rng_ok_retro_background_draws [simp]: "rng_ok (retro_background_draws n g) = rng_ok g"
  by (induction n arbitrary: g) (simp_all add: case_prod_beta)

lemma bird_game_init_inv: "rng_ok g \<Longrightarrow> bird_inv (bird_game_init g)"
  using base_new_ok grumpy_new_ok by (simp add: bird_game_init_def bird_inv_def case_prod_beta Let_def)

lemma bird_reachable_inv: "bird_reachable s \<Longrightarrow> bird_inv s"
  by (induction rule: bird_reachable.induct) (auto intro: bird_game_init_inv bird_frame_inv)

section \<open>Properties of the loop\<close>

lemma bird_start_reachable: "bird_reachable (bird_game_init \<lparr>rnd_src = \<lambda>_. 0, rnd_pos = 0\<rparr>)"
  by (rule bird_reachable.start) simp

text \<open>C30: in every reachable state the bird's velocity lies in [-6, 8], its rectangle is
  40 x 40, and its bottom is never more than 8 pixels below the ground line int(display_height).\<close>

theorem bird_physics_bounds:
  assumes "bird_reachable s"
  shows "-6 \<le> gr_vel (bg_bird s) \<and> gr_vel (bg_bird s) \<le> 8 \<and>
         rw (gr_rect (bg_bird s)) = 40 \<and> rh (gr_rect (bg_bird s)) = 40 \<and>
         rect_bottom (gr_rect (bg_bird s)) \<le> py_trunc display_height + 8"
  using bird_reachable_inv [OF assms] by (simp add: bird_inv_def grumpy_ok_def)

theorem bird_physics_bounds_witness:
  "let s = bird_game_init \<lparr>rnd_src = \<lambda>_. 0, rnd_pos = 0\<rparr>
   in bird_reachable s \<and> -6 \<le> gr_vel (bg_bird s) \<and> gr_vel (bg_bird s) \<le> 8 \<and>
      rw (gr_rect (bg_bird s)) = 40 \<and> rh (gr_rect (bg_bird s)) = 40 \<and>
      rect_bottom (gr_rect (bg_bird s)) \<le> py_trunc display_height + 8"
  using bird_start_reachable bird_physics_bounds [OF bird_start_reachable] by (simp add: Let_def)

text \<open>C31: in every reachable state the pipe group is a sequence of aligned pairs, a top pipe
  followed by a bottom pipe at the same x, 52 x 320 each, with a 100-pixel gap centred between
  104 and 300.\<close>

theorem bird_pipes_paired:
  "bird_reachable s \<Longrightarrow> pipe_pairs_ok (bg_pipes s)"
  using bird_reachable_inv by (simp add: bird_inv_def)

text \<open>On the start screen the bird hovers between y = 194 and y = 215.\<close>

theorem bird_hover:
  assumes "bird_reachable s" and "bg_start_screen s"
  shows "194 \<le> ry (gr_rect (bg_bird s)) \<and> ry (gr_rect (bg_bird s)) \<le> 215"
  using bird_reachable_inv [OF assms(1)] assms(2) by (auto simp: bird_inv_def hover_ok_def)

lemma update_particles_bird_gone:
  "\<forall>p\<in>set ps. bq_life p \<le> int (Suc n) \<Longrightarrow> (update_particles_bird ^^ Suc n) ps = []"
proof (induction n arbitrary: ps)
  case 0
  then show ?case by (auto simp: update_particles_bird_def bird_particle_step_def filter_empty_conv)
next
  case (Suc n)
  have "\<forall>p\<in>set (update_particles_bird ps). bq_life p \<le> int (Suc n)"
    using update_particles_bird_life [OF Suc.prems] by simp
  then have "(update_particles_bird ^^ Suc n) (update_particles_bird ps) = []" by (rule Suc.IH)
  then show ?case by (simp only: funpow_Suc_apply)
qed

text \<open>C32: in every reachable state every particle is gone after 30 more updates.\<close>

theorem bird_particles_vanish:
  "bird_reachable s \<Longrightarrow> (update_particles_bird ^^ 30) (bg_particles s) = []"
  using bird_reachable_inv [of s] update_particles_bird_gone [of "bg_particles s" 29]
  by (simp add: bird_inv_def)

lemma bird_events_no_click:
  "MOUSEBUTTONDOWN \<notin> set es \<Longrightarrow> snd (bird_events t es (r, s)) = s"
proof (induction es arbitrary: r)
  case (Cons e es)
  then show ?case by (cases e) auto
qed simp

lemma score_unchanged [simp]:
  "bg_score (spawn_pipes t s) = bg_score s" "bg_score (scroll_step pressed s) = bg_score s"
  "bg_score (crash_step s) = bg_score s" "bg_score (land_step s) = bg_score s"
  by (simp_all add: spawn_pipes_def scroll_step_def crash_step_def land_step_def Let_def case_prod_beta)

lemma pass_step_score:
  "bg_score s \<le> bg_score (pass_step s) \<and> bg_score (pass_step s) \<le> bg_score s + 1"
  by (simp add: pass_step_def Let_def case_prod_beta split: list.split)

lemma play_step_score:
  "bg_score s \<le> bg_score (play_step pressed t s) \<and> bg_score (play_step pressed t s) \<le> bg_score s + 1"
  using pass_step_score [of "land_step (crash_step (scroll_step pressed (spawn_pipes t s)))"]
  by (simp add: play_step_def)

lemma spawn_pipes_idle:
  assumes "\<not> (bg_started s \<and> \<not> bg_over s \<and> t - bg_last_pipe s \<ge> pipe_frequency)"
  shows "spawn_pipes t s = s"
  unfolding spawn_pipes_def using assms by (rule if_not_P)

lemma bird_frame_play:
  assumes "\<not> bg_start_screen s" and "MOUSEBUTTONDOWN \<notin> set (fi_events inp)" and "bird_frame inp s = Some s'"
  shows "s' = (play_step (fi_mouse inp) (fi_ticks inp) s)\<lparr>bg_particles :=
                 update_particles_bird (bg_particles (play_step (fi_mouse inp) (fi_ticks inp) s))\<rparr>"
proof -
  let ?s2 = "(play_step (fi_mouse inp) (fi_ticks inp) s)\<lparr>bg_particles :=
                 update_particles_bird (bg_particles (play_step (fi_mouse inp) (fi_ticks inp) s))\<rparr>"
  obtain r where "bird_events (fi_ticks inp) (fi_events inp) (True, ?s2) = (r, ?s2)"
    using bird_events_no_click [OF assms(2), of "fi_ticks inp" True ?s2] by (metis prod.collapse)
  then show ?thesis using assms(1,3) by (simp add: bird_frame_def Let_def split: if_splits)
qed

text \<open>C34: a frame of play without a click never lowers the score and raises it by at most
  one: the pass counter scores at most the oldest pipe once per frame.\<close>

theorem bird_score_step:
  assumes "\<not> bg_start_screen s" and "MOUSEBUTTONDOWN \<notin> set (fi_events inp)"
    and "bird_frame inp s = Some s'"
  shows "bg_score s \<le> bg_score s' \<and> bg_score s' \<le> bg_score s + 1"
  using bird_frame_play [OF assms] play_step_score [of s "fi_mouse inp" "fi_ticks inp"] by simp

lemma pass_step_keeps:
  "bg_bird (pass_step s) = bg_bird s" "bg_over (pass_step s) = bg_over s"
  by (simp_all add: pass_step_def Let_def split: list.split prod.split)

lemma spawn_pipes_keeps:
  "bg_bird (spawn_pipes t s) = bg_bird s" "bg_speed (spawn_pipes t s) = bg_speed s"
  by (simp_all add: spawn_pipes_def Let_def split: prod.split)

text \<open>C35: a bird that falls onto the ground without touching any pipe of the group (the
  pair spawned in the same frame included) ends the game but stays alive, so the game-over
  panel, drawn only for a dead bird, never appears.\<close>

theorem landing_keeps_bird_alive:
  assumes "\<not> bg_start_screen s" and "gr_alive (bg_bird s)"
    and "b = gr_rect (grumpy_update (fi_mouse inp) (bg_bird s))"
    and "\<not> list_ex (\<lambda>p. colliderect b (pp_rect p))
             (pipes_update (bg_speed s) (bg_pipes (spawn_pipes (fi_ticks inp) s)))"
    and "0 < rect_top b" and "410 \<le> rect_bottom b"
    and "MOUSEBUTTONDOWN \<notin> set (fi_events inp)" and "bird_frame inp s = Some s'"
  shows "bg_over s' \<and> gr_alive (bg_bird s')"
proof -
  define s1 where "s1 = scroll_step (fi_mouse inp) (spawn_pipes (fi_ticks inp) s)"
  have b1: "gr_rect (bg_bird s1) = b"
    "bg_pipes s1 = pipes_update (bg_speed s) (bg_pipes (spawn_pipes (fi_ticks inp) s))"
    using assms(3) by (simp_all add: s1_def scroll_step_def spawn_pipes_keeps)
  have alive: "gr_alive (bg_bird s1)"
    using assms(2) by (simp add: s1_def scroll_step_def grumpy_update_def Let_def spawn_pipes_keeps)
  have c: "crash_step s1 = s1" using b1 assms(4,5) by (simp add: crash_step_def)
  have l: "land_step s1 = s1\<lparr>bg_speed := 0, bg_over := True\<rparr>"
    using b1(1) assms(6) by (simp add: land_step_def display_height_def HEIGHT_def)
  have "play_step (fi_mouse inp) (fi_ticks inp) s = pass_step (s1\<lparr>bg_speed := 0, bg_over := True\<rparr>)"
    using c l by (simp add: play_step_def s1_def)
  then show ?thesis using bird_frame_play [OF assms(1,7,8)] alive by (simp add: pass_step_keeps)
qed

text \<open>C36: the pass counter does not check that the bird is alive: a dead bird that had entered
  a pipe still scores it when the pipe scrolls past.\<close>

theorem dead_bird_scores:
  assumes "\<not> gr_alive (bg_bird s)" and "bg_pipe_pass s" and "bg_pipes s = p # ps"
    and "rect_left (gr_rect (bg_bird s)) > rect_right (pp_rect p)"
  shows "bg_score (pass_step s) = bg_score s + 1 \<and> \<not> bg_pipe_pass (pass_step s)"
  using assms by (simp add: pass_step_def Let_def case_prod_beta)

lemma grumpy_new_alive [simp]: "gr_alive (fst (grumpy_new g))"
  by (simp add: grumpy_new_def grumpy_reset_def case_prod_beta)

text \<open>C37: a click after game over returns to the start screen with a new, living bird and no
  particles, but keeps the old pipes and the score until the next click starts a game.\<close>

theorem restart_click_keeps_pipes:
  assumes "\<not> bg_start_screen s" and "bg_over s"
  shows "bg_start_screen (bird_click t s) \<and> bg_bird (bird_click t s) = fst (grumpy_new (bg_rng s)) \<and>
         gr_alive (bg_bird (bird_click t s)) \<and> bg_particles (bird_click t s) = [] \<and>
         bg_pipes (bird_click t s) = bg_pipes s \<and> bg_score (bird_click t s) = bg_score s \<and>
         bg_over (bird_click t s)"
proof -
  have "bird_click t s = s\<lparr>bg_start_screen := True, bg_bird := fst (grumpy_new (bg_rng s)),
                            bg_particles := [], bg_rng := snd (grumpy_new (bg_rng s))\<rparr>"
    using assms by (simp add: bird_click_def Let_def case_prod_beta)
  then show ?thesis using assms(2) by simp
qed

text \<open>A click on the start screen starts a game: scroll speed 2, no pipes, score 0, and the
  first pair of pipes spawns on the first frame at or after the click.\<close>

theorem start_click:
  assumes "bg_start_screen s" and "t \<le> t'"
  shows "bg_started (bird_click t s) \<and> \<not> bg_over (bird_click t s) \<and> \<not> bg_start_screen (bird_click t s) \<and>
         bg_speed (bird_click t s) = 2 \<and> bg_pipes (bird_click t s) = [] \<and> bg_score (bird_click t s) = 0 \<and>
         length (bg_pipes (spawn_pipes t' (bird_click t s))) = 2"
proof -
  define c where "c = fst (py_choice pipe_colors (bg_rng s))"
  define g where "g = snd (py_choice pipe_colors (bg_rng s))"
  define s1 where "s1 = s\<lparr>bg_started := True, bg_speed := 2, bg_start_screen := False, bg_over := False,
                       bg_last_pipe := t - pipe_frequency, bg_pipes := [], bg_score := 0,
                       bg_pipe_color := c, bg_base := base_new c, bg_rng := g\<rparr>"
  have k: "bird_click t s = s1"
    using assms(1) by (simp add: bird_click_def Let_def case_prod_beta s1_def c_def g_def)
  have "t' - bg_last_pipe s1 \<ge> pipe_frequency" using assms(2) by (simp add: s1_def)
  then have "length (bg_pipes (spawn_pipes t' s1)) = 2"
    by (simp add: spawn_pipes_def Let_def case_prod_beta s1_def)
  then show ?thesis using k by (simp add: s1_def)
qed

lemma demo_frame_Some: "bird_frame demo_input demo_game = Some (the (bird_frame demo_input demo_game))"
  by (simp add: bird_frame_def demo_input_def Let_def case_prod_beta)

lemma bird_frame_no_events: "fi_events inp = [] \<Longrightarrow> bird_frame inp s = Some (the (bird_frame inp s))"
  by (simp add: bird_frame_def Let_def case_prod_beta)

theorem landing_keeps_bird_alive_witness:
  "let p = the (pipe_new 204 1 NEON_GREEN); q = the (pipe_new 204 (-1) NEON_GREEN);
       s = demo_game\<lparr>bg_pipes := [p, q]\<rparr>;
       b = gr_rect (grumpy_update (fi_mouse demo_input) (bg_bird s))
   in \<not> bg_start_screen s \<and> gr_alive (bg_bird s) \<and> bg_pipes s \<noteq> [] \<and>
      \<not> list_ex (\<lambda>p. colliderect b (pp_rect p))
         (pipes_update (bg_speed s) (bg_pipes (spawn_pipes (fi_ticks demo_input) s))) \<and>
      0 < rect_top b \<and> 410 \<le> rect_bottom b \<and> MOUSEBUTTONDOWN \<notin> set (fi_events demo_input) \<and>
      bg_over (the (bird_frame demo_input s)) \<and> gr_alive (bg_bird (the (bird_frame demo_input s)))"
proof -
  define p where "p = the (pipe_new 204 1 NEON_GREEN)"
  define q where "q = the (pipe_new 204 (-1) NEON_GREEN)"
  define s where "s = demo_game\<lparr>bg_pipes := [p, q]\<rparr>"
  define b where "b = gr_rect (grumpy_update (fi_mouse demo_input) (bg_bird s))"
  have u: "b = \<lparr>rx = 60, ry = 377, rw = 40, rh = 40\<rparr>"
    by (simp add: b_def s_def demo_input_def grumpy_update_def demo_game_def demo_bird_def Let_def rect_edges
        display_height_def HEIGHT_def)
  have sp: "spawn_pipes (fi_ticks demo_input) s = s"
    by (rule spawn_pipes_idle) (simp add: s_def demo_game_def demo_input_def pipe_frequency_def)
  have pu: "pipes_update (bg_speed s) (bg_pipes s) = map (\<lambda>p. p\<lparr>pp_rect := (pp_rect p)\<lparr>rx := WIDTH - 2\<rparr>\<rparr>) [p, q]"
    by (simp add: pipes_update_def pipe_update_def s_def demo_game_def p_def q_def pipe_new_def Let_def
        rect_edges WIDTH_def PIPE_W_def)
  have h: "\<not> bg_start_screen s" "gr_alive (bg_bird s)"
    "\<not> list_ex (\<lambda>p. colliderect b (pp_rect p)) (pipes_update (bg_speed s) (bg_pipes (spawn_pipes (fi_ticks demo_input) s)))"
    "0 < rect_top b" "410 \<le> rect_bottom b" "MOUSEBUTTONDOWN \<notin> set (fi_events demo_input)"
    using u sp pu by (simp_all add: s_def demo_game_def demo_bird_def demo_input_def colliderect_def rect_edges
        p_def q_def pipe_new_def Let_def WIDTH_def PIPE_W_def PIPE_H_def)
  have "bg_pipes s \<noteq> []" by (simp add: s_def)
  then show ?thesis
    using h landing_keeps_bird_alive [OF h(1,2) b_def h(3-6) bird_frame_no_events]
    by (simp add: Let_def p_def q_def s_def b_def demo_input_def)
qed

theorem dead_bird_scores_witness:
  "let p = the (pipe_new 204 1 NEON_GREEN);
       p' = p\<lparr>pp_rect := (pp_rect p)\<lparr>rx := 0\<rparr>\<rparr>;
       s = demo_game\<lparr>bg_bird := demo_bird\<lparr>gr_alive := False\<rparr>, bg_pipe_pass := True, bg_pipes := [p']\<rparr>
   in \<not> gr_alive (bg_bird s) \<and> bg_pipe_pass s \<and> bg_pipes s = p' # [] \<and>
      rect_left (gr_rect (bg_bird s)) > rect_right (pp_rect p') \<and>
      bg_score (pass_step s) = 4 \<and> \<not> bg_pipe_pass (pass_step s)"
proof -
  let ?p = "the (pipe_new 204 1 NEON_GREEN)"
  let ?p' = "?p\<lparr>pp_rect := (pp_rect ?p)\<lparr>rx := 0\<rparr>\<rparr>"
  let ?s = "demo_game\<lparr>bg_bird := demo_bird\<lparr>gr_alive := False\<rparr>, bg_pipe_pass := True, bg_pipes := [?p']\<rparr>"
  have h: "\<not> gr_alive (bg_bird ?s)" "bg_pipe_pass ?s" "bg_pipes ?s = ?p' # []"
    "rect_left (gr_rect (bg_bird ?s)) > rect_right (pp_rect ?p')"
    by (simp_all add: demo_bird_def pipe_new_def rect_edges PIPE_W_def)
  show ?thesis using h dead_bird_scores [OF h] by (simp add: Let_def demo_game_def)
qed

lemma play_step_pipes:
  "bg_pipes (play_step pressed t s) = pipes_update (bg_speed s) (bg_pipes (spawn_pipes t s))"
proof -
  have "bg_pipes (pass_step x) = bg_pipes x" "bg_pipes (land_step x) = bg_pipes x"
       "bg_pipes (crash_step x) = bg_pipes x" "bg_speed (spawn_pipes t x) = bg_speed x" for x
    by (simp_all add: pass_step_def land_step_def crash_step_def spawn_pipes_def Let_def case_prod_beta
        split: list.split)
  then show ?thesis by (simp add: play_step_def scroll_step_def)
qed

lemma bird_two_frames:
  "let s0 = bird_game_init \<lparr>rnd_src = \<lambda>_. 0, rnd_pos = 0\<rparr>;
       s1 = the (bird_frame click_input s0);
       s2 = the (bird_frame idle_input s1)
   in bird_reachable s2 \<and> length (bg_pipes s2) = 2"
proof -
  let ?s0 = "bird_game_init \<lparr>rnd_src = \<lambda>_. 0, rnd_pos = 0\<rparr>"
  have f1: "bird_frame click_input ?s0 = Some (the (bird_frame click_input ?s0))"
    by (simp add: bird_frame_def click_input_def Let_def case_prod_beta)
  define t1 where "t1 = the (bird_frame click_input ?s0)"
  have f2: "bird_frame idle_input t1 = Some (the (bird_frame idle_input t1))"
    by (simp add: bird_frame_def idle_input_def Let_def case_prod_beta)
  have r1: "bird_reachable t1" unfolding t1_def by (rule bird_reachable.frame [OF bird_start_reachable f1])
  have r: "bird_reachable (the (bird_frame idle_input t1))" by (rule bird_reachable.frame [OF r1 f2])
  have s1: "\<not> bg_start_screen t1" "bg_started t1" "\<not> bg_over t1" "bg_last_pipe t1 = 3400"
     "bg_pipes t1 = []" "bg_speed t1 = 2"
    unfolding t1_def
    by (simp_all add: bird_frame_def click_input_def start_screen_step_def bird_click_def bird_game_init_def
        Let_def case_prod_beta grumpy_new_def grumpy_reset_def grumpy_draw_flap_def WIDTH_def pipe_frequency_def)
  have sp: "length (pipes_update 2 (bg_pipes (spawn_pipes 5016 t1))) = 2"
    using s1 by (simp add: spawn_pipes_def Let_def case_prod_beta pipe_new_def pipes_update_def
        pipe_update_def rect_edges pipe_frequency_def WIDTH_def PIPE_W_def)
  have "length (bg_pipes (the (bird_frame idle_input t1))) = 2"
    using bird_frame_play [OF s1(1) _ f2] sp s1(6) play_step_pipes by (simp add: idle_input_def)
  then show ?thesis using r by (simp add: Let_def t1_def)
qed

theorem bird_pipes_paired_witness:
  "let s0 = bird_game_init \<lparr>rnd_src = \<lambda>_. 0, rnd_pos = 0\<rparr>;
       s2 = the (bird_frame idle_input (the (bird_frame click_input s0)))
   in bird_reachable s2 \<and> length (bg_pipes s2) = 2 \<and> pipe_pairs_ok (bg_pipes s2)"
proof -
  let ?s2 = "the (bird_frame idle_input (the (bird_frame click_input (bird_game_init \<lparr>rnd_src = \<lambda>_. 0, rnd_pos = 0\<rparr>))))"
  have "bird_reachable ?s2 \<and> length (bg_pipes ?s2) = 2" using bird_two_frames by (simp add: Let_def)
  then show ?thesis using bird_pipes_paired [of ?s2] by (simp add: Let_def)
qed

theorem bird_particles_vanish_witness:
  "let s0 = bird_game_init \<lparr>rnd_src = \<lambda>_. 0, rnd_pos = 0\<rparr>;
       s2 = the (bird_frame idle_input (the (bird_frame click_input s0)))
   in bird_reachable s2 \<and> (update_particles_bird ^^ 30) (bg_particles s2) = []"
proof -
  let ?s2 = "the (bird_frame idle_input (the (bird_frame click_input (bird_game_init \<lparr>rnd_src = \<lambda>_. 0, rnd_pos = 0\<rparr>))))"
  have "bird_reachable ?s2" using bird_two_frames by (simp add: Let_def)
  then show ?thesis using bird_particles_vanish [of ?s2] by (simp add: Let_def)
qed

theorem bird_hover_witness:
  "let s = bird_game_init \<lparr>rnd_src = \<lambda>_. 0, rnd_pos = 0\<rparr>
   in bird_reachable s \<and> bg_start_screen s \<and>
      194 \<le> ry (gr_rect (bg_bird s)) \<and> ry (gr_rect (bg_bird s)) \<le> 215"
proof -
  let ?s = "bird_game_init \<lparr>rnd_src = \<lambda>_. 0, rnd_pos = 0\<rparr>"
  have h: "bird_reachable ?s" "bg_start_screen ?s"
    using bird_start_reachable by (simp_all add: bird_game_init_def Let_def case_prod_beta)
  show ?thesis using h bird_hover [OF h] by (simp add: Let_def)
qed

theorem bird_score_step_witness:
  "\<not> bg_start_screen demo_game \<and> MOUSEBUTTONDOWN \<notin> set (fi_events demo_input) \<and>
   bird_frame demo_input demo_game = Some (the (bird_frame demo_input demo_game)) \<and>
   3 \<le> bg_score (the (bird_frame demo_input demo_game)) \<and> bg_score (the (bird_frame demo_input demo_game)) \<le> 4"
proof -
  have h: "\<not> bg_start_screen demo_game" "MOUSEBUTTONDOWN \<notin> set (fi_events demo_input)"
    by (simp_all add: demo_game_def demo_input_def)
  show ?thesis using h demo_frame_Some bird_score_step [OF h demo_frame_Some]
    by (simp add: demo_game_def)
qed

theorem restart_click_keeps_pipes_witness:
  "let s = demo_game\<lparr>bg_over := True, bg_pipes := [the (pipe_new 204 1 NEON_GREEN), the (pipe_new 204 (-1) NEON_GREEN)]\<rparr>
   in \<not> bg_start_screen s \<and> bg_over s \<and>
      bg_start_screen (bird_click 7000 s) \<and> gr_alive (bg_bird (bird_click 7000 s)) \<and>
      bg_particles (bird_click 7000 s) = [] \<and> length (bg_pipes (bird_click 7000 s)) = 2 \<and>
      bg_score (bird_click 7000 s) = 3"
proof -
  let ?s = "demo_game\<lparr>bg_over := True, bg_pipes := [the (pipe_new 204 1 NEON_GREEN), the (pipe_new 204 (-1) NEON_GREEN)]\<rparr>"
  have h: "\<not> bg_start_screen ?s" "bg_over ?s" by (simp_all add: demo_game_def)
  show ?thesis using h restart_click_keeps_pipes [OF h, of 7000] by (simp add: Let_def demo_game_def)
qed

theorem start_click_witness:
  "let s = bird_game_init \<lparr>rnd_src = \<lambda>_. 0, rnd_pos = 0\<rparr>
   in bg_start_screen s \<and> (5000::int) \<le> 5016 \<and>
      bg_started (bird_click 5000 s) \<and> bg_speed (bird_click 5000 s) = 2 \<and>
      bg_pipes (bird_click 5000 s) = [] \<and> bg_score (bird_click 5000 s) = 0 \<and>
      length (bg_pipes (spawn_pipes 5016 (bird_click 5000 s))) = 2"
proof -
  let ?s = "bird_game_init \<lparr>rnd_src = \<lambda>_. 0, rnd_pos = 0\<rparr>"
  have h: "bg_start_screen ?s" "(5000::int) \<le> 5016"
    by (simp_all add: bird_game_init_def Let_def case_prod_beta)
  show ?thesis using h start_click [OF h] by (simp add: Let_def)
qed

end
