(* ===== verification/Py_String.thy ===== *)
theory Py_String
  imports Main
begin

text \<open>
  The Python string built-ins the games call, on strings as lists of characters:
  \<open>str.strip\<close>, \<open>str.lower\<close>, \<open>str.replace(' ', '')\<close>, \<open>str.split\<close> with a
  one-character separator, \<open>int()\<close> in base 10 (its \<open>ValueError\<close> is \<open>None\<close>) and
  \<open>str()\<close> of an int, which f-strings also use. A \<open>char\<close> is read as the Unicode
  code point of the same number, so a string of the model is a Python \<open>str\<close> of code
  points up to U+00FF (Latin-1), and on those the model is exact: white space includes
  U+0085 and U+00A0, \<open>lower\<close> maps the Latin-1 capitals, and the only decimal digits
  are 0-9. The lemmas show that \<open>int()\<close> reads back what \<open>str()\<close> writes up to
  CPython's digit limit, how \<open>split\<close> cuts at a separator, and which characters make
  \<open>int()\<close> fail.
\<close>

section \<open>Python string operations\<close>

text \<open>\<open>str.isspace\<close> on Latin-1: tab, line feed, vertical tab, form feed, carriage
  return, the separators 0x1c to 0x1f, space, next line (0x85) and no-break space (0xa0).\<close>

definition py_isspace :: "char \<Rightarrow> bool" where
  "py_isspace c \<longleftrightarrow> of_char c \<in> ({9..13} \<union> {28..32} \<union> {133, 160} :: nat set)"

definition py_strip :: "string \<Rightarrow> string" where
  "py_strip s = rev (dropWhile py_isspace (rev (dropWhile py_isspace s)))"

text \<open>\<open>str.lower\<close> on one Latin-1 character: A-Z and the capitals 0xc0 to 0xde (except
  the multiplication sign 0xd7) move up by 0x20; every other character is kept.\<close>

definition py_lower_char :: "char \<Rightarrow> char" where
  "py_lower_char c =
     (let n = (of_char c :: nat)
      in if 65 \<le> n \<and> n \<le> 90 \<or> 192 \<le> n \<and> n \<le> 222 \<and> n \<noteq> 215 then char_of (n + 32) else c)"

definition py_lower :: "string \<Rightarrow> string" where
  "py_lower s = map py_lower_char s"

text \<open>\<open>s.replace(' ', '')\<close>.\<close>

definition remove_spaces :: "string \<Rightarrow> string" where
  "remove_spaces s = filter (\<lambda>c. c \<noteq> CHR '' '') s"

text \<open>\<open>s.split(sep)\<close> for a one-character separator: the pieces between separators,
  empty pieces included, so that there is always one piece more than separators.\<close>

fun py_split :: "char \<Rightarrow> string \<Rightarrow> string list" where
  "py_split sep [] = [[]]"
| "py_split sep (c # cs) =
     (if c = sep then [] # py_split sep cs
      else (case py_split sep cs of w # ws \<Rightarrow> (c # w) # ws | [] \<Rightarrow> [[c]]))"

definition is_digit :: "char \<Rightarrow> bool" where
  "is_digit c \<longleftrightarrow> 48 \<le> (of_char c :: nat) \<and> (of_char c :: nat) \<le> 57"

definition digit_value :: "char \<Rightarrow> int" where
  "digit_value c = int (of_char c) - 48"

fun no_double_underscore :: "string \<Rightarrow> bool" where
  "no_double_underscore (a # b # cs) = (\<not> (a = CHR ''_'' \<and> b = CHR ''_'') \<and> no_double_underscore (b # cs))"
| "no_double_underscore cs = True"

text \<open>The default of \<open>sys.get_int_max_str_digits()\<close> (CPython 3.11 and later): \<open>int()\<close>
  of a decimal literal with more digits raises \<open>ValueError\<close>.\<close>

definition PY_INT_MAX_STR_DIGITS :: nat where
  "PY_INT_MAX_STR_DIGITS = 4300"

text \<open>The digits of a base-10 literal: at least one digit, single underscores allowed
  between digits only, and at most \<open>PY_INT_MAX_STR_DIGITS\<close> digits (underscores are
  not counted, leading zeros are).\<close>

definition parse_udigits :: "string \<Rightarrow> int option" where
  "parse_udigits cs =
     (if cs \<noteq> [] \<and> is_digit (hd cs) \<and> is_digit (last cs) \<and>
         list_all (\<lambda>c. is_digit c \<or> c = CHR ''_'') cs \<and> no_double_underscore cs \<and>
         length (filter is_digit cs) \<le> PY_INT_MAX_STR_DIGITS
      then Some (foldl (\<lambda>n c. 10 * n + digit_value c) 0 (filter is_digit cs))
      else None)"

text \<open>\<open>int(s)\<close>: surrounding white space, an optional sign, the digits.\<close>

definition py_int :: "string \<Rightarrow> int option" where
  "py_int s =
     (case py_strip s of
        [] \<Rightarrow> None
      | c # cs \<Rightarrow>
          (if c = CHR ''-'' then map_option uminus (parse_udigits cs)
           else if c = CHR ''+'' then parse_udigits cs
           else parse_udigits (c # cs)))"

text \<open>\<open>str(n)\<close> for an int: the decimal digits, with a minus sign when negative. (Past
  \<open>PY_INT_MAX_STR_DIGITS\<close> digits CPython's \<open>str()\<close> raises; the games only print
  scores, lives, levels and timers, far below that.) The same text is a decimal literal
  of any size that an environment variable may hold.\<close>

fun nat_digits :: "nat \<Rightarrow> string" where
  "nat_digits n = (if n < 10 then [char_of (48 + n)] else nat_digits (n div 10) @ [char_of (48 + n mod 10)])"

definition py_str_int :: "int \<Rightarrow> string" where
  "py_str_int i = (if i < 0 then CHR ''-'' # nat_digits (nat (- i)) else nat_digits (nat i))"

section \<open>Lemmas\<close>

declare nat_digits.simps [simp del]

lemma nat_digits_small [simp]: "n < 10 \<Longrightarrow> nat_digits n = [char_of (48 + n)]"
  by (simp add: nat_digits.simps)

lemma nat_digits_big: "\<not> n < 10 \<Longrightarrow> nat_digits n = nat_digits (n div 10) @ [char_of (48 + n mod 10)]"
  by (simp add: nat_digits.simps)

lemma nat_digits_not_Nil [simp]: "nat_digits n \<noteq> []"
  by (cases "n < 10") (simp_all add: nat_digits_big)

lemma nat_digits_digits: "c \<in> set (nat_digits n) \<Longrightarrow> is_digit c"
proof (induction n rule: nat_digits.induct)
  case (1 n)
  have d: "is_digit (char_of (48 + m))" if "m < 10" for m :: nat
    using that by (simp add: is_digit_def of_char_of)
  show ?case
  proof (cases "n < 10")
    case True
    then show ?thesis using 1 d [of n] by simp
  next
    case False
    then show ?thesis using 1 d [of "n mod 10"] by (auto simp: nat_digits_big)
  qed
qed

lemma digit_value_char [simp]: "m < 10 \<Longrightarrow> digit_value (char_of (48 + m)) = int m"
  by (simp add: digit_value_def of_char_of)

lemma nat_digits_value:
  "foldl (\<lambda>k c. 10 * k + digit_value c) 0 (nat_digits n) = int n"
proof (induction n rule: nat_digits.induct)
  case (1 n)
  show ?case
  proof (cases "n < 10")
    case True
    then show ?thesis by simp
  next
    case False
    then have "foldl (\<lambda>k c. 10 * k + digit_value c) 0 (nat_digits n) =
               10 * int (n div 10) + int (n mod 10)"
      using 1 by (simp add: nat_digits_big)
    also have "\<dots> = int (10 * (n div 10) + n mod 10)" by (simp only: of_nat_add of_nat_mult of_nat_numeral)
    also have "\<dots> = int n" by simp
    finally show ?thesis .
  qed
qed

lemma digit_not_special:
  "is_digit c \<Longrightarrow> \<not> py_isspace c \<and> c \<noteq> CHR ''-'' \<and> c \<noteq> CHR ''+'' \<and> c \<noteq> CHR ''_'' \<and>
     c \<noteq> CHR ''x'' \<and> c \<noteq> CHR '','' \<and> c \<noteq> CHR '' '' \<and> py_lower_char c = c"
  by (auto simp: is_digit_def py_isspace_def py_lower_char_def Let_def)

lemma no_double_underscore_free: "CHR ''_'' \<notin> set cs \<Longrightarrow> no_double_underscore cs"
  by (induction cs rule: no_double_underscore.induct) auto

lemma nat_digits_length: "0 < k \<Longrightarrow> length (nat_digits n) \<le> k \<longleftrightarrow> n < 10 ^ k"
proof (induction n arbitrary: k rule: nat_digits.induct)
  case (1 n)
  show ?case
  proof (cases "n < 10")
    case True
    moreover have "(10::nat) \<le> 10 ^ k" using "1.prems" by (simp add: Suc_le_eq self_le_power)
    ultimately show ?thesis using "1.prems" by simp
  next
    case False
    show ?thesis
    proof (cases "k = 1")
      case True
      then show ?thesis using False by (simp add: nat_digits_big)
    next
      case k: False
      then obtain j where j: "k = Suc j" "0 < j" using "1.prems" by (cases k) auto
      have "length (nat_digits n) \<le> k \<longleftrightarrow> length (nat_digits (n div 10)) \<le> j"
        using False j(1) by (simp add: nat_digits_big)
      also have "\<dots> \<longleftrightarrow> n div 10 < 10 ^ j" using "1.IH" [OF False j(2)] .
      also have "\<dots> \<longleftrightarrow> n < 10 ^ k" using j(1) by (simp add: div_less_iff_less_mult mult.commute)
      finally show ?thesis .
    qed
  qed
qed

lemma parse_udigits_nat_digits:
  "parse_udigits (nat_digits n) = (if n < 10 ^ PY_INT_MAX_STR_DIGITS then Some (int n) else None)"
proof -
  have all: "\<forall>c\<in>set (nat_digits n). is_digit c" using nat_digits_digits by blast
  then have f: "filter is_digit (nat_digits n) = nat_digits n" by simp
  moreover have "CHR ''_'' \<notin> set (nat_digits n)" using all digit_not_special by blast
  moreover have "length (nat_digits n) \<le> PY_INT_MAX_STR_DIGITS \<longleftrightarrow> n < 10 ^ PY_INT_MAX_STR_DIGITS"
    by (rule nat_digits_length) (simp add: PY_INT_MAX_STR_DIGITS_def)
  ultimately show ?thesis
    using all nat_digits_value [of n] no_double_underscore_free
    by (simp add: parse_udigits_def list_all_iff)
qed

lemma py_str_int_chars: "c \<in> set (py_str_int i) \<Longrightarrow> is_digit c \<or> c = CHR ''-''"
  using nat_digits_digits by (auto simp: py_str_int_def split: if_splits)

lemma py_str_int_char_plain:
  assumes "c \<in> set (py_str_int i)"
  shows "\<not> py_isspace c \<and> c \<noteq> CHR ''x'' \<and> c \<noteq> CHR '','' \<and> c \<noteq> CHR '' '' \<and> py_lower_char c = c"
proof (cases "is_digit c")
  case True
  then show ?thesis using digit_not_special by blast
next
  case False
  then have "c = CHR ''-''" using py_str_int_chars [OF assms] by blast
  then show ?thesis by (simp add: py_isspace_def py_lower_char_def)
qed

lemma py_str_int_not_Nil [simp]: "py_str_int i \<noteq> []"
  by (simp add: py_str_int_def)

lemma py_str_int_hd: "py_str_int i = c # cs \<Longrightarrow> is_digit c \<or> c = CHR ''-''"
  using py_str_int_chars [of c i] by simp

lemma py_str_int_last: "is_digit (last (py_str_int i))"
proof -
  have "is_digit (last (nat_digits n))" for n
    using nat_digits_digits last_in_set [OF nat_digits_not_Nil] by blast
  then show ?thesis by (simp add: py_str_int_def)
qed

lemma py_strip_id:
  assumes "s \<noteq> []" and "\<not> py_isspace (hd s)" and "\<not> py_isspace (last s)"
  shows "py_strip s = s"
proof -
  obtain c cs where s: "s = c # cs" using assms(1) by (cases s) auto
  then have l: "dropWhile py_isspace s = s" using assms(2) by simp
  obtain d ds where r: "rev s = d # ds" using assms(1) by (cases "rev s") auto
  have "d = last s" using r hd_rev [of s] by simp
  then have "dropWhile py_isspace (d # ds) = d # ds" using assms(3) by simp
  then have "dropWhile py_isspace (rev s) = rev s" unfolding r .
  then show ?thesis using l by (simp add: py_strip_def)
qed

text \<open>\<open>int()\<close> reads back the text \<open>str()\<close> writes, as long as it has at most
  \<open>PY_INT_MAX_STR_DIGITS\<close> digits; a longer one raises \<open>ValueError\<close>.\<close>

lemma py_int_str:
  "py_int (py_str_int i) = (if \<bar>i\<bar> < 10 ^ PY_INT_MAX_STR_DIGITS then Some i else None)"
proof -
  have "hd (py_str_int i) \<in> set (py_str_int i)" "last (py_str_int i) \<in> set (py_str_int i)" by simp_all
  then have "\<not> py_isspace (hd (py_str_int i))" "\<not> py_isspace (last (py_str_int i))"
    using py_str_int_char_plain by blast+
  then have "py_strip (py_str_int i) = py_str_int i" by (intro py_strip_id) simp_all
  moreover obtain c cs where c: "nat_digits (nat i) = c # cs" by (cases "nat_digits (nat i)") auto
  moreover have "is_digit c" using c nat_digits_digits by (metis list.set_intros(1))
  moreover have "nat \<bar>i\<bar> < 10 ^ PY_INT_MAX_STR_DIGITS \<longleftrightarrow> \<bar>i\<bar> < 10 ^ PY_INT_MAX_STR_DIGITS"
    by (simp add: nat_less_iff)
  ultimately show ?thesis using digit_not_special [of c] parse_udigits_nat_digits [of "nat i"]
    parse_udigits_nat_digits [of "nat (- i)"]
    by (auto simp: py_int_def py_str_int_def abs_if)
qed

lemma int_below_digit_limit: "\<bar>i::int\<bar> < 10000 \<Longrightarrow> \<bar>i\<bar> < 10 ^ PY_INT_MAX_STR_DIGITS"
proof -
  assume "\<bar>i\<bar> < 10000"
  moreover have "(10000::int) = 10 ^ 4" by simp
  moreover have "(10::int) ^ 4 \<le> 10 ^ PY_INT_MAX_STR_DIGITS"
    by (rule power_increasing) (simp_all add: PY_INT_MAX_STR_DIGITS_def)
  ultimately show ?thesis by linarith
qed

lemma nat_digits_inj: "nat_digits a = nat_digits b \<Longrightarrow> a = b"
  by (metis nat_digits_value of_nat_eq_iff)

text \<open>\<open>str()\<close> of an integer determines it.\<close>

lemma py_str_int_inj: "py_str_int a = py_str_int b \<longleftrightarrow> a = b"
proof
  assume eq: "py_str_int a = py_str_int b"
  have neg: "CHR ''-'' \<notin> set (nat_digits n)" for n
    using nat_digits_digits digit_not_special by blast
  have m: "CHR ''-'' \<in> set (py_str_int i) \<longleftrightarrow> i < 0" for i
    using neg [of "nat i"] by (simp add: py_str_int_def)
  have "a < 0 \<longleftrightarrow> b < 0" using m [of a] m [of b] eq by simp
  then show "a = b"
    using eq nat_digits_inj [of "nat (- a)" "nat (- b)"] nat_digits_inj [of "nat a" "nat b"]
    by (auto simp: py_str_int_def split: if_splits)
qed simp

lemma py_split_no_sep: "sep \<notin> set s \<Longrightarrow> py_split sep s = [s]"
  by (induction s) auto

lemma py_split_sep: "sep \<notin> set a \<Longrightarrow> py_split sep (a @ sep # b) = a # py_split sep b"
proof (induction a)
  case (Cons c a)
  then show ?case by (cases "py_split sep b") auto
qed simp

lemma plain_string_id:
  assumes "\<forall>c\<in>set t. \<not> py_isspace c \<and> py_lower_char c = c \<and> c \<noteq> CHR '' ''"
  shows "py_lower t = t" and "remove_spaces t = t"
  using assms by (simp_all add: py_lower_def remove_spaces_def map_idI)

lemma dropWhile_keeps: "c \<in> set s \<Longrightarrow> \<not> P c \<Longrightarrow> c \<in> set (dropWhile P s)"
  by (induction s) auto

lemma py_strip_keeps: "c \<in> set s \<Longrightarrow> \<not> py_isspace c \<Longrightarrow> c \<in> set (py_strip s)"
  by (simp add: py_strip_def dropWhile_keeps)

lemma py_split_keeps: "c \<in> set s \<Longrightarrow> c \<noteq> sep \<Longrightarrow> \<exists>p\<in>set (py_split sep s). c \<in> set p"
proof (induction s)
  case (Cons d s)
  show ?case
  proof (cases "d = sep")
    case True
    then show ?thesis using Cons by auto
  next
    case False
    then show ?thesis using Cons by (cases "py_split sep s") auto
  qed
qed simp

lemma parse_udigits_bad: "c \<in> set cs \<Longrightarrow> \<not> is_digit c \<Longrightarrow> c \<noteq> CHR ''_'' \<Longrightarrow> parse_udigits cs = None"
  by (auto simp: parse_udigits_def list_all_iff)

lemma py_int_bad:
  assumes "c \<in> set p" "\<not> py_isspace c" "\<not> is_digit c" "c \<notin> {CHR ''_'', CHR ''+'', CHR ''-''}"
  shows "py_int p = None"
proof -
  have "c \<in> set (py_strip p)" using assms py_strip_keeps by blast
  then show ?thesis using assms parse_udigits_bad [of c]
    by (auto simp: py_int_def split: list.split)
qed

lemma py_lower_char_space: "\<not> py_isspace c \<Longrightarrow> \<not> py_isspace (py_lower_char c)"
proof -
  have "(of_char (char_of (n + 32) :: char) :: nat) = n + 32" if "n \<le> 90" for n :: nat
    using that by (simp add: of_char_of)
  then show "\<not> py_isspace c \<Longrightarrow> \<not> py_isspace (py_lower_char c)"
    by (auto simp: py_isspace_def py_lower_char_def Let_def)
qed

end
