(* ===== verification/SI_Config.thy ===== *)
theory SI_Config
  imports Pygame_Model Py_String
begin

text \<open>
  The start-up configuration of \<open>SpaceInvader.py\<close>: \<open>parse_window_size\<close>, which reads
  the launcher's \<open>ARCADE_WINDOW_SIZE\<close> variable (\<open>"800x600"\<close>, \<open>"800,600"\<close>, with
  any spacing and case), and the screen size chosen from it. The Python string operations
  it calls are those of \<open>Py_String\<close>.
\<close>

section \<open>Window size\<close>

text \<open>\<open>parse_window_size(raw_value)\<close>; the environment variable may be absent
  (\<open>None\<close>). An empty or malformed value gives \<open>None\<close>; sizes below 320 x 240 are
  raised to it.\<close>

definition parse_window_size :: "string option \<Rightarrow> (int \<times> int) option" where
  "parse_window_size raw =
     (case raw of
        None \<Rightarrow> None
      | Some r \<Rightarrow>
          (if r = [] then None
           else
             (let cleaned = remove_spaces (py_lower (py_strip r));
                  separator = (if CHR ''x'' \<in> set cleaned then CHR ''x'' else CHR '','');
                  parts = py_split separator cleaned
              in if length parts \<noteq> 2 then None
                 else (case (py_int (parts ! 0), py_int (parts ! 1)) of
                         (Some w, Some h) \<Rightarrow> Some (max 320 w, max 240 h)
                       | _ \<Rightarrow> None))))"

definition DEFAULT_SCREEN_WIDTH :: int where "DEFAULT_SCREEN_WIDTH = 800"
definition DEFAULT_SCREEN_HEIGHT :: int where "DEFAULT_SCREEN_HEIGHT = 600"

text \<open>\<open>SCREEN_WIDTH, SCREEN_HEIGHT\<close>: the parsed size if there is one, else the
  defaults.\<close>

definition si_screen :: "string option \<Rightarrow> screen" where
  "si_screen raw =
     (case parse_window_size raw of
        Some (w, h) \<Rightarrow> \<lparr>scr_w = w, scr_h = h\<rparr>
      | None \<Rightarrow> \<lparr>scr_w = DEFAULT_SCREEN_WIDTH, scr_h = DEFAULT_SCREEN_HEIGHT\<rparr>)"

section \<open>Lemmas\<close>

lemma parse_window_size_min: "parse_window_size raw = Some (w, h) \<Longrightarrow> 320 \<le> w \<and> 240 \<le> h"
  by (auto simp: parse_window_size_def Let_def split: option.splits if_splits)

text \<open>Whatever \<open>ARCADE_WINDOW_SIZE\<close> holds, the screen is at least 320 x 240.\<close>

lemma si_screen_min: "320 \<le> scr_w (si_screen raw) \<and> 240 \<le> scr_h (si_screen raw)"
  using parse_window_size_min [of raw]
  by (auto simp: si_screen_def DEFAULT_SCREEN_WIDTH_def DEFAULT_SCREEN_HEIGHT_def split: option.split)

text \<open>A no-break space (U+00A0) around the value is white space to \<open>strip\<close>.\<close>

lemma parse_window_size_nbsp: "parse_window_size (Some (''800x600'' @ [char_of (160::nat)])) = Some (800, 600)"
  by (simp add: parse_window_size_def py_strip_def py_isspace_def remove_spaces_def py_lower_def
      py_lower_char_def py_int_def parse_udigits_def is_digit_def digit_value_def PY_INT_MAX_STR_DIGITS_def)

section \<open>Properties\<close>

text \<open>C40: \<open>parse_window_size\<close> reads back the decimal text of two integers: for any
  integers \<open>w\<close>, \<open>h\<close> the value \<open>f"{w}x{h}"\<close> or \<open>f"{w},{h}"\<close> parses to
  \<open>(max(320, w), max(240, h))\<close> when both have at most 4300 digits, and to \<open>None\<close>
  (the default window) otherwise, since \<open>int()\<close> then raises \<open>ValueError\<close>.\<close>

theorem parse_window_size_roundtrip:
  assumes "sep \<in> {CHR ''x'', CHR '',''}"
  shows "parse_window_size (Some (py_str_int w @ sep # py_str_int h)) =
           (if \<bar>w\<bar> < 10 ^ PY_INT_MAX_STR_DIGITS \<and> \<bar>h\<bar> < 10 ^ PY_INT_MAX_STR_DIGITS
            then Some (max 320 w, max 240 h) else None)"
proof -
  let ?t = "py_str_int w @ sep # py_str_int h"
  have plain: "\<forall>c\<in>set ?t. \<not> py_isspace c \<and> py_lower_char c = c \<and> c \<noteq> CHR '' ''"
    using assms py_str_int_char_plain by (auto simp: py_isspace_def py_lower_char_def)
  have "hd ?t \<in> set ?t" "last ?t \<in> set ?t" by (simp_all add: hd_append)
  then have strip: "py_strip ?t = ?t"
    using plain by (intro py_strip_id) auto
  have nx: "CHR ''x'' \<notin> set (py_str_int i)" "CHR '','' \<notin> set (py_str_int i)" for i
    using py_str_int_char_plain by blast+
  have split: "py_split sep ?t = [py_str_int w, py_str_int h]"
    using assms nx py_split_sep py_split_no_sep by auto
  have sel: "(if CHR ''x'' \<in> set ?t then CHR ''x'' else CHR '','') = sep"
    using assms nx by auto
  show ?thesis
    using strip plain_string_id [OF plain] split sel py_int_str [of w] py_int_str [of h]
    by (cases "\<bar>w\<bar> < 10 ^ PY_INT_MAX_STR_DIGITS"; cases "\<bar>h\<bar> < 10 ^ PY_INT_MAX_STR_DIGITS")
      (simp_all add: parse_window_size_def Let_def split del: if_split)
qed


text \<open>C28: a window size containing a character that \<open>int()\<close> cannot read, that is
  not a separator and not white space, is rejected: \<open>parse_window_size\<close> returns \<open>None\<close>
  and the game opens at the default 800 x 600.\<close>

theorem parse_window_size_bad_char:
  assumes "c \<in> set r" and "\<not> py_isspace c"
    and "\<not> is_digit (py_lower_char c)"
    and "py_lower_char c \<notin> {CHR ''_'', CHR ''+'', CHR ''-'', CHR ''x'', CHR '','', CHR '' ''}"
  shows "parse_window_size (Some r) = None \<and> si_screen (Some r) = \<lparr>scr_w = 800, scr_h = 600\<rparr>"
proof -
  define cl where "cl = remove_spaces (py_lower (py_strip r))"
  define sep where "sep = (if CHR ''x'' \<in> set cl then CHR ''x'' else CHR '','')"
  define parts where "parts = py_split sep cl"
  have eq: "parse_window_size (Some r) =
      (if length parts \<noteq> 2 then None
       else (case (py_int (parts ! 0), py_int (parts ! 1)) of
               (Some w, Some h) \<Rightarrow> Some (max 320 w, max 240 h) | _ \<Rightarrow> None))"
    using assms(1) by (auto simp: parse_window_size_def Let_def cl_def sep_def parts_def)
  have sp: "\<not> py_isspace (py_lower_char c)"
    using assms(2) py_lower_char_space by blast
  have "py_lower_char c \<in> set (py_lower (py_strip r))"
    using py_strip_keeps [OF assms(1,2)] by (simp add: py_lower_def)
  then have "py_lower_char c \<in> set cl" using assms(4) by (simp add: remove_spaces_def cl_def)
  moreover have "py_lower_char c \<noteq> sep" using assms(4) by (simp add: sep_def)
  ultimately obtain p where p: "p \<in> set parts" "py_lower_char c \<in> set p"
    using py_split_keeps unfolding parts_def by blast
  have bad: "py_int p = None" using py_int_bad [OF p(2) sp assms(3)] assms(4) by blast
  have "parse_window_size (Some r) = None"
  proof (cases "length parts = 2")
    case True
    then have "p = parts ! 0 \<or> p = parts ! 1"
      using p(1) by (auto simp: in_set_conv_nth less_2_cases_iff)
    then show ?thesis using True bad unfolding eq by (auto split: option.split)
  next
    case False
    then show ?thesis unfolding eq by simp
  qed
  then show ?thesis by (simp add: si_screen_def DEFAULT_SCREEN_WIDTH_def DEFAULT_SCREEN_HEIGHT_def)
qed

theorem bad_char_witness:
  "parse_window_size (Some ''800y600'') = None \<and> si_screen (Some ''800y600'') = \<lparr>scr_w = 800, scr_h = 600\<rparr>"
  by (rule parse_window_size_bad_char [of "CHR ''y''"])
     (simp_all add: py_isspace_def is_digit_def py_lower_char_def)


theorem roundtrip_witness:
  "CHR ''x'' \<in> {CHR ''x'', CHR '',''} \<and> parse_window_size (Some ''1024x768'') = Some (1024, 768) \<and>
   CHR '','' \<in> {CHR ''x'', CHR '',''} \<and> parse_window_size (Some ''-5,7'') = Some (320, 240)"
proof -
  have "py_str_int 1024 = ''1024''" "py_str_int 768 = ''768''" "py_str_int (-5) = ''-5''" "py_str_int 7 = ''7''"
    by (simp_all add: py_str_int_def nat_digits_big char_of_def bit_0)
  then show ?thesis
    using parse_window_size_roundtrip [of "CHR ''x''" 1024 768] parse_window_size_roundtrip [of "CHR '',''" "-5" 7]
      int_below_digit_limit [of 1024] int_below_digit_limit [of 768] int_below_digit_limit [of "-5"]
      int_below_digit_limit [of 7]
    by simp
qed

end
