(* ===== verification/Pygame_Draw.thy ===== *)
theory Pygame_Draw
  imports Pygame_Model
begin

text \<open>
  The drawing side of pygame, as the games call it: a frame is the list of drawing
  commands issued on the display surface, in order (\<open>surface.fill\<close>, the
  \<open>pygame.draw\<close> primitives, \<open>blit\<close> of another surface, and \<open>blit\<close> of the
  surface \<open>font.render\<close> returns). A surface built off screen and blitted is the list of
  commands that drew it. A colour is the tuple the code passes, as a list of ints: pygame
  accepts three or four components between 0 and 255 and raises \<open>ValueError\<close>
  (\<open>invalid color argument\<close>) on any other, so \<open>frame_ok\<close>, every colour of a frame
  valid, is the condition under which drawing the frame does not raise.
\<close>

type_synonym pg_colour = "int list"

text \<open>Where the text surface \<open>font.render(...)\<close> is blitted: at a top-left corner, or
  centred with \<open>get_rect(center=...)\<close>.\<close>

datatype anchor = Top_left | Centre

datatype draw_cmd =
    Fill pg_colour
  | Draw_rect pg_colour rect int int
  | Draw_circle pg_colour "int \<times> int" int int
  | Draw_ellipse pg_colour rect int
  | Draw_polygon pg_colour "(real \<times> real) list" int
  | Draw_line pg_colour "int \<times> int" "int \<times> int" int
  | Blit "int \<times> int" "draw_cmd list" "int \<times> int"
  | Text nat string pg_colour anchor "int \<times> int"

text \<open>The argument order follows pygame: \<open>rect(colour, rect, width, border_radius)\<close>,
  \<open>circle(colour, centre, radius, width)\<close>, \<open>ellipse(colour, rect, width)\<close>,
  \<open>polygon(colour, points, width)\<close>, \<open>line(colour, start, end, width)\<close> (width 0 fills);
  \<open>Blit size cmds dest\<close> blits a surface of the given size drawn by \<open>cmds\<close>; \<open>Text\<close>
  holds the font size, the string and the colour given to \<open>font.render\<close>.\<close>

definition rect_of :: "int \<Rightarrow> int \<Rightarrow> int \<Rightarrow> int \<Rightarrow> rect" where
  "rect_of x y w h = \<lparr>rx = x, ry = y, rw = w, rh = h\<rparr>"

definition colour_ok :: "pg_colour \<Rightarrow> bool" where
  "colour_ok c \<longleftrightarrow> (length c = 3 \<or> length c = 4) \<and> list_all (\<lambda>x. 0 \<le> x \<and> x \<le> 255) c"

fun cmd_colours :: "draw_cmd \<Rightarrow> pg_colour list" where
  "cmd_colours (Fill c) = [c]"
| "cmd_colours (Draw_rect c r w br) = [c]"
| "cmd_colours (Draw_circle c p r w) = [c]"
| "cmd_colours (Draw_ellipse c r w) = [c]"
| "cmd_colours (Draw_polygon c ps w) = [c]"
| "cmd_colours (Draw_line c p q w) = [c]"
| "cmd_colours (Blit sz cs p) = concat (map cmd_colours cs)"
| "cmd_colours (Text n s c a p) = [c]"

text \<open>The strings rendered by a command, with those of blitted surfaces.\<close>

fun cmd_texts :: "draw_cmd \<Rightarrow> string list" where
  "cmd_texts (Blit sz cs p) = concat (map cmd_texts cs)"
| "cmd_texts (Text n s c a p) = [s]"
| "cmd_texts _ = []"

definition frame_ok :: "draw_cmd list \<Rightarrow> bool" where
  "frame_ok cs \<longleftrightarrow> list_all colour_ok (concat (map cmd_colours cs))"

definition frame_texts :: "draw_cmd list \<Rightarrow> string list" where
  "frame_texts cs = concat (map cmd_texts cs)"

section \<open>Lemmas\<close>

lemma frame_ok_Nil [simp]: "frame_ok []"
  by (simp add: frame_ok_def)

lemma frame_ok_Cons [simp]: "frame_ok (c # cs) \<longleftrightarrow> list_all colour_ok (cmd_colours c) \<and> frame_ok cs"
  by (simp add: frame_ok_def)

lemma frame_ok_append [simp]: "frame_ok (cs @ ds) \<longleftrightarrow> frame_ok cs \<and> frame_ok ds"
  by (simp add: frame_ok_def)

lemma frame_ok_concat [simp]: "frame_ok (concat css) \<longleftrightarrow> (\<forall>cs\<in>set css. frame_ok cs)"
  by (induction css) auto

lemma frame_ok_map: "frame_ok (map f xs) \<longleftrightarrow> (\<forall>x\<in>set xs. list_all colour_ok (cmd_colours (f x)))"
  by (induction xs) auto

declare cmd_colours.simps(7) [simp del] cmd_texts.simps(1) [simp del]

lemma cmd_colours_Blit_ok [simp]: "list_all colour_ok (cmd_colours (Blit sz cs p)) \<longleftrightarrow> frame_ok cs"
  by (simp add: frame_ok_def cmd_colours.simps(7))

lemma colour_ok_3 [simp]:
  "colour_ok [r, g, b] \<longleftrightarrow> 0 \<le> r \<and> r \<le> 255 \<and> 0 \<le> g \<and> g \<le> 255 \<and> 0 \<le> b \<and> b \<le> 255"
  by (simp add: colour_ok_def)

lemma colour_ok_4 [simp]:
  "colour_ok [r, g, b, a] \<longleftrightarrow>
     0 \<le> r \<and> r \<le> 255 \<and> 0 \<le> g \<and> g \<le> 255 \<and> 0 \<le> b \<and> b \<le> 255 \<and> 0 \<le> a \<and> a \<le> 255"
  by (simp add: colour_ok_def)

lemma frame_texts_Nil [simp]: "frame_texts [] = []"
  by (simp add: frame_texts_def)

lemma frame_texts_Cons [simp]: "frame_texts (c # cs) = cmd_texts c @ frame_texts cs"
  by (simp add: frame_texts_def)

lemma frame_texts_append [simp]: "frame_texts (cs @ ds) = frame_texts cs @ frame_texts ds"
  by (simp add: frame_texts_def)

lemma concat_map_Nil [simp]: "concat (map (\<lambda>x. []) xs) = []"
  by (induction xs) auto

lemma frame_texts_map [simp]: "frame_texts (map f xs) = concat (map (\<lambda>x. cmd_texts (f x)) xs)"
  by (simp add: frame_texts_def comp_def)

lemma frame_texts_concat [simp]: "frame_texts (concat css) = concat (map frame_texts css)"
  by (induction css) auto

lemma cmd_texts_Blit [simp]: "cmd_texts (Blit sz cs p) = frame_texts cs"
  by (simp add: frame_texts_def cmd_texts.simps(1))

end
