(* ===== verification/SI_Render.thy ===== *)
theory SI_Render
  imports SI_Game Pygame_Draw Py_String
begin

text \<open>
  The drawing code of \<open>SpaceInvader.py\<close>: the sprites built once per object
  (\<open>Player.create_spaceship\<close>, \<open>Bullet\<close>'s laser, \<open>Alien.create_alien\<close>,
  \<open>AlienBullet\<close>'s plasma, \<open>PowerUp.create_image\<close>), the per-frame \<open>draw\<close> methods
  (\<open>Star\<close>, \<open>Particle\<close>, \<open>Player\<close>) and \<open>SpaceBattle.draw\<close> with
  \<open>draw_game_over\<close>. A frame is the list of drawing commands of \<open>Pygame_Draw\<close>.
  \<open>get_font(size)\<close> returns a font unless every fallback raises; which sizes load is the
  parameter \<open>fonts\<close>, fixed for the process. \<open>Player.draw\<close> also advances
  \<open>engine_glow\<close>, so \<open>si_render\<close> returns the state with it; that state is the
  \<open>si_draw\<close> of \<open>SI_Game\<close>.
\<close>

section \<open>Colours\<close>

definition si_rgb :: "colour \<Rightarrow> pg_colour" where
  "si_rgb c = (case c of (r, g, b) \<Rightarrow> [int r, int g, int b])"

definition WHITE :: colour where "WHITE = (255, 255, 255)"
definition BLACK :: colour where "BLACK = (0, 0, 0)"
definition GREEN :: colour where "GREEN = (0, 255, 0)"
definition BLUE :: colour where "BLUE = (0, 150, 255)"
definition YELLOW :: colour where "YELLOW = (255, 255, 0)"

section \<open>Sprites\<close>

text \<open>\<open>Player.create_spaceship\<close>: a 60 x 50 surface.\<close>

definition create_spaceship :: "draw_cmd list" where
  "create_spaceship =
     [Draw_polygon [200, 200, 220] [(30, 0), (15, 20), (20, 35), (10, 50), (50, 50), (40, 35), (45, 20)] 0,
      Draw_ellipse [100, 200, 255] (rect_of 22 8 16 18) 0,
      Draw_ellipse [200, 240, 255] (rect_of 24 10 12 12) 0,
      Draw_polygon [150, 150, 180] [(20, 20), (0, 30), (5, 40), (20, 35)] 0,
      Draw_polygon [150, 150, 180] [(40, 20), (60, 30), (55, 40), (40, 35)] 0,
      Draw_line (si_rgb CYAN) (30, 5) (30, 25) 2,
      Draw_circle [80, 80, 100] (15, 48) 4 0,
      Draw_circle [80, 80, 100] (45, 48) 4 0,
      Draw_circle (si_rgb ORANGE) (15, 48) 2 0,
      Draw_circle (si_rgb ORANGE) (45, 48) 2 0,
      Draw_line [150, 150, 170] (25, 15) (25, 30) 1,
      Draw_line [150, 150, 170] (35, 15) (35, 30) 1]"

text \<open>\<open>Bullet.__init__\<close>: the 4 x 18 laser.\<close>

definition bullet_image :: "draw_cmd list" where
  "bullet_image = [Draw_rect (si_rgb CYAN) (rect_of 0 0 4 18) 0 0, Draw_rect (si_rgb WHITE) (rect_of 1 0 2 6) 0 0]"

text \<open>\<open>Alien.create_alien\<close>: a 50 x 50 surface per kind; kinds other than 0 and 1 are
  the saucer.\<close>

definition create_alien :: "int \<Rightarrow> draw_cmd list" where
  "create_alien t =
     (if t = 0 then
        [Draw_circle (si_rgb RED) (25, 20) 18 0,
         Draw_circle [255, 255, 0] (17, 17) 6 0, Draw_circle [255, 255, 0] (33, 17) 6 0,
         Draw_circle (si_rgb BLACK) (17, 17) 3 0, Draw_circle (si_rgb BLACK) (33, 17) 3 0] @
        map (\<lambda>i. Draw_line (si_rgb RED) (8 + i * 8, 35) (8 + i * 8 - 3, 48) 3) [0..4]
      else if t = 1 then
        [Draw_ellipse (si_rgb PURPLE) (rect_of 10 15 30 25) 0,
         Draw_circle (si_rgb PURPLE) (25, 12) 10 0,
         Draw_circle [0, 255, 0] (20, 10) 4 0, Draw_circle [0, 255, 0] (30, 10) 4 0,
         Draw_circle (si_rgb BLACK) (20, 10) 2 0, Draw_circle (si_rgb BLACK) (30, 10) 2 0,
         Draw_line (si_rgb PURPLE) (18, 8) (12, 0) 2, Draw_line (si_rgb PURPLE) (32, 8) (38, 0) 2,
         Draw_circle [255, 255, 0] (12, 0) 2 0, Draw_circle [255, 255, 0] (38, 0) 2 0] @
        concat (map (\<lambda>i. [Draw_line (si_rgb PURPLE) (10, 20 + i * 5) (3, 20 + i * 5 + 8) 2,
                           Draw_line (si_rgb PURPLE) (40, 20 + i * 5) (47, 20 + i * 5 + 8) 2]) [0..2])
      else
        [Draw_ellipse (si_rgb ORANGE) (rect_of 5 20 40 15) 0,
         Draw_ellipse [255, 200, 0] (rect_of 10 18 30 10) 0,
         Draw_ellipse [200, 100, 0] (rect_of 15 10 20 18) 0,
         Draw_ellipse [255, 255, 100] (rect_of 18 12 14 12) 0] @
        map (\<lambda>i. Draw_circle (si_rgb CYAN) (12 + i * 8, 27) 2 0) [0..3])"

text \<open>\<open>AlienBullet.__init__\<close>: the 6 x 16 plasma.\<close>

definition alien_bullet_image :: "draw_cmd list" where
  "alien_bullet_image =
     [Draw_ellipse (si_rgb RED) (rect_of 0 0 6 16) 0, Draw_ellipse (si_rgb ORANGE) (rect_of 1 2 4 12) 0,
      Draw_ellipse (si_rgb YELLOW) (rect_of 2 4 2 8) 0]"

text \<open>\<open>PowerUp.create_image\<close>: a 25 x 25 surface; the \<open>"3X"\<close> label needs
  \<open>get_font(20)\<close>.\<close>

definition hexagon :: "real \<Rightarrow> real \<Rightarrow> real \<Rightarrow> real \<Rightarrow> (real \<times> real) list" where
  "hexagon cx cy r off = map (\<lambda>i. (cx + r * cos (pi / 3 * real i + off), cy + r * sin (pi / 3 * real i + off))) [0..<6]"

definition powerup_image :: "(nat \<Rightarrow> bool) \<Rightarrow> powerup_kind \<Rightarrow> draw_cmd list" where
  "powerup_image fonts k =
     (if k = Triple then
        [Draw_circle (si_rgb ORANGE) (12, 12) 12 0, Draw_circle (si_rgb YELLOW) (12, 12) 10 0] @
        (if fonts 20 then [Text 20 ''3X'' (si_rgb BLACK) Top_left (4, 6)] else [])
      else
        [Draw_circle (si_rgb CYAN) (12, 12) 12 0, Draw_circle (si_rgb BLUE) (12, 12) 10 0,
         Draw_polygon (si_rgb WHITE) (hexagon 12 12 7 0) 2])"

section \<open>Per-object drawing\<close>

definition star_draw :: "star \<Rightarrow> draw_cmd" where
  "star_draw st =
     Draw_circle [st_brightness st, st_brightness st, st_brightness st]
       (py_trunc (st_x st), py_trunc (st_y st)) (st_size st) 0"

text \<open>\<open>Particle.draw\<close>: only while the lifetime is positive. The fading alpha it computes
  is never passed to pygame.\<close>

definition particle_draw :: "particle \<Rightarrow> draw_cmd list" where
  "particle_draw p =
     (if 0 < pt_lifetime p
      then [Draw_circle (si_rgb (pt_color p)) (py_trunc (pt_x p), py_trunc (pt_y p)) (py_trunc (pt_size p)) 0]
      else [])"

text \<open>\<open>ParticleSystem.draw\<close>: every particle in list order.\<close>

definition ps_draw :: "particle list \<Rightarrow> draw_cmd list" where
  "ps_draw ps = concat (map particle_draw ps)"

text \<open>\<open>Player.draw\<close>: advances the glow, draws both engine flames, the ship, and while the
  shield is on a hexagon turning with the clock on a 90 x 80 surface.\<close>

definition player_draw :: "int \<Rightarrow> player \<Rightarrow> player \<times> draw_cmd list" where
  "player_draw ticks p =
     (let glow = (pl_engine_glow p + 1) mod 20;
          glow_size = 3 + glow div 5;
          engine_color = [255, 150 + glow * 5, 0];
          r = pl_rect p;
          ship = [Draw_circle engine_color (rect_left r + 15, rect_bottom r - 2) glow_size 0,
                  Draw_circle engine_color (rect_right r - 15, rect_bottom r - 2) glow_size 0,
                  Blit (60, 50) create_spaceship (rx r, ry r)];
          shield =
            (if pl_shield_active p then
               (let alpha = py_trunc (100 + 50 * sin (of_int ticks / 100));
                    points = hexagon 45 40 38 (of_int ticks / 500)
                in [Blit (90, 80) [Draw_polygon (si_rgb CYAN @ [alpha]) points 3,
                                   Draw_polygon (si_rgb BLUE @ [alpha div 2]) points 1]
                      (rx r - 15, ry r - 15)])
             else [])
      in (p\<lparr>pl_engine_glow := glow\<rparr>, ship @ shield))"

section \<open>\<open>SpaceBattle.draw\<close>\<close>

text \<open>The background gradient, one line per pixel row.\<close>

definition si_background :: "screen \<Rightarrow> draw_cmd list" where
  "si_background scr =
     map (\<lambda>y. let cv = py_trunc (10 + (of_int y / of_int (scr_h scr)) * 20)
               in Draw_line [cv, cv, cv + 20] (0, y) (scr_w scr, y) 1) [0..scr_h scr - 1]"

text \<open>The HUD panel and texts, drawn when \<open>get_font(32)\<close> and \<open>get_font(24)\<close> load.\<close>

definition si_hud :: "screen \<Rightarrow> battle \<Rightarrow> draw_cmd list" where
  "si_hud scr s =
     (let p = bt_player s
      in [Blit (scr_w scr, 60) [Fill [0, 0, 0, 120]] (0, 0),
          Text 32 (''SCORE: '' @ py_str_int (bt_score s)) (si_rgb YELLOW) Top_left (20, 15),
          Text 32 (''LEVEL: '' @ py_str_int (bt_level s)) (si_rgb CYAN) Top_left (scr_w scr div 2 - 60, 15),
          Text 32 (''LIVES: '' @ py_str_int (bt_lives s)) (si_rgb (if bt_lives s > 1 then GREEN else RED))
            Top_left (scr_w scr - 150, 15)] @
         (if pl_powerup_active p
          then [Text 24 (''TRIPLE SHOT: '' @ py_str_int (pl_powerup_timer p div 60) @ ''s'') (si_rgb ORANGE)
                  Top_left (20, 65)]
          else []) @
         (if pl_shield_active p
          then [Text 24 (''SHIELD: '' @ py_str_int (pl_shield_timer p div 60) @ ''s'') (si_rgb CYAN)
                  Top_left (20, if pl_powerup_active p then 90 else 65)]
          else []))"

text \<open>\<open>draw_game_over\<close>: the dark overlay, then the texts if the three fonts load.\<close>

definition si_game_over_panel :: "(nat \<Rightarrow> bool) \<Rightarrow> screen \<Rightarrow> battle \<Rightarrow> draw_cmd list" where
  "si_game_over_panel fonts scr s =
     (let w2 = scr_w scr div 2; h2 = scr_h scr div 2
      in Blit (scr_w scr, scr_h scr) [Fill [0, 0, 0, 200]] (0, 0) #
         (if fonts 90 \<and> fonts 48 \<and> fonts 36 then
            [Text 90 ''GAME OVER'' (si_rgb RED) Top_left (w2 - 230, h2 - 120),
             Text 48 (''Final Score: '' @ py_str_int (bt_score s)) (si_rgb YELLOW) Top_left (w2 - 160, h2 - 20),
             Text 36 (''Level Reached: '' @ py_str_int (bt_level s)) (si_rgb CYAN) Top_left (w2 - 130, h2 + 30),
             Text 36 (''Aliens Destroyed: '' @ py_str_int (bt_aliens_killed s)) (si_rgb GREEN) Top_left (w2 - 150, h2 + 70),
             Text 48 ''Press R to Restart'' (si_rgb WHITE) Top_left (w2 - 180, h2 + 130)]
          else []))"

text \<open>\<open>SpaceBattle.draw\<close>: background, stars, particles, the player, the sprites of the
  bullets, alien bullets, aliens and power-ups at their rectangles, then the HUD and the
  game-over panel; without the HUD fonts it returns before both.\<close>

definition si_render :: "(nat \<Rightarrow> bool) \<Rightarrow> screen \<Rightarrow> int \<Rightarrow> battle \<Rightarrow> battle \<times> draw_cmd list" where
  "si_render fonts scr ticks s =
     (let (p', player_cmds) = player_draw ticks (bt_player s);
          sprites =
            map (\<lambda>b. Blit (4, 18) bullet_image (rx (bl_rect b), ry (bl_rect b))) (pl_bullets p') @
            map (\<lambda>b. Blit (6, 16) alien_bullet_image (rx (ab_rect b), ry (ab_rect b))) (bt_alien_bullets s) @
            map (\<lambda>a. Blit (50, 50) (create_alien (al_type a)) (rx (al_rect a), ry (al_rect a))) (bt_aliens s) @
            map (\<lambda>u. Blit (25, 25) (powerup_image fonts (pu_type u)) (rx (pu_rect u), ry (pu_rect u)))
              (bt_powerups s);
          hud =
            (if fonts 32 \<and> fonts 24
             then si_hud scr s @ (if bt_game_state s = Game_over then si_game_over_panel fonts scr s else [])
             else [])
      in (s\<lparr>bt_player := p'\<rparr>,
          si_background scr @ map star_draw (bt_stars s) @ ps_draw (bt_particles s) @
          player_cmds @ sprites @ hud))"

section \<open>The render invariant\<close>

text \<open>What the frame's colours read from the state: every star's brightness and every
  particle's colour is a valid colour component. Every update pass \<open>keeps\<close> it.\<close>

definition star_ok :: "star \<Rightarrow> bool" where
  "star_ok st \<longleftrightarrow> 0 \<le> st_brightness st \<and> st_brightness st \<le> 255"

definition particle_ok :: "particle \<Rightarrow> bool" where
  "particle_ok p \<longleftrightarrow> colour_ok (si_rgb (pt_color p))"

definition render_inv :: "battle \<Rightarrow> bool" where
  "render_inv s \<longleftrightarrow> list_all star_ok (bt_stars s) \<and> list_all particle_ok (bt_particles s)"

section \<open>Lemmas\<close>

lemma colour_ok_si_rgb: "colour_ok (si_rgb (r, g, b)) \<longleftrightarrow> r \<le> 255 \<and> g \<le> 255 \<and> b \<le> 255"
  by (simp add: si_rgb_def)

lemma si_colours_ok [simp]:
  "colour_ok (si_rgb RED)" "colour_ok (si_rgb ORANGE)" "colour_ok (si_rgb PURPLE)" "colour_ok (si_rgb CYAN)"
  "colour_ok (si_rgb WHITE)" "colour_ok (si_rgb BLACK)" "colour_ok (si_rgb GREEN)" "colour_ok (si_rgb BLUE)"
  "colour_ok (si_rgb YELLOW)"
  by (simp_all add: si_rgb_def RED_def ORANGE_def PURPLE_def CYAN_def WHITE_def BLACK_def GREEN_def
      BLUE_def YELLOW_def)

lemma ps_emit_ok:
  "colour_ok (si_rgb c) \<Longrightarrow> list_all particle_ok ps \<Longrightarrow> list_all particle_ok (fst (ps_emit x y c n ps g))"
  by (induction n arbitrary: ps g) (simp_all add: particle_new_def particle_ok_def split_def Let_def)

lemma render_inv_emit: "colour_ok (si_rgb c) \<Longrightarrow> render_inv s \<Longrightarrow> render_inv (emit x y c n s)"
  by (simp add: render_inv_def emit_def split_def Let_def ps_emit_ok)

lemma move_aliens_loop_fields:
  "bt_stars (move_aliens_loop scr as s) = bt_stars s \<and> bt_particles (move_aliens_loop scr as s) = bt_particles s"
  by (induction scr as s rule: move_aliens_loop.induct) (simp_all add: lose_life_def Let_def)

lemma alien_shoot_loop_fields:
  "bt_stars (alien_shoot_loop as s) = bt_stars s \<and> bt_particles (alien_shoot_loop as s) = bt_particles s"
proof (induction as arbitrary: s)
  case (Cons a as)
  obtain ok a' g1 where c: "alien_can_shoot a (bt_rng s) = (ok, a', g1)"
    by (cases "alien_can_shoot a (bt_rng s)") auto
  then show ?case using alien_shoot_loop_step [OF c, of as] Cons.IH by fastforce
qed simp

lemma alien_bullets_loop_render: "render_inv s \<Longrightarrow> render_inv (alien_bullets_loop scr bs s)"
proof (induction scr bs s rule: alien_bullets_loop.induct)
  case (2 scr b bs s)
  have e: "render_inv (emit x y c n (s\<lparr>bt_lives := l\<rparr>))" if "colour_ok (si_rgb c)" for x y c n l
    using render_inv_emit [OF that] "2.prems" by (simp add: render_inv_def)
  have g: "render_inv (t\<lparr>bt_game_state := Game_over\<rparr>) = render_inv t" for t
    by (simp add: render_inv_def)
  show ?case
    using "2.IH" "2.prems" e g render_inv_emit [of CYAN s]
    by (simp add: Let_def render_inv_def [of "s\<lparr>bt_alien_bullets := _\<rparr>"]) (simp add: render_inv_def)
qed simp

lemma render_inv_kill_alien: "render_inv s \<Longrightarrow> render_inv (kill_alien a s)"
proof -
  assume inv: "render_inv s"
  have e: "render_inv (emit x y c n (s\<lparr>bt_score := sc, bt_aliens_killed := k\<rparr>))"
    if "colour_ok (si_rgb c)" for x y c n sc k
    using render_inv_emit [OF that] inv by (simp add: render_inv_def)
  have "render_inv t \<Longrightarrow> render_inv (t\<lparr>bt_level := l\<rparr>)"
    "render_inv t \<Longrightarrow> render_inv (t\<lparr>bt_powerups := ps, bt_rng := g\<rparr>)"
    "render_inv t \<Longrightarrow> render_inv (t\<lparr>bt_rng := g\<rparr>)" for t l ps g
    by (simp_all add: render_inv_def)
  with e show ?thesis by (simp add: kill_alien_def Let_def split_def)
qed

lemma collide_loop_render_inv: "render_inv s \<Longrightarrow> render_inv (collide_loop bs s)"
proof (induction bs arbitrary: s)
  case (Cons b bs)
  have u: "render_inv (s\<lparr>bt_player := q\<rparr>)" "render_inv (s\<lparr>bt_aliens := as\<rparr>)" for q as
    using Cons.prems by (simp_all add: render_inv_def)
  show ?case
    using Cons.IH u render_inv_kill_alien by (simp split: option.split prod.split)
qed simp

lemma powerups_loop_render_inv: "render_inv s \<Longrightarrow> render_inv (powerups_loop scr ps s)"
proof (induction ps arbitrary: s)
  case (Cons p ps)
  have u: "render_inv (s\<lparr>bt_player := q\<rparr>)" "render_inv (s\<lparr>bt_powerups := xs\<rparr>)" for q xs
    using Cons.prems by (simp_all add: render_inv_def)
  have c: "colour_ok (si_rgb (if k = Triple then ORANGE else CYAN))" for k by simp
  show ?case
    using Cons.IH Cons.prems u render_inv_emit [OF c, of "s\<lparr>bt_player := _\<rparr>"]
    by (simp add: Let_def)
qed simp

lemma ps_update_render: "list_all particle_ok ps \<Longrightarrow> list_all particle_ok (ps_update ps)"
  by (simp add: ps_update_def particle_update_def particle_ok_def list_all_iff Let_def)

lemma stars_loop_render: "list_all star_ok sts \<Longrightarrow> list_all star_ok (fst (stars_loop scr sts g))"
  by (induction sts arbitrary: g) (simp_all add: star_update_def star_ok_def split_def Let_def)

lemma keeps_render_loops:
  "keeps render_inv (update_alien_bullets scr)" "keeps render_inv check_collisions" "keeps render_inv (update_powerups scr)"
proof -
  have u: "render_inv s \<Longrightarrow> render_inv (s\<lparr>bt_alien_bullets := []\<rparr>)"
    "render_inv s \<Longrightarrow> render_inv (s\<lparr>bt_player := q\<rparr>)"
    "render_inv s \<Longrightarrow> render_inv (s\<lparr>bt_powerups := []\<rparr>)" for s q
    by (simp_all add: render_inv_def)
  show "keeps render_inv (update_alien_bullets scr)" "keeps render_inv check_collisions" "keeps render_inv (update_powerups scr)"
    using u alien_bullets_loop_render collide_loop_render_inv powerups_loop_render_inv
    by (simp_all add: keeps_def update_alien_bullets_def check_collisions_def update_powerups_def)
qed

lemma keeps_render_passes:
  "keeps render_inv (si_steer scr held)" "keeps render_inv (spawn_alien scr t)"
  "keeps render_inv (\<lambda>s. s\<lparr>bt_player := player_update_powerups (bt_player s)\<rparr>)"
  "keeps render_inv (\<lambda>s. s\<lparr>bt_player := player_update_bullets (bt_player s)\<rparr>)"
  "keeps render_inv (move_aliens scr)" "keeps render_inv alien_shoot" "keeps render_inv update_particles" "keeps render_inv (update_stars scr)"
  using move_aliens_loop_fields alien_shoot_loop_fields
  by (auto simp: keeps_def render_inv_def si_steer_def spawn_alien_def Let_def split_def move_aliens_def
      alien_shoot_def update_particles_def ps_update_render update_stars_def stars_loop_render
      simp del: move_aliens_loop.simps alien_shoot_loop.simps)

lemma keeps_render_si_update: "keeps render_inv (si_update scr inp)"
  unfolding si_update_passes
  by (intro keeps_comp keeps_render_passes keeps_render_loops)

lemma render_inv_reset [simp]: "render_inv (reset_game scr s) = render_inv s"
  by (simp add: render_inv_def reset_game_def)

lemma si_handle_events_render:
  "render_inv s \<Longrightarrow> si_handle_events scr es s = Some s' \<Longrightarrow> render_inv s'"
proof (induction scr es s rule: si_handle_events.induct)
  case (3 scr k es s)
  let ?n = "if k = K_SPACE \<and> bt_game_state s = Playing
            then s\<lparr>bt_player := player_shoot (bt_player s)\<rparr>
            else if k = K_r \<and> bt_game_state s = Game_over then reset_game scr s else s"
  have "render_inv ?n" using "3.prems"(1) by (simp add: render_inv_def reset_game_def)
  then show ?case using "3.IH" "3.prems"(2) by simp
qed simp_all

lemma render_inv_si_draw [simp]: "render_inv (si_draw s) = render_inv s"
  by (simp add: render_inv_def si_draw_def)

lemma si_frame_render:
  assumes "render_inv s" and "si_frame scr inp s = Some s'"
  shows "render_inv s'"
proof -
  obtain s1 where ev: "si_handle_events scr (fi_events inp) s = Some s1"
    and s': "s' = si_draw (if bt_game_state s1 = Playing then si_update scr inp s1 else s1)"
    using assms(2) by (auto simp: si_frame_def split: option.splits)
  have "render_inv s1" using si_handle_events_render [OF assms(1) ev] .
  moreover have "render_inv (si_update scr inp s1)"
    using calculation by (rule keepsD [OF keeps_render_si_update])
  ultimately show ?thesis using s' by simp
qed

lemma stars_new_render: "rng_ok g \<Longrightarrow> list_all star_ok (fst (stars_new scr n g))"
proof (induction n arbitrary: g)
  case (Suc n)
  obtain st g1 where st: "star_new scr g = (st, g1)" by (cases "star_new scr g") auto
  define g3 where "g3 = snd (uniform 0.5 2 (snd (randint 0 (scr_h scr) (snd (randint 0 (scr_w scr) g)))))"
  have g3: "rng_ok g3" using Suc.prems by (simp add: g3_def)
  have "star_ok st" "rng_ok g1"
    using st randint_range [OF g3, of 100 255] Suc.prems
    by (auto simp: star_new_def star_ok_def split_def Let_def g3_def)
  then show ?case using Suc.IH st by (simp add: split_def Let_def)
qed simp

lemma si_reachable_render: "si_reachable scr s \<Longrightarrow> render_inv s"
proof (induction rule: si_reachable.induct)
  case (start g)
  then show ?case using stars_new_render [of g scr 100]
    by (simp add: render_inv_def battle_new_def split_def Let_def)
next
  case (frame s inp s')
  then show ?case using si_frame_render by blast
qed

lemma sprites_ok [simp]:
  "frame_ok create_spaceship" "frame_ok bullet_image" "frame_ok (create_alien t)"
  "frame_ok alien_bullet_image" "frame_ok (powerup_image fonts k)"
  by (simp_all add: create_spaceship_def bullet_image_def create_alien_def alien_bullet_image_def
      powerup_image_def frame_ok_map)

lemma si_background_ok: "frame_ok (si_background scr)"
proof -
  have "colour_ok [cv, cv, cv + 20]" if "cv = py_trunc (10 + (of_int y / of_int (scr_h scr)) * 20)"
    and "y \<in> set [0..scr_h scr - 1]" for y cv
  proof -
    define q :: real where "q = of_int y / of_int (scr_h scr)"
    have y: "0 \<le> y" "y < scr_h scr" using that(2) by simp_all
    then have h: "(0::real) < of_int (scr_h scr)" by simp
    have "0 \<le> q" using y h by (simp add: q_def divide_nonneg_nonneg)
    moreover have "q \<le> 1" using y h by (simp add: q_def)
    ultimately have "of_int 10 \<le> 10 + q * 20" "10 + q * 20 \<le> of_int 30" by simp_all
    then have "10 \<le> cv \<and> cv \<le> 30" using py_trunc_between that(1) q_def by blast
    then show ?thesis by simp
  qed
  then show ?thesis by (simp add: si_background_def frame_ok_map Let_def)
qed

lemma player_draw_ok: "frame_ok (snd (player_draw t p))"
proof -
  define glow where "glow = (pl_engine_glow p + 1) mod 20"
  have g: "0 \<le> glow" "glow \<le> 19" by (simp_all add: glow_def)
  define x :: real where "x = of_int t / 100"
  define a where "a = py_trunc (100 + 50 * sin x)"
  have "-1 \<le> sin x" "sin x \<le> 1" by (simp_all add: sin_ge_minus_one)
  then have "of_int 50 \<le> 100 + 50 * sin x" "100 + 50 * sin x \<le> of_int 150" by linarith+
  then have "50 \<le> a \<and> a \<le> 150" unfolding a_def by (rule py_trunc_between)
  moreover from this have "a div 2 \<le> 255" by linarith
  ultimately show ?thesis using g
    by (simp add: player_draw_def Let_def glow_def [symmetric] x_def [symmetric] a_def [symmetric]
        si_rgb_def CYAN_def BLUE_def)
qed

lemma player_draw_state: "fst (player_draw t p) = p\<lparr>pl_engine_glow := (pl_engine_glow p + 1) mod 20\<rparr>"
  by (simp add: player_draw_def Let_def)

lemma si_hud_ok: "frame_ok (si_hud scr s)"
  by (simp add: si_hud_def Let_def)

lemma si_game_over_panel_ok: "frame_ok (si_game_over_panel fonts scr s)"
  by (simp add: si_game_over_panel_def Let_def)

lemma si_render_state: "fst (si_render fonts scr t s) = si_draw s"
  by (simp add: si_render_def split_def Let_def player_draw_state si_draw_def)

text \<open>\<open>Particle.draw\<close> computes an alpha from the remaining lifetime but never passes
  it to pygame: a live particle is drawn the same at every lifetime, so it does not fade.\<close>

lemma particle_draw_no_fade:
  "0 < l \<Longrightarrow> 0 < l' \<Longrightarrow>
     particle_draw (p\<lparr>pt_lifetime := l\<rparr>) = particle_draw (p\<lparr>pt_lifetime := l'\<rparr>)"
  by (simp add: particle_draw_def)

lemma particle_draw_no_fade_witness:
  "particle_draw (\<lparr>pt_x = 0, pt_y = 0, pt_color = (255, 0, 0), pt_vx = 0, pt_vy = 0,
                  pt_lifetime = 1, pt_size = 2\<rparr>)
   = particle_draw (\<lparr>pt_x = 0, pt_y = 0, pt_color = (255, 0, 0), pt_vx = 0, pt_vy = 0,
                  pt_lifetime = 40, pt_size = 2\<rparr>)"
  using particle_draw_no_fade [of 1 40 "\<lparr>pt_x = 0, pt_y = 0, pt_color = (255, 0, 0), pt_vx = 0,
    pt_vy = 0, pt_lifetime = 40, pt_size = 2\<rparr>"] by simp

lemma sprite_texts [simp]:
  "frame_texts create_spaceship = []" "frame_texts bullet_image = []" "frame_texts (create_alien k) = []"
  "frame_texts alien_bullet_image = []"
  "frame_texts (powerup_image fonts u) = (if u = Triple \<and> fonts 20 then [''3X''] else [])"
  by (simp_all add: create_spaceship_def bullet_image_def create_alien_def alien_bullet_image_def
      powerup_image_def)

lemma player_draw_texts [simp]: "frame_texts (snd (player_draw t p)) = []"
  by (simp add: player_draw_def Let_def)

lemma si_render_texts:
  "frame_texts (snd (si_render fonts scr t s)) =
     concat (map (\<lambda>u. if pu_type u = Triple \<and> fonts 20 then [''3X''] else []) (bt_powerups s)) @
     (if fonts 32 \<and> fonts 24
      then frame_texts (si_hud scr s) @
           (if bt_game_state s = Game_over then frame_texts (si_game_over_panel fonts scr s) else [])
      else [])"
  by (simp add: si_render_def split_def Let_def si_background_def star_draw_def ps_draw_def
      particle_draw_def frame_texts_def [symmetric])

text \<open>The shield countdown is in the frame exactly when the HUD fonts load and the
  shield is up, and it shows the timer in whole seconds.\<close>

lemma si_render_shield_text:
  "''SHIELD: '' @ py_str_int k @ ''s'' \<in> set (frame_texts (snd (si_render fonts scr t s))) \<longleftrightarrow>
     fonts 32 \<and> fonts 24 \<and> pl_shield_active (bt_player s) \<and> k = pl_shield_timer (bt_player s) div 60"
  by (auto simp: si_render_texts si_hud_def si_game_over_panel_def Let_def py_str_int_inj split: if_splits)

section \<open>Properties\<close>

text \<open>C13: in every state a run of Space Invader reaches, whatever fonts load and
  whatever the clock, every colour the frame passes to pygame (background, stars,
  particles, engine flames, shield, sprites, HUD, game-over panel) is a valid colour, so
  \<open>draw()\<close> never raises \<open>ValueError\<close>.\<close>

theorem si_render_colours_ok:
  assumes "si_reachable scr s"
  shows "frame_ok (snd (si_render fonts scr t s))"
proof -
  have inv: "render_inv s" using si_reachable_render [OF assms] .
  then have "frame_ok (map star_draw (bt_stars s))"
    by (auto simp: render_inv_def frame_ok_map star_draw_def star_ok_def list_all_iff)
  moreover have "frame_ok (ps_draw (bt_particles s))"
    using inv by (auto simp: render_inv_def ps_draw_def particle_draw_def particle_ok_def list_all_iff)
  ultimately show ?thesis
    using si_background_ok player_draw_ok [of t "bt_player s"] si_hud_ok si_game_over_panel_ok
    by (simp add: si_render_def split_def Let_def frame_ok_map)
qed

theorem si_render_colours_ok_witness:
  "let scr = \<lparr>scr_w = 800, scr_h = 600\<rparr>; s = battle_new scr \<lparr>rnd_src = \<lambda>_. 0, rnd_pos = 0\<rparr>
   in si_reachable scr s \<and> frame_ok (snd (si_render (\<lambda>_. True) scr 0 s))"
proof -
  define scr :: screen where "scr = \<lparr>scr_w = 800, scr_h = 600\<rparr>"
  define s where "s = battle_new scr \<lparr>rnd_src = \<lambda>_. 0, rnd_pos = 0\<rparr>"
  have r: "si_reachable scr s" unfolding s_def by (rule si_reachable.start) simp
  show ?thesis using r si_render_colours_ok [OF r, of "\<lambda>_. True" 0]
    by (simp add: Let_def scr_def [symmetric] s_def [symmetric])
qed

text \<open>C16: when the HUD fonts load, the frame shows \<open>SCORE: \<close>, \<open>LIVES: \<close> and
  \<open>LEVEL: \<close> followed by the decimal value of each counter, and it shows
  \<open>GAME OVER\<close> exactly when the game is over and the three panel fonts load.\<close>

theorem si_hud_shows:
  assumes "fonts 32" and "fonts 24"
  shows "''SCORE: '' @ py_str_int (bt_score s) \<in> set (frame_texts (snd (si_render fonts scr t s))) \<and>
         ''LIVES: '' @ py_str_int (bt_lives s) \<in> set (frame_texts (snd (si_render fonts scr t s))) \<and>
         ''LEVEL: '' @ py_str_int (bt_level s) \<in> set (frame_texts (snd (si_render fonts scr t s))) \<and>
         (''GAME OVER'' \<in> set (frame_texts (snd (si_render fonts scr t s))) \<longleftrightarrow>
            bt_game_state s = Game_over \<and> fonts 90 \<and> fonts 48 \<and> fonts 36)"
  using assms by (auto simp: si_render_texts si_hud_def si_game_over_panel_def Let_def split: if_splits)

theorem si_hud_shows_witness:
  "let scr = \<lparr>scr_w = 800, scr_h = 600\<rparr>;
       s = (battle_new scr \<lparr>rnd_src = \<lambda>_. 0, rnd_pos = 0\<rparr>)\<lparr>bt_lives := -1, bt_game_state := Game_over\<rparr>
   in ''LIVES: -1'' \<in> set (frame_texts (snd (si_render (\<lambda>_. True) scr 0 s))) \<and>
      ''GAME OVER'' \<in> set (frame_texts (snd (si_render (\<lambda>_. True) scr 0 s)))"
proof -
  define scr :: screen where "scr = \<lparr>scr_w = 800, scr_h = 600\<rparr>"
  define s where "s = (battle_new scr \<lparr>rnd_src = \<lambda>_. 0, rnd_pos = 0\<rparr>)\<lparr>bt_lives := -1, bt_game_state := Game_over\<rparr>"
  have l: "bt_lives s = -1" "bt_game_state s = Game_over" by (simp_all add: s_def)
  have m: "py_str_int (-1) = ''-1''" by (simp add: py_str_int_def char_of_def bit_0)
  show ?thesis using si_hud_shows [of "\<lambda>_. True" s scr 0] l m
    by (simp add: Let_def scr_def [symmetric] s_def [symmetric])
qed

end
