(* ===== verification/Pong_Render.thy ===== *)
theory Pong_Render
  imports Pong Pygame_Draw Py_String
begin

text \<open>
  The drawing code of \<open>pong.py\<close>: the overlays pre-rendered once at start-up
  (\<open>make_scanlines\<close>, \<open>make_vignette\<close>, \<open>make_field_bg\<close>), \<open>pixel_text\<close>, the
  paddle surface (\<open>Paddle._make_surf\<close>) and \<open>Paddle.draw\<close>, \<open>Ball.draw\<close> with its
  trail, \<open>draw_hud\<close>, and the pictures of one frame of \<open>game()\<close> and of
  \<open>win_screen\<close>. The three fonts are loaded at start-up by \<open>SysFont\<close>, which falls
  back to a default font instead of failing, so they are always present; a text is
  identified by the font's point size. The millisecond clock read by \<open>draw_hud\<close> is the
  parameter \<open>ticks\<close>.
\<close>

section \<open>Colours and helpers\<close>

definition PONG_BLACK :: pg_colour where "PONG_BLACK = [0, 0, 0]"
definition PONG_GREEN :: pg_colour where "PONG_GREEN = [0, 255, 70]"
definition GREEN_DIM :: pg_colour where "GREEN_DIM = [0, 80, 25]"
definition GREEN_DARK :: pg_colour where "GREEN_DARK = [0, 20, 8]"
definition AMBER :: pg_colour where "AMBER = [255, 180, 0]"
definition AMBER_DIM :: pg_colour where "AMBER_DIM = [100, 60, 0]"
definition PONG_WHITE :: pg_colour where "PONG_WHITE = [255, 255, 255]"

lemmas pong_colours = PONG_BLACK_def PONG_GREEN_def GREEN_DIM_def GREEN_DARK_def AMBER_def
  AMBER_DIM_def PONG_WHITE_def

section \<open>Pre-rendered overlays\<close>

definition make_scanlines :: "screen \<Rightarrow> draw_cmd list" where
  "make_scanlines scr = map (\<lambda>y. Draw_line [0, 0, 0, 60] (0, y) (scr_w scr, y) 1) (py_range 0 (scr_h scr) 3)"

definition make_vignette :: "screen \<Rightarrow> draw_cmd list" where
  "make_vignette scr =
     map (\<lambda>i. let alpha = py_trunc (160 * (1 - of_int i / 80))
             in Draw_rect [0, 0, 0, alpha] (rect_of i i (scr_w scr - i * 2) (scr_h scr - i * 2)) 1 0) [0..79]"

definition make_field_bg :: "screen \<Rightarrow> draw_cmd list" where
  "make_field_bg scr =
     [Fill PONG_BLACK] @
     map (\<lambda>gx. Draw_line GREEN_DARK (gx, 0) (gx, scr_h scr) 1) (py_range 0 (scr_w scr) 80) @
     map (\<lambda>gy. Draw_line GREEN_DARK (0, gy) (scr_w scr, gy) 1) (py_range 0 (scr_h scr) 80) @
     map (\<lambda>y. Draw_rect GREEN_DIM (rect_of (scr_w scr div 2 - 4) y 8 14) 0 0) (py_range 0 (scr_h scr) 24) @
     [Draw_rect PONG_GREEN (rect_of 0 0 (scr_w scr) 8) 0 0,
      Draw_rect PONG_GREEN (rect_of 0 (scr_h scr - 8) (scr_w scr) 8) 0 0]"

text \<open>\<open>pixel_text\<close>: an optional dark shadow three pixels down and right, then the text,
  both centred.\<close>

definition pixel_text :: "string \<Rightarrow> nat \<Rightarrow> pg_colour \<Rightarrow> int \<Rightarrow> int \<Rightarrow> bool \<Rightarrow> draw_cmd list" where
  "pixel_text text fsize colour cx cy shadow =
     (if shadow then [Text fsize text GREEN_DARK Centre (cx + 3, cy + 3)] else []) @
     [Text fsize text colour Centre (cx, cy)]"

section \<open>Paddles and ball\<close>

text \<open>\<open>Paddle._make_surf\<close>: a dimmed frame (each component times 0.25, truncated), the
  paddle and a white highlight, with rounded corners.\<close>

definition paddle_surf :: "pg_colour \<Rightarrow> draw_cmd list" where
  "paddle_surf colour =
     (let dim = map (\<lambda>c. py_trunc (of_int c * 0.25)) colour
      in [Draw_rect dim (rect_of 0 0 (PAD_W + 8) (PAD_H + 8)) 0 4,
          Draw_rect colour (rect_of 4 4 PAD_W PAD_H) 0 4,
          Draw_rect PONG_WHITE (rect_of 6 8 4 (PAD_H - 16)) 0 2])"

definition paddle_draw :: "pg_colour \<Rightarrow> paddle \<Rightarrow> draw_cmd" where
  "paddle_draw colour p = Blit (PAD_W + 8, PAD_H + 8) (paddle_surf colour) (pd_x p - 4, py_trunc (pd_y p) - 4)"

text \<open>\<open>Ball.draw\<close>: the trail, older points darker and smaller, then the ball with its
  glow and highlight.\<close>

definition trail_dot :: "nat \<Rightarrow> nat \<Rightarrow> int \<times> int \<Rightarrow> draw_cmd" where
  "trail_dot n i p =
     (let alpha = real (i + 1) / real (max n 1);
          g = py_trunc (120 * alpha)
      in Draw_circle [0, g, py_trunc (30 * alpha)] p (max 3 (py_trunc (of_int BALL_R * alpha * 0.6))) 0)"

definition ball_draw :: "ball \<Rightarrow> draw_cmd list" where
  "ball_draw b =
     map (\<lambda>(i, p). trail_dot (length (b_trail b)) i p) (enumerate 0 (b_trail b)) @
     [Draw_circle GREEN_DIM (py_trunc (b_x b), py_trunc (b_y b)) (BALL_R + 4) 0,
      Draw_circle PONG_GREEN (py_trunc (b_x b), py_trunc (b_y b)) BALL_R 0,
      Draw_circle PONG_WHITE (py_trunc (b_x b) - 3, py_trunc (b_y b) - 3) 3 0]"

section \<open>HUD and frames\<close>

definition HINT :: string where "HINT = ''[ UP/DN ] BEWEEG    [ P ] PAUZE    [ ESC ] STOP''"

definition draw_hud :: "screen \<Rightarrow> int \<Rightarrow> int \<Rightarrow> int \<Rightarrow> bool \<Rightarrow> draw_cmd list" where
  "draw_hud scr ticks score_p score_ai paused =
     (let w = scr_w scr; h = scr_h scr
      in pixel_text (py_str_int score_p) 96 PONG_GREEN (w div 4) 70 True @
         pixel_text (py_str_int score_ai) 96 AMBER (w * 3 div 4) 70 True @
         pixel_text ''< SPELER >'' 22 GREEN_DIM (w div 4) 130 False @
         pixel_text ''<  A.I.  >'' 22 AMBER_DIM (w * 3 div 4) 130 False @
         pixel_text HINT 22 GREEN_DIM (w div 2) (h - 22) False @
         (if (ticks div 700) mod 2 = 0
          then pixel_text ''* EERSTE TOT 7 WINT *'' 22 GREEN_DIM (w div 2) (h - 50) False else []) @
         (if paused
          then Blit (w, h) [Fill [0, 0, 0, 170]] (0, 0) #
               pixel_text ''** PAUZE **'' 42 PONG_GREEN (w div 2) (h div 2) True @
               pixel_text ''DRUK  P  OM  VERDER  TE  GAAN'' 22 GREEN_DIM (w div 2) (h div 2 + 60) True
          else []))"

text \<open>The picture \<open>game()\<close> flips: field, both paddles, ball, HUD, then the scanline and
  vignette overlays.\<close>

definition pong_picture :: "screen \<Rightarrow> int \<Rightarrow> pong \<Rightarrow> bool \<Rightarrow> draw_cmd list" where
  "pong_picture scr ticks s paused =
     Blit (scr_w scr, scr_h scr) (make_field_bg scr) (0, 0) #
     paddle_draw PONG_GREEN (pg_player s) # paddle_draw AMBER (pg_ai s) #
     ball_draw (pg_ball s) @ draw_hud scr ticks (pg_score_p s) (pg_score_ai s) paused @
     [Blit (scr_w scr, scr_h scr) (make_scanlines scr) (0, 0),
      Blit (scr_w scr, scr_h scr) (make_vignette scr) (0, 0)]"

text \<open>The pictures one iteration of \<open>game()\<close> flips after its events, in order: a paused
  game is redrawn as it is; a point is drawn with the new score before the match ends or the
  ball is served again, and a served ball is drawn once more at the end of the iteration,
  after \<open>pygame.time.delay(400)\<close>; \<open>later\<close> is the clock read by that last
  \<open>draw_hud\<close>.\<close>

definition pong_pictures :: "screen \<Rightarrow> int \<Rightarrow> int \<Rightarrow> (key \<Rightarrow> bool) \<Rightarrow> pong \<Rightarrow> draw_cmd list list" where
  "pong_pictures scr ticks later held s =
     (if pg_paused s then [pong_picture scr ticks s True]
      else
        (let player = move_player scr (held K_UP) (held K_DOWN) (pg_player s);
             ai = move_ai scr (b_y (pg_ball s)) (pg_ai s);
             (res, b) = ball_update scr player ai (pg_ball s);
             s1 = s\<lparr>pg_player := player, pg_ai := ai, pg_ball := b\<rparr>
         in case res of
              None \<Rightarrow> [pong_picture scr ticks s1 False]
            | Some r \<Rightarrow>
                (let s2 = (if r = Point_player
                           then s1\<lparr>pg_score_p := pg_score_p s1 + 1, pg_direction := -1\<rparr>
                           else s1\<lparr>pg_score_ai := pg_score_ai s1 + 1, pg_direction := 1\<rparr>)
                 in pong_picture scr ticks s2 False #
                    (case pong_point scr r s1 of
                       Match s3 \<Rightarrow> [pong_picture scr later s3 False]
                     | Win_screen w t g \<Rightarrow> []))))"

text \<open>One picture of \<open>win_screen(winner)\<close> at frame \<open>t\<close>: the border blinks every 20
  frames and the word \<open>WINNAAR\<close> flashes white every 15.\<close>

definition win_picture :: "screen \<Rightarrow> string \<Rightarrow> int \<Rightarrow> draw_cmd list" where
  "win_picture scr winner t =
     (let w = scr_w scr; h = scr_h scr;
          colour = (if winner = ''SPELER'' then PONG_GREEN else AMBER);
          flash = (if (t div 15) mod 2 = 0 then PONG_WHITE else colour)
      in Blit (w, h) (make_field_bg scr) (0, 0) #
         (if (t div 20) mod 2 = 0 then [Draw_rect colour (rect_of 40 40 (w - 80) (h - 80)) 4 0] else []) @
         pixel_text ''** GAME  OVER **'' 42 GREEN_DIM (w div 2) (h div 2 - 130) True @
         pixel_text ''WINNAAR'' 96 flash (w div 2) (h div 2 - 40) True @
         pixel_text winner 96 colour (w div 2) (h div 2 + 70) True @
         pixel_text ''DRUK  ENTER  OM  OPNIEUW  TE  SPELEN'' 22 GREEN_DIM (w div 2) (h div 2 + 160) True @
         [Blit (w, h) (make_scanlines scr) (0, 0), Blit (w, h) (make_vignette scr) (0, 0)])"

text \<open>The pictures of one frame of the process: those of \<open>game()\<close> after its events, or
  the one picture of the win screen unless enter returns from it (\<open>QUIT\<close> exits first).\<close>

fun pong_frame_pictures :: "screen \<Rightarrow> frame_input \<Rightarrow> int \<Rightarrow> pong_phase \<Rightarrow> draw_cmd list list" where
  "pong_frame_pictures scr inp later (Match s) =
     (case pong_events (fi_events inp) s of
        None \<Rightarrow> []
      | Some s' \<Rightarrow> pong_pictures scr (fi_ticks inp) later (fi_held inp) s')"
| "pong_frame_pictures scr inp later (Win_screen w t g) =
     (case win_events (fi_events inp) of
        Some False \<Rightarrow> [win_picture scr w (t + 1)]
      | _ \<Rightarrow> [])"

section \<open>Lemmas\<close>

lemma pong_colours_ok [simp]:
  "colour_ok PONG_BLACK" "colour_ok PONG_GREEN" "colour_ok GREEN_DIM" "colour_ok GREEN_DARK"
  "colour_ok AMBER" "colour_ok AMBER_DIM" "colour_ok PONG_WHITE"
  by (simp_all add: pong_colours)

lemma pixel_text_ok [simp]: "frame_ok (pixel_text txt n c x y sh) \<longleftrightarrow> colour_ok c"
  by (simp add: pixel_text_def)

lemma pixel_text_texts [simp]:
  "frame_texts (pixel_text txt n c x y sh) = (if sh then [txt, txt] else [txt])"
  by (simp add: pixel_text_def)

lemma overlays_ok [simp]: "frame_ok (make_scanlines scr)" "frame_ok (make_field_bg scr)"
  by (simp_all add: make_scanlines_def make_field_bg_def frame_ok_map)

lemma make_vignette_ok [simp]: "frame_ok (make_vignette scr)"
proof -
  have "0 \<le> py_trunc (160 * (1 - of_int i / 80)) \<and> py_trunc (160 * (1 - of_int i / 80)) \<le> 255"
    if "i \<in> set [0..79]" for i
  proof (rule py_trunc_between)
    have "160 * (1 - of_int i / 80) = (160 - 2 * of_int i :: real)" by (simp add: algebra_simps)
    then show "of_int 0 \<le> (160 * (1 - of_int i / 80) :: real)" "(160 * (1 - of_int i / 80) :: real) \<le> of_int 255"
      using that by simp_all
  qed
  then show ?thesis by (simp add: make_vignette_def frame_ok_map Let_def)
qed

lemma dim_colour_ok:
  assumes "colour_ok c"
  shows "colour_ok (map (\<lambda>x. py_trunc (of_int x * 0.25)) c)"
proof -
  have b: "0 \<le> py_trunc (of_int x * 0.25) \<and> py_trunc (of_int x * 0.25) \<le> 255" if "x \<in> set c" for x
  proof -
    have "0 \<le> x" "x \<le> 255" using assms that by (auto simp: colour_ok_def list_all_iff)
    then show ?thesis by (intro py_trunc_between) simp_all
  qed
  have "length c = 3 \<or> length c = 4" using assms by (simp add: colour_ok_def)
  with b show ?thesis unfolding colour_ok_def list_all_iff set_map length_map by blast
qed

lemma paddle_draw_ok [simp]: "colour_ok c \<Longrightarrow> list_all colour_ok (cmd_colours (paddle_draw c p))"
  using dim_colour_ok [of c] by (simp add: paddle_draw_def paddle_surf_def Let_def)

lemma trail_dot_ok: "i < n \<Longrightarrow> list_all colour_ok (cmd_colours (trail_dot n i p))"
proof -
  assume i: "i < n"
  define a where "a = real (i + 1) / real (max n 1)"
  have a: "0 \<le> a" "a \<le> 1" using i by (simp_all add: a_def)
  have "0 \<le> py_trunc (120 * a) \<and> py_trunc (120 * a) \<le> 120"
    using a by (intro py_trunc_between) simp_all
  moreover have "0 \<le> py_trunc (30 * a) \<and> py_trunc (30 * a) \<le> 30"
    using a by (intro py_trunc_between) simp_all
  moreover have "trail_dot n i p =
      Draw_circle [0, py_trunc (120 * a), py_trunc (30 * a)] p (max 3 (py_trunc (of_int BALL_R * a * 0.6))) 0"
    by (simp add: trail_dot_def Let_def a_def)
  ultimately show ?thesis by simp
qed

lemma ball_draw_ok [simp]: "frame_ok (ball_draw b)"
proof -
  have "list_all colour_ok (cmd_colours (trail_dot (length (b_trail b)) (fst x) (snd x)))"
    if "x \<in> set (enumerate 0 (b_trail b))" for x
    using that by (intro trail_dot_ok) (simp add: in_set_enumerate_eq)
  then show ?thesis by (auto simp: ball_draw_def frame_ok_map split_def)
qed

lemma draw_hud_ok [simp]: "frame_ok (draw_hud scr t p a paused)"
  by (simp add: draw_hud_def Let_def)

lemma pong_picture_ok: "frame_ok (pong_picture scr t s paused)"
  by (simp add: pong_picture_def)

lemma win_picture_ok: "frame_ok (win_picture scr w t)"
  by (simp add: win_picture_def Let_def)

lemma pong_pictures_cases:
  assumes "pic \<in> set (pong_pictures scr t t' held s)"
  shows "\<exists>tk u p. pic = pong_picture scr tk u p"
proof (cases "pg_paused s")
  case True
  then show ?thesis using assms by (auto simp: pong_pictures_def)
next
  case False
  define player where "player = move_player scr (held K_UP) (held K_DOWN) (pg_player s)"
  define ai where "ai = move_ai scr (b_y (pg_ball s)) (pg_ai s)"
  obtain res b where rb: "ball_update scr player ai (pg_ball s) = (res, b)" by (cases "ball_update scr player ai (pg_ball s)")
  define s1 where "s1 = s\<lparr>pg_player := player, pg_ai := ai, pg_ball := b\<rparr>"
  have eq: "pong_pictures scr t t' held s =
     (case res of
        None \<Rightarrow> [pong_picture scr t s1 False]
      | Some r \<Rightarrow>
          (let s2 = (if r = Point_player
                     then s1\<lparr>pg_score_p := pg_score_p s1 + 1, pg_direction := -1\<rparr>
                     else s1\<lparr>pg_score_ai := pg_score_ai s1 + 1, pg_direction := 1\<rparr>)
           in pong_picture scr t s2 False #
              (case pong_point scr r s1 of
                 Match s3 \<Rightarrow> [pong_picture scr t' s3 False]
               | Win_screen w tt g \<Rightarrow> [])))"
    using False rb unfolding pong_pictures_def Let_def player_def ai_def s1_def by simp
  show ?thesis using assms unfolding eq
    by (auto simp: Let_def split: option.splits pong_phase.splits)
qed

lemma pong_pictures_ok: "pic \<in> set (pong_pictures scr t t' held s) \<Longrightarrow> frame_ok pic"
  using pong_pictures_cases pong_picture_ok by blast

lemma py_str_int_not_star: "hd (py_str_int i) \<noteq> CHR ''*''"
proof -
  have "hd (py_str_int i) \<in> set (py_str_int i)" by simp
  then have "is_digit (hd (py_str_int i)) \<or> hd (py_str_int i) = CHR ''-''" by (rule py_str_int_chars)
  then show ?thesis by (auto simp: is_digit_def)
qed

lemma draw_hud_texts:
  "frame_texts (draw_hud scr t p a paused) =
     [py_str_int p, py_str_int p, py_str_int a, py_str_int a, ''< SPELER >'', ''<  A.I.  >'', HINT] @
     (if (t div 700) mod 2 = 0 then [''* EERSTE TOT 7 WINT *''] else []) @
     (if paused then [''** PAUZE **'', ''** PAUZE **'', ''DRUK  P  OM  VERDER  TE  GAAN'', ''DRUK  P  OM  VERDER  TE  GAAN''] else [])"
  by (simp add: draw_hud_def Let_def)

lemma pong_picture_texts:
  "frame_texts (pong_picture scr t s paused) = frame_texts (draw_hud scr t (pg_score_p s) (pg_score_ai s) paused)"
  by (simp add: pong_picture_def make_field_bg_def make_scanlines_def make_vignette_def paddle_draw_def
      paddle_surf_def ball_draw_def trail_dot_def Let_def split_def)

section \<open>Properties\<close>

text \<open>C26: no picture Pong draws can raise on a colour: in every frame of the process,
  whatever the state, the clock and the screen, every colour passed to pygame (field, grid,
  paddles and their dimmed frames, the fading trail, HUD, pause overlay, win screen,
  scanlines and vignette) has three or four components between 0 and 255.\<close>

theorem pong_frame_pictures_ok: "list_all frame_ok (pong_frame_pictures scr inp later ph)"
proof (cases ph)
  case (Match s)
  then show ?thesis using pong_pictures_ok by (auto simp: list_all_iff split: option.splits)
next
  case (Win_screen w t g)
  then show ?thesis by (auto simp: win_picture_ok split: option.splits bool.splits)
qed

text \<open>Every picture of a match shows both scores as \<open>str()\<close> writes them, and
  the text \<open>** PAUZE **\<close> exactly when the game is paused.\<close>

theorem pong_picture_shows:
  "py_str_int (pg_score_p s) \<in> set (frame_texts (pong_picture scr t s paused)) \<and>
   py_str_int (pg_score_ai s) \<in> set (frame_texts (pong_picture scr t s paused)) \<and>
   (''** PAUZE **'' \<in> set (frame_texts (pong_picture scr t s paused)) \<longleftrightarrow> paused)"
proof -
  have "''** PAUZE **'' \<noteq> py_str_int i" for i using py_str_int_not_star [of i] by (metis list.sel(1))
  then show ?thesis by (auto simp: pong_picture_texts draw_hud_texts HINT_def)
qed

end
