(* ===== verification/Bird_Render.thy ===== *)
theory Bird_Render
  imports Bird_Game Pygame_Draw Py_String
begin

text \<open>
  The drawing code of RetroBird: \<open>Grumpy.draw_bird\<close>, the drawing halves of
  \<open>Base.update\<close> and \<open>Pipe.update\<close> in \<open>objects.py\<close>, and in \<open>main.py\<close> the star
  background drawn once at start-up (\<open>draw_retro_background\<close> on \<open>bg_surface\<close>), the
  title, score and game-over panels, the particles drawn by \<open>update_particles\<close>, and the
  picture of one iteration of the loop. The fonts are loaded by \<open>SysFont\<close> or, failing
  that, pygame's default font, so they are always present; a text is identified by its
  point size. \<open>pygame.time.get_ticks()\<close> reads the frame's tick value.
\<close>

section \<open>Colours\<close>

definition bird_rgb :: "rgb \<Rightarrow> pg_colour" where
  "bird_rgb c = (case c of (r, g, b) \<Rightarrow> [r, g, b])"

definition BIRD_BLACK :: rgb where "BIRD_BLACK = (0, 0, 0)"
definition ARCADE_ORANGE :: rgb where "ARCADE_ORANGE = (255, 165, 0)"

section \<open>Objects\<close>

text \<open>\<open>Grumpy.draw_bird\<close>: body, outline, eye and beak around the rectangle's centre.\<close>

definition bird_draw :: "grumpy \<Rightarrow> draw_cmd list" where
  "bird_draw b =
     (let cx = rect_centerx (gr_rect b); cy = rect_centery (gr_rect b);
          beak = [(of_int (cx + 15), of_int cy), (of_int (cx + 25), of_int (cy - 3)), (of_int (cx + 25), of_int (cy + 3))]
      in [Draw_circle (bird_rgb (gr_color b)) (cx, cy) 20 0,
          Draw_circle (bird_rgb BIRD_BLACK) (cx, cy) 20 2,
          Draw_circle (bird_rgb BIRD_WHITE) (cx + 8, cy - 5) 5 0,
          Draw_circle (bird_rgb BIRD_BLACK) (cx + 8, cy - 5) 3 0,
          Draw_polygon (bird_rgb NEON_YELLOW) beak 0,
          Draw_polygon (bird_rgb BIRD_BLACK) beak 2])"

text \<open>The drawing half of \<open>Base.update\<close>: both ground tiles, the white border and a grid
  every 20 pixels on each tile.\<close>

definition base_draw :: "base \<Rightarrow> draw_cmd list" where
  "base_draw bs =
     (let h = HEIGHT - bs_y bs
      in [Draw_rect (bird_rgb (bs_color bs)) (rect_of (bs_x1 bs) (bs_y bs) WIDTH h) 0 0,
          Draw_rect (bird_rgb (bs_color bs)) (rect_of (bs_x2 bs) (bs_y bs) WIDTH h) 0 0,
          Draw_line (bird_rgb BIRD_WHITE) (0, bs_y bs) (WIDTH, bs_y bs) 3] @
         map (\<lambda>x. Draw_line (bird_rgb BIRD_BLACK) (x, bs_y bs) (x, HEIGHT) 1) (py_range (bs_x1 bs) (bs_x1 bs + WIDTH) 20) @
         map (\<lambda>x. Draw_line (bird_rgb BIRD_BLACK) (x, bs_y bs) (x, HEIGHT) 1) (py_range (bs_x2 bs) (bs_x2 bs + WIDTH) 20))"

text \<open>The drawing half of \<open>Pipe.update\<close>, after the move (a pipe just killed is still
  drawn): body and outline, the inner frame (\<open>inflate(-10, -10)\<close>), a line every 15
  pixels, and the cap at the end facing the gap.\<close>

definition pipe_draw :: "pipe \<Rightarrow> draw_cmd list" where
  "pipe_draw p =
     (let r = pp_rect p; c = bird_rgb (pp_color p); k = bird_rgb BIRD_BLACK;
          cap = (if pp_is_top p then rect_of (rx r - 3) (rect_bottom r - 20) (PIPE_W + 6) 20
                 else rect_of (rx r - 3) (rect_top r) (PIPE_W + 6) 20)
      in [Draw_rect c r 0 0, Draw_rect k r 3 0,
          Draw_rect k (rect_of (rx r + 5) (ry r + 5) (rw r - 10) (rh r - 10)) 2 0] @
         map (\<lambda>y. Draw_line k (rect_left r, y) (rect_right r, y) 1) (py_range (rect_top r) (rect_bottom r) 15) @
         [Draw_rect c cap 0 0, Draw_rect k cap 3 0])"

section \<open>Background and panels\<close>

text \<open>\<open>bg_surface\<close>: the dark fill, then \<open>draw_retro_background\<close>: fifty stars at random
  places, sizes and colours, and the grid.\<close>

fun retro_stars :: "nat \<Rightarrow> rng \<Rightarrow> draw_cmd list \<times> rng" where
  "retro_stars 0 g = ([], g)"
| "retro_stars (Suc n) g =
     (let (x, g1) = randint 0 WIDTH g;
          (y, g2) = randint 0 HEIGHT g1;
          (sz, g3) = randint 1 3 g2;
          (c, g4) = py_choice [BIRD_WHITE, BIRD_NEON_BLUE, BIRD_NEON_PINK] g3;
          (cs, g5) = retro_stars n g4
      in (Draw_circle (bird_rgb c) (x, y) sz 0 # cs, g5))"

definition retro_background :: "rng \<Rightarrow> draw_cmd list" where
  "retro_background g =
     Fill [10, 5, 30] # fst (retro_stars 50 g) @
     map (\<lambda>y. Draw_line [0, 100, 150] (0, y) (WIDTH, y) 1) (py_range 0 HEIGHT 20) @
     map (\<lambda>x. Draw_line [0, 100, 150] (x, 0) (x, HEIGHT) 1) (py_range 0 WIDTH 20)"

text \<open>\<open>draw_retro_title\<close>: the title and subtitle with five shadow copies each, and the
  blinking \<open>CLICK TO START\<close>.\<close>

definition draw_retro_title :: "int \<Rightarrow> draw_cmd list" where
  "draw_retro_title ticks =
     map (\<lambda>off. Text 48 ''RETRO'' (bird_rgb BIRD_NEON_BLUE) Top_left (WIDTH div 2 - 80 + off, 50 + off)) [5, 4, 3, 2, 1] @
     [Text 48 ''RETRO'' (bird_rgb BIRD_NEON_YELLOW) Top_left (WIDTH div 2 - 80, 50)] @
     map (\<lambda>off. Text 48 ''BIRD'' (bird_rgb BIRD_NEON_PINK) Top_left (WIDTH div 2 - 70 + off, 100 + off)) [5, 4, 3, 2, 1] @
     [Text 48 ''BIRD'' (bird_rgb BIRD_NEON_GREEN) Top_left (WIDTH div 2 - 70, 100)] @
     (if ticks mod 1000 < 500
      then [Text 24 ''CLICK TO START'' (bird_rgb BIRD_WHITE) Top_left (WIDTH div 2 - 90, HEIGHT - 100)] else [])"

definition draw_retro_gameover :: "int \<Rightarrow> int \<Rightarrow> draw_cmd list" where
  "draw_retro_gameover score ticks =
     (let box = rect_of 20 150 (WIDTH - 40) 200
      in [Draw_rect (bird_rgb BIRD_BLACK) box 0 0, Draw_rect (bird_rgb BIRD_RED) box 4 0,
          Draw_rect (bird_rgb BIRD_RED) (rect_of 22 152 (WIDTH - 44) 196) 2 0,
          Text 48 ''GAME'' (bird_rgb BIRD_RED) Top_left (WIDTH div 2 - 60, 170),
          Text 48 ''OVER'' (bird_rgb BIRD_RED) Top_left (WIDTH div 2 - 60, 220),
          Text 24 (''SCORE: '' @ py_str_int score) (bird_rgb BIRD_NEON_YELLOW) Top_left (WIDTH div 2 - 60, 280)] @
         (if ticks mod 800 < 400
          then [Text 24 ''CLICK TO RESTART'' (bird_rgb BIRD_WHITE) Top_left (WIDTH div 2 - 100, 320)] else []))"

text \<open>\<open>draw_retro_score\<close>: three orange glow copies, the yellow score centred at
  \<open>(WIDTH // 2, 60)\<close>, and a line under it.\<close>

definition draw_retro_score :: "int \<Rightarrow> draw_cmd list" where
  "draw_retro_score score =
     map (\<lambda>off. Text 72 (py_str_int score) (bird_rgb ARCADE_ORANGE) Centre (WIDTH div 2 + off, 60 + off)) [3, 2, 1] @
     [Text 72 (py_str_int score) (bird_rgb BIRD_NEON_YELLOW) Centre (WIDTH div 2, 60),
      Draw_line (bird_rgb BIRD_NEON_YELLOW) (0, 100) (WIDTH, 100) 2]"

text \<open>The drawing half of \<open>update_particles\<close>: each particle that survives its step.\<close>

definition bird_particle_draw :: "bird_particle \<Rightarrow> draw_cmd" where
  "bird_particle_draw p =
     Draw_circle (bird_rgb (bq_color p)) (py_trunc (bq_x p), py_trunc (bq_y p)) (max 1 (bq_life p div 10)) 0"

section \<open>One iteration of the loop\<close>

text \<open>The picture one iteration of \<open>while running\<close> draws, given the background
  surface: the start screen (the hovering bird, the ground, the title) or the play step
  (the moved pipes, the ground, the bird after its update, the score after the pass
  counter), then the surviving particles and, while the bird is dead, the game-over panel.
  The event loop that follows draws nothing.\<close>

definition bird_picture :: "draw_cmd list \<Rightarrow> frame_input \<Rightarrow> bird_game \<Rightarrow> draw_cmd list" where
  "bird_picture bgs inp s =
     (let ticks = fi_ticks inp;
          (s1, cmds) =
            (if bg_start_screen s then
               (let s1 = start_screen_step s
                in (s1, bird_draw (bg_bird s1) @ base_draw (bg_base s1) @ draw_retro_title ticks))
             else
               (let s0 = spawn_pipes ticks s;
                    sc = scroll_step (fi_mouse inp) s0;
                    s1 = play_step (fi_mouse inp) ticks s
                in (s1, concat (map (\<lambda>p. pipe_draw (fst (pipe_update (bg_speed s0) p))) (bg_pipes s0)) @
                        base_draw (bg_base sc) @ bird_draw (bg_bird sc) @ draw_retro_score (bg_score s1))));
          particles = map bird_particle_draw (update_particles_bird (bg_particles s1))
      in Blit (WIDTH, HEIGHT) bgs (0, 0) # cmds @ particles @
         (if \<not> gr_alive (bg_bird s1) then draw_retro_gameover (bg_score s1) ticks else []))"

section \<open>The colour invariant\<close>

text \<open>Every colour the state holds is a valid pygame colour: the bird's, the ground's, the
  current pipe colour, each pipe's and each particle's.\<close>

definition rgb_ok :: "rgb \<Rightarrow> bool" where
  "rgb_ok c \<longleftrightarrow> colour_ok (bird_rgb c)"

definition paint_ok :: "bird_game \<Rightarrow> bool" where
  "paint_ok s \<longleftrightarrow> rgb_ok (gr_color (bg_bird s)) \<and> rgb_ok (bs_color (bg_base s)) \<and> rgb_ok (bg_pipe_color s) \<and>
     (\<forall>p\<in>set (bg_pipes s). rgb_ok (pp_color p)) \<and> (\<forall>q\<in>set (bg_particles s). rgb_ok (bq_color q))"

section \<open>Lemmas\<close>

lemma bird_consts_ok [simp]:
  "rgb_ok NEON_GREEN" "rgb_ok NEON_BLUE" "rgb_ok NEON_PINK" "rgb_ok NEON_YELLOW"
  "rgb_ok BIRD_NEON_GREEN" "rgb_ok BIRD_NEON_BLUE" "rgb_ok BIRD_NEON_PINK" "rgb_ok BIRD_NEON_YELLOW" "rgb_ok BIRD_RED"
  "rgb_ok BIRD_WHITE" "rgb_ok BIRD_BLACK" "rgb_ok ARCADE_ORANGE"
  by (simp_all add: rgb_ok_def bird_rgb_def NEON_GREEN_def NEON_BLUE_def NEON_PINK_def NEON_YELLOW_def
      BIRD_NEON_GREEN_def BIRD_NEON_BLUE_def BIRD_NEON_PINK_def BIRD_NEON_YELLOW_def
      BIRD_RED_def BIRD_WHITE_def BIRD_BLACK_def ARCADE_ORANGE_def)

lemma rgb_ok_colour [simp]: "rgb_ok c \<Longrightarrow> colour_ok (bird_rgb c)"
  by (simp add: rgb_ok_def)

lemma choice_rgb_ok:
  assumes "rng_ok g" and "xs \<noteq> []" and "\<forall>c\<in>set xs. rgb_ok c"
  shows "rgb_ok (fst (py_choice xs g))"
  using py_choice_in_set [OF assms(1,2)] assms(3) by blast

lemma pipe_colors_ok: "rng_ok g \<Longrightarrow> rgb_ok (fst (py_choice pipe_colors g))"
  by (rule choice_rgb_ok) (simp_all add: pipe_colors_def)

lemma grumpy_new_colour: "rng_ok g \<Longrightarrow> rgb_ok (gr_color (fst (grumpy_new g)))"
  using choice_rgb_ok [of g bird_colors]
  by (simp add: grumpy_new_def grumpy_reset_def case_prod_beta bird_colors_def)

lemma create_particles_loop_colours:
  "\<forall>q\<in>set ps. rgb_ok (bq_color q) \<Longrightarrow> rgb_ok c \<Longrightarrow>
   \<forall>q\<in>set (fst (create_particles_loop n x y c ps g)). rgb_ok (bq_color q)"
proof (induction n arbitrary: ps g)
  case (Suc n)
  let ?g1 = "snd (uniform (-3) 3 g)"
  let ?q = "\<lparr>bq_x = x, bq_y = y, bq_vx = fst (uniform (-3) 3 g), bq_vy = fst (uniform (-5) 0 ?g1),
             bq_life = 30, bq_color = c\<rparr>"
  have "\<forall>q\<in>set (ps @ [?q]). rgb_ok (bq_color q)" using Suc.prems by simp
  from Suc.IH [OF this Suc.prems(2), of "snd (uniform (-5) 0 ?g1)"] show ?case by (simp add: case_prod_beta)
qed simp

lemma create_particles_colours:
  "\<forall>q\<in>set ps. rgb_ok (bq_color q) \<Longrightarrow> rgb_ok c \<Longrightarrow>
   \<forall>q\<in>set (fst (create_particles x y c ps g)). rgb_ok (bq_color q)"
  unfolding create_particles_def by (rule create_particles_loop_colours)

lemma pipes_update_colours: "set (map pp_color (pipes_update sp ps)) \<subseteq> set (map pp_color ps)"
  by (auto simp: pipes_update_def pipe_update_def Let_def)

lemma spawn_pipes_paint: "paint_ok s \<Longrightarrow> paint_ok (spawn_pipes t s)"
  by (auto simp: spawn_pipes_def paint_ok_def Let_def case_prod_beta pipe_new_def)

lemma scroll_step_paint: "paint_ok s \<Longrightarrow> paint_ok (scroll_step pressed s)"
  using pipes_update_colours [of "bg_speed s" "bg_pipes s"]
  by (auto simp: scroll_step_def paint_ok_def grumpy_update_def base_update_def Let_def)

lemma crash_step_paint: "paint_ok s \<Longrightarrow> paint_ok (crash_step s)"
  using create_particles_colours [of "bg_particles s" BIRD_RED]
  by (auto simp: crash_step_def paint_ok_def Let_def case_prod_beta)

lemma land_step_paint: "paint_ok s \<Longrightarrow> paint_ok (land_step s)"
  by (simp add: land_step_def paint_ok_def)

lemma pass_step_paint: "paint_ok s \<Longrightarrow> paint_ok (pass_step s)"
  using create_particles_colours [of "bg_particles s" BIRD_NEON_YELLOW]
  by (auto simp: pass_step_def paint_ok_def Let_def case_prod_beta split: list.split)

lemma play_step_paint: "paint_ok s \<Longrightarrow> paint_ok (play_step pressed t s)"
  unfolding play_step_def
  by (intro pass_step_paint land_step_paint crash_step_paint scroll_step_paint spawn_pipes_paint)

lemma start_screen_step_paint: "paint_ok s \<Longrightarrow> paint_ok (start_screen_step s)"
  by (simp add: start_screen_step_def paint_ok_def grumpy_draw_flap_def base_update_def Let_def)

lemma bird_click_paint: "paint_ok s \<Longrightarrow> rng_ok (bg_rng s) \<Longrightarrow> paint_ok (bird_click t s)"
  using pipe_colors_ok [of "bg_rng s"] grumpy_new_colour
  by (auto simp: bird_click_def paint_ok_def Let_def case_prod_beta base_new_def)

lemma bird_events_paint:
  "paint_ok s \<Longrightarrow> bird_inv s \<Longrightarrow> paint_ok (snd (bird_events t es (r, s)))"
proof (induction es arbitrary: r s)
  case (Cons e es)
  have "rng_ok (bg_rng s)" using Cons.prems(2) by (simp add: bird_inv_def)
  then have "paint_ok (bird_click t s)" "bird_inv (bird_click t s)"
    using bird_click_paint Cons.prems bird_click_inv by blast+
  then show ?case using Cons by (cases e) auto
qed simp

lemma update_particles_bird_paint:
  "paint_ok s \<Longrightarrow> paint_ok (s\<lparr>bg_particles := update_particles_bird (bg_particles s)\<rparr>)"
  by (auto simp: paint_ok_def update_particles_bird_def bird_particle_step_def)

lemma bird_frame_paint:
  assumes "paint_ok s" and "bird_inv s" and "bird_frame inp s = Some s'"
  shows "paint_ok s'"
proof -
  define s1 where "s1 = (if bg_start_screen s then start_screen_step s else play_step (fi_mouse inp) (fi_ticks inp) s)"
  have "paint_ok s1" "bird_inv s1"
    using assms(1,2) start_screen_step_paint play_step_paint start_screen_step_inv play_step_inv
    by (auto simp: s1_def)
  moreover have "bird_inv (s1\<lparr>bg_particles := update_particles_bird (bg_particles s1)\<rparr>)"
    using calculation(2) update_particles_bird_life [of "bg_particles s1" 30] by (auto simp: bird_inv_def)
  ultimately show ?thesis using assms(3) update_particles_bird_paint bird_events_paint
    by (auto simp: bird_frame_def s1_def [symmetric] Let_def case_prod_beta split: if_splits)
qed

lemma bird_game_init_paint: "rng_ok g \<Longrightarrow> paint_ok (bird_game_init g)"
  using pipe_colors_ok grumpy_new_colour
  by (simp add: bird_game_init_def paint_ok_def case_prod_beta Let_def base_new_def)

lemma bird_reachable_paint: "bird_reachable s \<Longrightarrow> paint_ok s"
proof (induction rule: bird_reachable.induct)
  case (start g)
  then show ?case by (rule bird_game_init_paint)
next
  case (frame s inp s')
  then show ?case using bird_frame_paint bird_reachable_inv by blast
qed

lemma retro_stars_ok: "rng_ok g \<Longrightarrow> frame_ok (fst (retro_stars n g))"
proof (induction n arbitrary: g)
  case (Suc n)
  define g3 where "g3 = snd (randint 1 3 (snd (randint 0 HEIGHT (snd (randint 0 WIDTH g)))))"
  have "rng_ok g3" using Suc.prems by (simp add: g3_def)
  then have "rgb_ok (fst (py_choice [BIRD_WHITE, BIRD_NEON_BLUE, BIRD_NEON_PINK] g3))" by (rule choice_rgb_ok) simp_all
  moreover have "frame_ok (fst (retro_stars n (snd (py_choice [BIRD_WHITE, BIRD_NEON_BLUE, BIRD_NEON_PINK] g3))))"
    using Suc.IH \<open>rng_ok g3\<close> by simp
  ultimately show ?case by (simp add: case_prod_beta g3_def [symmetric] Let_def)
qed simp

lemma retro_stars_rng: "snd (retro_stars n g) = retro_background_draws n g"
  by (induction n arbitrary: g) (simp_all add: case_prod_beta)

lemma retro_background_ok: "rng_ok g \<Longrightarrow> frame_ok (retro_background g)"
  using retro_stars_ok [of g 50] by (simp add: retro_background_def frame_ok_map)

lemma object_draws_ok:
  "rgb_ok (gr_color b) \<Longrightarrow> frame_ok (bird_draw b)"
  "rgb_ok (bs_color bs) \<Longrightarrow> frame_ok (base_draw bs)"
  "rgb_ok (pp_color p) \<Longrightarrow> frame_ok (pipe_draw p)"
  "frame_ok (draw_retro_title t)" "frame_ok (draw_retro_gameover sc t)" "frame_ok (draw_retro_score sc)"
  by (simp_all add: bird_draw_def base_draw_def pipe_draw_def draw_retro_title_def draw_retro_gameover_def
      draw_retro_score_def Let_def frame_ok_map)

lemma retro_stars_texts [simp]: "frame_texts (fst (retro_stars n g)) = []"
  by (induction n arbitrary: g) (simp_all add: case_prod_beta)

lemma not_str_GAME [simp]: "''GAME'' \<noteq> py_str_int i"
  using py_str_int_hd [of i "CHR ''G''" "''AME''"] by (auto simp: is_digit_def)

section \<open>Properties\<close>

text \<open>In every state a run of RetroBird reaches, from any well-formed random source,
  every colour of the frame's picture (the star background, pipes, ground, bird, particles,
  title, score and game-over panel) is a valid pygame colour.\<close>

theorem bird_picture_ok:
  assumes "rng_ok g" and "bird_reachable s"
  shows "frame_ok (bird_picture (retro_background g) inp s)"
proof -
  have p: "paint_ok s" using bird_reachable_paint [OF assms(2)] .
  define s0 where "s0 = spawn_pipes (fi_ticks inp) s"
  define sc where "sc = scroll_step (fi_mouse inp) s0"
  define s1 where "s1 = (if bg_start_screen s then start_screen_step s else play_step (fi_mouse inp) (fi_ticks inp) s)"
  have p0: "paint_ok s0" "paint_ok sc" "paint_ok s1"
    using p spawn_pipes_paint scroll_step_paint start_screen_step_paint play_step_paint
    by (auto simp: s0_def sc_def s1_def)
  have "frame_ok (concat (map (\<lambda>p. pipe_draw (fst (pipe_update (bg_speed s0) p))) (bg_pipes s0)))"
    using p0(1) object_draws_ok(3) by (auto simp: paint_ok_def pipe_update_def Let_def)
  moreover have "frame_ok (map bird_particle_draw (update_particles_bird (bg_particles s1)))"
    using update_particles_bird_paint [OF p0(3)] by (auto simp: paint_ok_def frame_ok_map bird_particle_draw_def)
  moreover have "frame_ok (bird_draw (bg_bird s1))" "frame_ok (base_draw (bg_base s1))"
    "frame_ok (bird_draw (bg_bird sc))" "frame_ok (base_draw (bg_base sc))"
    using p0 object_draws_ok by (simp_all add: paint_ok_def)
  ultimately have facts:
    "frame_ok (concat (map (\<lambda>p. pipe_draw (fst (pipe_update (bg_speed s0) p))) (bg_pipes s0)))"
    "frame_ok (map bird_particle_draw (update_particles_bird (bg_particles s1)))"
    "frame_ok (bird_draw (bg_bird s1))" "frame_ok (base_draw (bg_base s1))"
    "frame_ok (bird_draw (bg_bird sc))" "frame_ok (base_draw (bg_base sc))" by blast+
  note bg = retro_background_ok [OF assms(1)] object_draws_ok(4-6)
  show ?thesis
  proof (cases "bg_start_screen s")
    case True
    then have e: "start_screen_step s = s1" by (simp add: s1_def)
    show ?thesis using True facts bg by (simp add: bird_picture_def Let_def e)
  next
    case False
    then have e: "play_step (fi_mouse inp) (fi_ticks inp) s = s1" by (simp add: s1_def)
    show ?thesis using False facts bg
      by (simp add: bird_picture_def Let_def e s0_def [symmetric] sc_def [symmetric])
  qed
qed

theorem bird_picture_ok_witness:
  "rng_ok \<lparr>rnd_src = \<lambda>_. 0, rnd_pos = 0\<rparr> \<and> bird_reachable (bird_game_init \<lparr>rnd_src = \<lambda>_. 0, rnd_pos = 0\<rparr>) \<and>
   frame_ok (bird_picture (retro_background \<lparr>rnd_src = \<lambda>_. 0, rnd_pos = 0\<rparr>) demo_input
     (bird_game_init \<lparr>rnd_src = \<lambda>_. 0, rnd_pos = 0\<rparr>))"
proof -
  have g: "rng_ok \<lparr>rnd_src = \<lambda>_. 0, rnd_pos = 0\<rparr>" by simp
  have r: "bird_reachable (bird_game_init \<lparr>rnd_src = \<lambda>_. 0, rnd_pos = 0\<rparr>)" by (rule bird_reachable.start) simp
  show ?thesis using g r bird_picture_ok [OF g r, of demo_input] by blast
qed

text \<open>C38: the game-over panel is in a frame's picture exactly when the bird is dead after
  the frame's start-screen or play step; a bird that lands without hitting a pipe stays
  alive, so that frame has no panel.\<close>

theorem bird_gameover_panel:
  "''GAME'' \<in> set (frame_texts (bird_picture (retro_background g) inp s)) \<longleftrightarrow>
   \<not> gr_alive (bg_bird (if bg_start_screen s then start_screen_step s else play_step (fi_mouse inp) (fi_ticks inp) s))"
  by (auto simp: bird_picture_def Let_def retro_background_def bird_draw_def base_draw_def pipe_draw_def
      draw_retro_title_def draw_retro_gameover_def draw_retro_score_def bird_particle_draw_def)

end
