(* ===== verification/Game_Setup.thy ===== *)
theory Game_Setup
  imports SI_Config "HOL-Library.Monad_Syntax"
begin

text \<open>
  The module-level set-up of the three games: the display mode each asks pygame for, the
  environment variable Space Invader writes for SDL, and the fonts with their fallback
  chains (\<open>get_font\<close> in \<open>SpaceInvader.py\<close>, the \<open>try\<close>/\<open>except\<close> blocks of
  \<open>pong.py\<close> and \<open>RetroBird/main.py\<close>). Which pygame font calls succeed depends on the
  machine, so it is the record \<open>font_env\<close>: \<open>SysFont(name, size)\<close> returns or raises,
  \<open>get_default_font()\<close> returns a name or raises, \<open>Font(None, size)\<close> returns or
  raises. A call that raises is \<open>None\<close>; an exception no \<open>except\<close> catches at module
  level stops the game before its loop, which is \<open>None\<close> of the set-up.
\<close>

section \<open>The pygame interface\<close>

datatype display_flag = NOFRAME | SCALED | FULLSCREEN

record font_env =
  fe_sysfont :: "string \<Rightarrow> nat \<Rightarrow> bool"
  fe_default :: "string option"
  fe_font_none :: "nat \<Rightarrow> bool"

text \<open>A loaded font: \<open>SysFont(name, size, bold)\<close> or \<open>Font(None, size)\<close>.\<close>

datatype font = Sys_font string nat bool | Default_font nat

fun font_size :: "font \<Rightarrow> nat" where
  "font_size (Sys_font name n b) = n"
| "font_size (Default_font n) = n"

definition sysfont :: "font_env \<Rightarrow> string \<Rightarrow> nat \<Rightarrow> bool \<Rightarrow> font option" where
  "sysfont fe name n bold = (if fe_sysfont fe name n then Some (Sys_font name n bold) else None)"

definition font_none :: "font_env \<Rightarrow> nat \<Rightarrow> font option" where
  "font_none fe n = (if fe_font_none fe n then Some (Default_font n) else None)"

section \<open>Space Invader\<close>

text \<open>Lines 47 to 68: \<open>embedded_mode\<close> is \<open>ARCADE_EMBEDDED == '1'\<close>; a non-empty
  \<open>ARCADE_WINDOW_POS\<close> is copied to \<open>SDL_VIDEO_WINDOW_POS\<close>; the display is opened at
  the chosen screen size, without a frame in embedded mode.\<close>

record si_display =
  sd_size :: "int \<times> int"
  sd_flags :: "display_flag list"
  sd_env :: "string \<Rightarrow> string option"

definition si_display_setup :: "(string \<Rightarrow> string option) \<Rightarrow> si_display" where
  "si_display_setup env =
     (let embedded_mode = (env ''ARCADE_EMBEDDED'' = Some ''1'');
          scr = si_screen (env ''ARCADE_WINDOW_SIZE'');
          env' = (case env ''ARCADE_WINDOW_POS'' of
                    Some p \<Rightarrow> if p \<noteq> [] then env(''SDL_VIDEO_WINDOW_POS'' := Some p) else env
                  | None \<Rightarrow> env)
      in \<lparr>sd_size = (scr_w scr, scr_h scr), sd_flags = (if embedded_mode then [NOFRAME] else []),
          sd_env = env'\<rparr>)"

definition SYSTEM_FONTS :: "string list" where
  "SYSTEM_FONTS = [''arial'', ''helvetica'', ''courier'', ''times'', ''verdana'', ''dejavusans'']"

text \<open>The \<open>for\<close> loop of \<open>get_font\<close>: the first system font whose \<open>SysFont\<close> returns.\<close>

fun try_system_fonts :: "font_env \<Rightarrow> string list \<Rightarrow> nat \<Rightarrow> font option" where
  "try_system_fonts fe [] n = None"
| "try_system_fonts fe (name # names) n =
     (case sysfont fe name n False of Some f \<Rightarrow> Some f | None \<Rightarrow> try_system_fonts fe names n)"

text \<open>\<open>get_font(size)\<close>: the system fonts, then the default font if its name is
  non-empty, then \<open>Font(None, size)\<close>, and \<open>None\<close> when all raise.\<close>

definition get_font :: "font_env \<Rightarrow> nat \<Rightarrow> font option" where
  "get_font fe n =
     (case try_system_fonts fe SYSTEM_FONTS n of
        Some f \<Rightarrow> Some f
      | None \<Rightarrow>
          (case (case fe_default fe of
                   Some d \<Rightarrow> if d \<noteq> [] then sysfont fe d n False else None
                 | None \<Rightarrow> None) of
             Some f \<Rightarrow> Some f
           | None \<Rightarrow> font_none fe n))"

text \<open>The font sizes whose \<open>get_font\<close> returns a font: the parameter \<open>fonts\<close> of
  \<open>si_render\<close>.\<close>

definition si_fonts :: "font_env \<Rightarrow> nat \<Rightarrow> bool" where
  "si_fonts fe n \<longleftrightarrow> get_font fe n \<noteq> None"

section \<open>Pong\<close>

text \<open>Lines 8 to 12: a full-screen display at the desktop size, whose size is the
  field.\<close>

definition pong_display_setup :: "int \<times> int \<Rightarrow> display_flag list \<times> screen" where
  "pong_display_setup desktop = ([FULLSCREEN], \<lparr>scr_w = fst desktop, scr_h = snd desktop\<rparr>)"

text \<open>Lines 24 to 31: the three Courier New fonts; if any of the three raises, all three
  are loaded again in monospace, whose failure is not caught.\<close>

definition pong_fonts :: "font_env \<Rightarrow> (font \<times> font \<times> font) option" where
  "pong_fonts fe =
     (case do { font_big \<leftarrow> sysfont fe ''couriernew'' 96 True;
                font_med \<leftarrow> sysfont fe ''couriernew'' 42 True;
                font_small \<leftarrow> sysfont fe ''couriernew'' 22 True;
                Some (font_big, font_med, font_small) } of
        Some fs \<Rightarrow> Some fs
      | None \<Rightarrow> do { font_big \<leftarrow> sysfont fe ''monospace'' 96 True;
                     font_med \<leftarrow> sysfont fe ''monospace'' 42 True;
                     font_small \<leftarrow> sysfont fe ''monospace'' 22 True;
                     Some (font_big, font_med, font_small) })"

section \<open>RetroBird\<close>

text \<open>\<open>main.py\<close> lines 8 to 19: a frameless window of 288 x 512, scaled to full screen
  when the desktop is taller than wide.\<close>

definition bird_display_setup :: "int \<Rightarrow> int \<Rightarrow> (int \<times> int) \<times> display_flag list" where
  "bird_display_setup width height =
     ((288, 512), if width \<ge> height then [NOFRAME] else [NOFRAME, SCALED, FULLSCREEN])"

text \<open>Lines 35 to 42: bold Courier, or if any of the three raises, the default font at
  the same sizes, whose failure is not caught.\<close>

definition bird_fonts :: "font_env \<Rightarrow> (font \<times> font \<times> font) option" where
  "bird_fonts fe =
     (case do { arcade_font \<leftarrow> sysfont fe ''courier'' 24 True;
                title_font \<leftarrow> sysfont fe ''courier'' 48 True;
                score_font \<leftarrow> sysfont fe ''courier'' 72 True;
                Some (arcade_font, title_font, score_font) } of
        Some fs \<Rightarrow> Some fs
      | None \<Rightarrow> do { arcade_font \<leftarrow> font_none fe 24;
                     title_font \<leftarrow> font_none fe 48;
                     score_font \<leftarrow> font_none fe 72;
                     Some (arcade_font, title_font, score_font) })"

section \<open>Lemmas\<close>

lemma sysfont_Some [simp]: "sysfont fe name n bold = Some f \<longleftrightarrow> fe_sysfont fe name n \<and> f = Sys_font name n bold"
  by (auto simp: sysfont_def)

lemma sysfont_None [simp]: "sysfont fe name n bold = None \<longleftrightarrow> \<not> fe_sysfont fe name n"
  by (simp add: sysfont_def)

lemma font_none_Some [simp]: "font_none fe n = Some f \<longleftrightarrow> fe_font_none fe n \<and> f = Default_font n"
  by (auto simp: font_none_def)

lemma font_none_None [simp]: "font_none fe n = None \<longleftrightarrow> \<not> fe_font_none fe n"
  by (simp add: font_none_def)

text \<open>The loop of \<open>get_font\<close> is \<open>List.find\<close> over the names.\<close>

lemma try_system_fonts_find:
  "try_system_fonts fe names n = map_option (\<lambda>name. Sys_font name n False) (find (\<lambda>name. fe_sysfont fe name n) names)"
  by (induction names) (auto simp: sysfont_def)

lemma try_system_fonts_None:
  "try_system_fonts fe names n = None \<longleftrightarrow> list_all (\<lambda>name. \<not> fe_sysfont fe name n) names"
  by (auto simp: try_system_fonts_find find_None_iff list_all_iff)

text \<open>\<open>get_font\<close> returns a font of the size asked for, and \<open>None\<close> exactly when every
  system font, the default font (if it has a name) and \<open>Font(None, size)\<close> raise.\<close>

lemma get_font_size: "get_font fe n = Some f \<Longrightarrow> font_size f = n"
  by (auto simp: get_font_def try_system_fonts_find split: option.splits if_splits
      dest!: find_Some_iff [THEN iffD1])

lemma get_font_None:
  "get_font fe n = None \<longleftrightarrow>
     list_all (\<lambda>name. \<not> fe_sysfont fe name n) SYSTEM_FONTS \<and>
     (case fe_default fe of Some d \<Rightarrow> d = [] \<or> \<not> fe_sysfont fe d n | None \<Rightarrow> True) \<and>
     \<not> fe_font_none fe n"
  using try_system_fonts_None [of fe SYSTEM_FONTS n]
  by (cases "try_system_fonts fe SYSTEM_FONTS n") (auto simp: get_font_def split: option.split)

text \<open>Whatever the environment, Space Invader opens a display of at least 320 x 240,
  and the only variable it writes is \<open>SDL_VIDEO_WINDOW_POS\<close>.\<close>

lemma si_display_size:
  "320 \<le> fst (sd_size (si_display_setup env)) \<and> 240 \<le> snd (sd_size (si_display_setup env))"
  using si_screen_min [of "env ''ARCADE_WINDOW_SIZE''"] by (simp add: si_display_setup_def Let_def)

lemma si_display_env:
  "v \<noteq> ''SDL_VIDEO_WINDOW_POS'' \<Longrightarrow> sd_env (si_display_setup env) v = env v"
  by (simp add: si_display_setup_def Let_def split: option.split)

lemma si_display_pos:
  "env ''ARCADE_WINDOW_POS'' = Some p \<Longrightarrow> p \<noteq> [] \<Longrightarrow>
     sd_env (si_display_setup env) ''SDL_VIDEO_WINDOW_POS'' = Some p"
  by (simp add: si_display_setup_def Let_def)

text \<open>Pong's three fonts always come from one family: Courier New when all three load,
  otherwise monospace, even when the first Courier New font loaded before another raised;
  the module fails only when both families fail.\<close>

lemma pong_fonts_family:
  "pong_fonts fe = Some (a, b, c) \<Longrightarrow>
     \<exists>name\<in>{''couriernew'', ''monospace''}.
       a = Sys_font name 96 True \<and> b = Sys_font name 42 True \<and> c = Sys_font name 22 True"
  by (auto simp: pong_fonts_def sysfont_def split: option.splits if_splits)

lemma pong_fonts_None:
  "pong_fonts fe = None \<longleftrightarrow>
     \<not> (fe_sysfont fe ''couriernew'' 96 \<and> fe_sysfont fe ''couriernew'' 42 \<and> fe_sysfont fe ''couriernew'' 22) \<and>
     \<not> (fe_sysfont fe ''monospace'' 96 \<and> fe_sysfont fe ''monospace'' 42 \<and> fe_sysfont fe ''monospace'' 22)"
  by (auto simp: pong_fonts_def sysfont_def split: option.splits if_splits)

text \<open>RetroBird's fonts are all bold Courier or all the default font, at 24, 48 and 72
  points.\<close>

lemma bird_fonts_family:
  "bird_fonts fe = Some (a, b, c) \<Longrightarrow>
     (a, b, c) = (Sys_font ''courier'' 24 True, Sys_font ''courier'' 48 True, Sys_font ''courier'' 72 True) \<or>
     (a, b, c) = (Default_font 24, Default_font 48, Default_font 72)"
  by (auto simp: bird_fonts_def sysfont_def font_none_def split: option.splits if_splits)

lemma bird_fonts_None:
  "bird_fonts fe = None \<longleftrightarrow>
     \<not> (fe_sysfont fe ''courier'' 24 \<and> fe_sysfont fe ''courier'' 48 \<and> fe_sysfont fe ''courier'' 72) \<and>
     \<not> (fe_font_none fe 24 \<and> fe_font_none fe 48 \<and> fe_font_none fe 72)"
  by (auto simp: bird_fonts_def sysfont_def font_none_def split: option.splits if_splits)

section \<open>Properties\<close>

text \<open>\<open>get_font\<close> is the reference chain written with \<open>List.find\<close>: the first
  name of \<open>system_fonts\<close> whose \<open>SysFont\<close> loads, else the default font when it has a
  name and loads, else \<open>Font(None, size)\<close>, else \<open>None\<close>; the \<open>try\<close>/\<open>except\<close>
  loop returns at the first success and never skips one.\<close>

theorem get_font_find:
  "get_font fe n =
     (case find (\<lambda>name. fe_sysfont fe name n) SYSTEM_FONTS of
        Some name \<Rightarrow> Some (Sys_font name n False)
      | None \<Rightarrow>
          (if \<exists>d. fe_default fe = Some d \<and> d \<noteq> [] \<and> fe_sysfont fe d n
           then Some (Sys_font (the (fe_default fe)) n False)
           else if fe_font_none fe n then Some (Default_font n) else None))"
  by (auto simp: get_font_def try_system_fonts_find sysfont_def font_none_def split: option.split)

end
