(* ===== verification/SI_Ship.thy ===== *)
theory SI_Ship
  imports SI_Game SI_Config
begin

text \<open>
  The player's ship of Space Invader over a whole run: what each pass of a frame does to
  the \<open>Player\<close> object, the invariants this gives (the power-up timers of
  \<open>Player.update_powerups\<close> and \<open>Player.activate_powerup\<close>, and the ship's position
  kept by \<open>Player.move\<close>), and what the shield does to the alien bullets that reach the
  ship (\<open>SpaceBattle.update_alien_bullets\<close>).
\<close>

section \<open>Invariants of the ship\<close>

text \<open>Each power-up is active exactly while its timer is positive, and a timer never
  exceeds the 400 frames \<open>activate_powerup\<close> sets.\<close>

definition timers_ok :: "player \<Rightarrow> bool" where
  "timers_ok p \<longleftrightarrow>
     0 \<le> pl_powerup_timer p \<and> pl_powerup_timer p \<le> 400 \<and> (pl_powerup_active p \<longleftrightarrow> 0 < pl_powerup_timer p) \<and>
     0 \<le> pl_shield_timer p \<and> pl_shield_timer p \<le> 400 \<and> (pl_shield_active p \<longleftrightarrow> 0 < pl_shield_timer p)"

abbreviation battle_timers_ok :: "battle \<Rightarrow> bool" where
  "battle_timers_ok s \<equiv> timers_ok (bt_player s)"

abbreviation ship_in_bounds :: "screen \<Rightarrow> battle \<Rightarrow> bool" where
  "ship_in_bounds scr s \<equiv> player_in_bounds scr (bt_player s)"

text \<open>An alien bullet, once moved, has left the screen, or lies on the ship.\<close>

abbreviation ab_gone :: "screen \<Rightarrow> alien_bullet \<Rightarrow> bool" where
  "ab_gone scr b \<equiv> scr_h scr < rect_top (ab_rect (alien_bullet_move b))"

abbreviation ab_hits :: "rect \<Rightarrow> alien_bullet \<Rightarrow> bool" where
  "ab_hits r b \<equiv> colliderect (ab_rect (alien_bullet_move b)) r"

section \<open>Lemmas: what a frame does to the ship\<close>

text \<open>The passes that do not steer leave the ship where it is; the collision pass only
  replaces its list of bullets, and the power-up pass activates some power-ups in turn.\<close>

lemma player_methods_rect [simp]:
  "pl_rect (player_shoot p) = pl_rect p"
  "pl_rect (player_update_bullets p) = pl_rect p"
  "pl_rect (player_update_powerups p) = pl_rect p"
  "pl_rect (player_activate_powerup k p) = pl_rect p"
  by (simp_all add: player_shoot_def player_update_bullets_def player_update_powerups_def
      player_activate_powerup_def Let_def split: powerup_kind.split)

lemma move_aliens_loop_player [simp]: "bt_player (move_aliens_loop scr as s) = bt_player s"
  by (induction scr as s rule: move_aliens_loop.induct) (simp_all add: lose_life_def Let_def)

lemma alien_shoot_loop_player [simp]: "bt_player (alien_shoot_loop as s) = bt_player s"
proof (induction as arbitrary: s)
  case (Cons a as)
  obtain ok a' g1 where c: "alien_can_shoot a (bt_rng s) = (ok, a', g1)"
    by (cases "alien_can_shoot a (bt_rng s)") auto
  then show ?case using alien_shoot_loop_step [OF c, of as] Cons.IH by fastforce
qed simp

lemma alien_bullets_loop_player [simp]: "bt_player (alien_bullets_loop scr bs s) = bt_player s"
  by (induction scr bs s rule: alien_bullets_loop.induct) (auto simp: Let_def)

lemma collide_loop_player: "\<exists>bs'. bt_player (collide_loop bs s) = (bt_player s)\<lparr>pl_bullets := bs'\<rparr>"
proof (induction bs arbitrary: s)
  case Nil
  show ?case by (intro exI [of _ "pl_bullets (bt_player s)"]) simp
next
  case (Cons b bs)
  show ?case
  proof (cases "find_hit (bl_rect b) (bt_aliens s)")
    case None
    then show ?thesis using Cons.IH [of "s\<lparr>bt_player := (bt_player s)\<lparr>pl_bullets := pl_bullets (bt_player s) @ [b]\<rparr>\<rparr>"]
      by auto
  next
    case (Some h)
    then obtain pre a post where "h = (pre, a, post)" by (cases h) auto
    then show ?thesis using Some Cons.IH [of "kill_alien a (s\<lparr>bt_aliens := pre @ post\<rparr>)"] by auto
  qed
qed

lemma powerups_loop_player:
  "\<exists>ks. bt_player (powerups_loop scr ps s) = fold player_activate_powerup ks (bt_player s)"
proof (induction scr ps s rule: powerups_loop.induct)
  case (1 scr s)
  show ?case by (intro exI [of _ "[]"]) simp
next
  case (2 scr p ps s)
  let ?p' = "powerup_move p"
  show ?case
  proof (cases "rect_top (pu_rect ?p') > scr_h scr \<or> \<not> colliderect (pu_rect ?p') (pl_rect (bt_player s))")
    case True
    then show ?thesis using 2 by (auto simp: Let_def)
  next
    case False
    then obtain ks where "bt_player (powerups_loop scr (p # ps) s) =
                            fold player_activate_powerup ks (player_activate_powerup (pu_type ?p') (bt_player s))"
      using 2(2) [OF refl] by (auto simp: Let_def)
    then show ?thesis by (intro exI [of _ "pu_type ?p' # ks"]) simp
  qed
qed

text \<open>A property of the ship that the player's methods keep, and that holds of a new
  ship, holds in every reachable state: the passes of a frame act on the ship only through
  these methods.\<close>

lemma si_reachable_ship:
  fixes Q :: "player \<Rightarrow> bool"
  assumes new: "Q (player_new scr)"
    and move: "\<And>p d. Q p \<Longrightarrow> Q (player_move scr d p)"
    and shoot: "\<And>p. Q p \<Longrightarrow> Q (player_shoot p)"
    and bullets: "\<And>p. Q p \<Longrightarrow> Q (player_update_bullets p)"
    and powerups: "\<And>p. Q p \<Longrightarrow> Q (player_update_powerups p)"
    and activate: "\<And>p ks. Q p \<Longrightarrow> Q (fold player_activate_powerup ks p)"
    and set_bullets: "\<And>p bs. Q p \<Longrightarrow> Q (p\<lparr>pl_bullets := bs\<rparr>)"
    and glow: "\<And>p n. Q p \<Longrightarrow> Q (p\<lparr>pl_engine_glow := n\<rparr>)"
    and reach: "si_reachable scr s"
  shows "Q (bt_player s)"
proof -
  let ?P = "\<lambda>s :: battle. Q (bt_player s)"
  have loops: "keeps ?P (update_alien_bullets scr)" "keeps ?P check_collisions" "keeps ?P (update_powerups scr)"
  proof -
    show "keeps ?P (update_alien_bullets scr)" by (rule keepsI) (simp add: update_alien_bullets_def)
    show "keeps ?P check_collisions"
    proof
      fix s assume "?P s"
      obtain bs' where "bt_player (check_collisions s) = (bt_player s)\<lparr>pl_bullets := bs'\<rparr>"
        using collide_loop_player [of "pl_bullets (bt_player s)" "s\<lparr>bt_player := (bt_player s)\<lparr>pl_bullets := []\<rparr>\<rparr>"]
        by (auto simp: check_collisions_def)
      then show "?P (check_collisions s)" using set_bullets [OF \<open>?P s\<close>] by simp
    qed
    show "keeps ?P (update_powerups scr)"
    proof
      fix s assume "?P s"
      obtain ks where "bt_player (update_powerups scr s) = fold player_activate_powerup ks (bt_player s)"
        using powerups_loop_player [of scr "bt_powerups s" "s\<lparr>bt_powerups := []\<rparr>"]
        by (auto simp: update_powerups_def)
      then show "?P (update_powerups scr s)" using activate [OF \<open>?P s\<close>] by simp
    qed
  qed
  have passes:
    "keeps ?P (si_steer scr held)" "keeps ?P (spawn_alien scr t)"
    "keeps ?P (\<lambda>s. s\<lparr>bt_player := player_update_bullets (bt_player s)\<rparr>)"
    "keeps ?P (\<lambda>s. s\<lparr>bt_player := player_update_powerups (bt_player s)\<rparr>)"
    "keeps ?P (move_aliens scr)" "keeps ?P alien_shoot" "keeps ?P update_particles" "keeps ?P (update_stars scr)"
    for held t
    by (auto simp: keeps_def si_steer_def spawn_alien_def Let_def split_def move_aliens_def alien_shoot_def
        update_particles_def update_stars_def move bullets powerups
        simp del: move_aliens_loop.simps alien_shoot_loop.simps)
  have update: "keeps ?P (si_update scr inp)" for inp
    unfolding si_update_passes by (intro keeps_comp passes loops)
  have events: "si_handle_events scr es s0 = Some s1 \<Longrightarrow> ?P s0 \<Longrightarrow> ?P s1" for es s0 s1
  proof (induction es arbitrary: s0)
    case (Cons e es)
    then show ?case by (cases e) (auto simp: reset_game_def new shoot split: if_splits)
  qed simp
  have frame: "?P s1" if f: "si_frame scr inp s0 = Some s1" and p0: "?P s0" for inp s0 s1
  proof -
    obtain s2 where e: "si_handle_events scr (fi_events inp) s0 = Some s2"
      and s1: "s1 = si_draw (if bt_game_state s2 = Playing then si_update scr inp s2 else s2)"
      using f by (auto simp: si_frame_def split: option.splits)
    have "?P s2" using events [OF e p0] .
    then show ?thesis using keepsD [OF update] glow by (simp add: s1 si_draw_def)
  qed
  from reach show ?thesis
    by (induction rule: si_reachable.induct) (auto simp: battle_new_def Let_def split_def new frame)
qed

section \<open>Lemmas: the power-up timers\<close>

lemma timers_ok_player_new [simp]: "timers_ok (player_new scr)"
  by (simp add: timers_ok_def player_new_def Let_def)

lemma timers_ok_player_update_powerups: "timers_ok p \<Longrightarrow> timers_ok (player_update_powerups p)"
  by (auto simp: timers_ok_def player_update_powerups_def Let_def)

lemma timers_ok_fold_activate: "timers_ok p \<Longrightarrow> timers_ok (fold player_activate_powerup ks p)"
  by (induction ks arbitrary: p) (auto simp: timers_ok_def player_activate_powerup_def split: powerup_kind.split)

text \<open>Moving, shooting, the bullets and the engine glow leave the timers alone.\<close>

lemma timers_ok_other [simp]:
  "timers_ok (player_move scr d p) = timers_ok p"
  "timers_ok (player_shoot p) = timers_ok p"
  "timers_ok (player_update_bullets p) = timers_ok p"
  "timers_ok (p\<lparr>pl_bullets := bs\<rparr>) = timers_ok p"
  "timers_ok (p\<lparr>pl_engine_glow := n\<rparr>) = timers_ok p"
  by (simp_all add: timers_ok_def player_move_def player_shoot_def player_update_bullets_def Let_def
      split: direction.split)

lemma si_reachable_timers: "si_reachable scr s \<Longrightarrow> battle_timers_ok s"
  by (rule si_reachable_ship [where Q = timers_ok])
     (simp_all add: timers_ok_player_update_powerups timers_ok_fold_activate)

section \<open>Lemmas: the ship's position\<close>

lemma fold_activate_rect [simp]: "pl_rect (fold player_activate_powerup ks p) = pl_rect p"
  by (induction ks arbitrary: p) simp_all

lemma si_reachable_bounds:
  assumes "60 \<le> scr_w scr" and "si_reachable scr s"
  shows "ship_in_bounds scr s"
proof (rule si_reachable_ship [where Q = "player_in_bounds scr"])
  show "player_in_bounds scr (player_new scr)" using assms(1) by (rule player_new_in_bounds)
  show "player_in_bounds scr (player_move scr d p)" if "player_in_bounds scr p" for p d
    using that by (rule player_move_in_bounds)
qed (simp_all add: player_in_bounds_def assms(2))

section \<open>Lemmas: the shield\<close>

text \<open>The loop of \<open>update_alien_bullets\<close>: every bullet on the ship costs a life
  unless the shield is up, and the bullets that neither left nor hit are kept, moved, in
  order.\<close>

lemma alien_bullets_loop_lives:
  "bt_lives (alien_bullets_loop scr bs s) =
     bt_lives s - (if pl_shield_active (bt_player s) then 0
                   else int (length (filter (\<lambda>b. \<not> ab_gone scr b \<and> ab_hits (pl_rect (bt_player s)) b) bs))) \<and>
   bt_alien_bullets (alien_bullets_loop scr bs s) =
     bt_alien_bullets s @
       map alien_bullet_move (filter (\<lambda>b. \<not> ab_gone scr b \<and> \<not> ab_hits (pl_rect (bt_player s)) b) bs)"
  by (induction scr bs s rule: alien_bullets_loop.induct) (auto simp: Let_def)

section \<open>Properties\<close>

text \<open>C11: one pass of \<open>update_alien_bullets\<close> takes one life for every alien bullet
  that lands on the ship, and none while the shield is up; it keeps exactly the bullets
  that neither left the screen nor hit, each moved once, and leaves the ship as it was.\<close>

theorem update_alien_bullets_shield:
  "bt_lives (update_alien_bullets scr s) =
     bt_lives s - (if pl_shield_active (bt_player s) then 0
                   else int (length (filter (\<lambda>b. \<not> ab_gone scr b \<and> ab_hits (pl_rect (bt_player s)) b)
                                       (bt_alien_bullets s)))) \<and>
   bt_alien_bullets (update_alien_bullets scr s) =
     map alien_bullet_move (filter (\<lambda>b. \<not> ab_gone scr b \<and> \<not> ab_hits (pl_rect (bt_player s)) b)
                              (bt_alien_bullets s)) \<and>
   bt_player (update_alien_bullets scr s) = bt_player s"
  using alien_bullets_loop_lives [of scr "bt_alien_bullets s" "s\<lparr>bt_alien_bullets := []\<rparr>"]
  by (simp add: update_alien_bullets_def)

text \<open>C15: in every state a run of Space Invader reaches, the triple-shot and shield
  timers lie between 0 and 400 frames and each power-up is active exactly while its timer
  is positive, so the HUD's countdowns (\<open>timer // 60\<close>) read 0 to 6 seconds and show
  only while the power-up is on.\<close>

theorem si_powerup_timers:
  assumes "si_reachable scr s"
  shows "0 \<le> pl_powerup_timer (bt_player s) \<and> pl_powerup_timer (bt_player s) \<le> 400 \<and>
         (pl_powerup_active (bt_player s) \<longleftrightarrow> 0 < pl_powerup_timer (bt_player s)) \<and>
         0 \<le> pl_shield_timer (bt_player s) \<and> pl_shield_timer (bt_player s) \<le> 400 \<and>
         (pl_shield_active (bt_player s) \<longleftrightarrow> 0 < pl_shield_timer (bt_player s))"
  using si_reachable_timers [OF assms] by (simp add: timers_ok_def)

theorem si_powerup_timers_witness:
  "let scr = \<lparr>scr_w = 800, scr_h = 600\<rparr>; s = battle_new scr \<lparr>rnd_src = \<lambda>_. 0, rnd_pos = 0\<rparr>
   in si_reachable scr s \<and> pl_shield_timer (bt_player s) \<le> 400 \<and> pl_powerup_timer (bt_player s) \<le> 400"
proof -
  define scr :: screen where "scr = \<lparr>scr_w = 800, scr_h = 600\<rparr>"
  define s where "s = battle_new scr \<lparr>rnd_src = \<lambda>_. 0, rnd_pos = 0\<rparr>"
  have r: "si_reachable scr s" unfolding s_def by (rule si_reachable.start) simp
  show ?thesis using si_powerup_timers [OF r] r
    by (simp add: Let_def scr_def [symmetric] s_def [symmetric])
qed

text \<open>C17: on the screen Space Invader opens for any \<open>ARCADE_WINDOW_SIZE\<close>, the ship
  of every reachable state stays within \<open>PLAYER_SPEED - 1 = 5\<close> pixels beyond either
  edge: \<open>Player.move\<close> tests the edge before it steps, so it can overshoot, but never by
  more.\<close>

theorem si_ship_in_bounds:
  assumes "si_reachable (si_screen raw) s"
  shows "-5 \<le> rect_left (pl_rect (bt_player s)) \<and>
         rect_right (pl_rect (bt_player s)) \<le> scr_w (si_screen raw) + 5"
proof -
  have "60 \<le> scr_w (si_screen raw)" using si_screen_min [of raw] by simp
  from si_reachable_bounds [OF this assms] show ?thesis
    unfolding player_in_bounds_def PLAYER_SPEED_def by linarith
qed

theorem si_ship_in_bounds_witness:
  "let s = battle_new (si_screen None) \<lparr>rnd_src = \<lambda>_. 0, rnd_pos = 0\<rparr>
   in si_reachable (si_screen None) s \<and> -5 \<le> rect_left (pl_rect (bt_player s))"
proof -
  have r: "si_reachable (si_screen None) (battle_new (si_screen None) \<lparr>rnd_src = \<lambda>_. 0, rnd_pos = 0\<rparr>)"
    by (rule si_reachable.start) (rule rng_ok_zero)
  show ?thesis unfolding Let_def using si_ship_in_bounds [OF r] r by (intro conjI) (assumption, erule conjunct1)
qed

end
