(* ===== verification/Runs.thy ===== *)
theory Runs
  imports SI_Game Pong Bird_Game
begin

text \<open>
  Runs of the three processes: the state after the loop has consumed a sequence of frame
  inputs, one per iteration, from the state the module builds (\<open>run_frames\<close> of the
  prelude over \<open>si_frame\<close>, \<open>pong_frame\<close> and \<open>bird_frame\<close>). A quit ends a run
  with \<open>None\<close>. The reachability relations on which the invariants are proved are
  exactly the states of these runs, so every invariant of a relation is a property of
  every run of the program.
\<close>

section \<open>Runs\<close>

text \<open>\<open>SpaceBattle().run()\<close>: \<open>while running\<close> over the frames.\<close>

definition si_run :: "screen \<Rightarrow> rng \<Rightarrow> frame_input list \<Rightarrow> battle option" where
  "si_run scr g inps = run_frames (si_frame scr) inps (battle_new scr g)"

text \<open>\<open>while True: game()\<close>, with the win screen between matches.\<close>

definition pong_run :: "screen \<Rightarrow> rng \<Rightarrow> frame_input list \<Rightarrow> pong_phase option" where
  "pong_run scr g inps = run_frames (pong_frame scr) inps (Match (pong_new scr g))"

text \<open>RetroBird's \<open>while running\<close> after the module set-up.\<close>

definition bird_run :: "rng \<Rightarrow> frame_input list \<Rightarrow> bird_game option" where
  "bird_run g inps = run_frames bird_frame inps (bird_game_init g)"

section \<open>Reachable states are the states of runs\<close>

lemma si_reachable_iff_run: "si_reachable scr s \<longleftrightarrow> (\<exists>g inps. rng_ok g \<and> si_run scr g inps = Some s)"
  unfolding si_run_def
  by (rule reachable_iff_run_frames [where Q = rng_ok and R = "si_reachable scr" and init = "battle_new scr" and f = "si_frame scr"])
    (blast intro: si_reachable.intros, blast intro: si_reachable.intros, erule si_reachable.induct, blast+)

lemma pong_reachable_iff_run: "pong_reachable scr p \<longleftrightarrow> (\<exists>g inps. rng_ok g \<and> pong_run scr g inps = Some p)"
  unfolding pong_run_def
  by (rule reachable_iff_run_frames [where Q = rng_ok and R = "pong_reachable scr" and init = "\<lambda>g. Match (pong_new scr g)"
        and f = "pong_frame scr"])
    (blast intro: pong_reachable.intros, blast intro: pong_reachable.intros, erule pong_reachable.induct, blast+)

lemma bird_reachable_iff_run: "bird_reachable s \<longleftrightarrow> (\<exists>g inps. rng_ok g \<and> bird_run g inps = Some s)"
  unfolding bird_run_def
  by (rule reachable_iff_run_frames [where Q = rng_ok and R = bird_reachable and init = bird_game_init and f = bird_frame])
    (blast intro: bird_reachable.intros, blast intro: bird_reachable.intros, erule bird_reachable.induct, blast+)

end
