(* ===== verification/Spec2Isabelle.thy ===== *)
theory Spec2Isabelle
  imports SI_Game Pong Bird_Game SI_Config SI_Render Pong_Render Bird_Render Game_Setup SI_Ship Runs
begin

text \<open>
  \<^bold>\<open>A verification library for the KdG arcade games.\<close>

  The repository holds three pygame games, each a single-threaded loop that drains the
  event queue, advances the simulation by one frame and draws it:
  \<^item> \<open>src/apps/arcade/games/SpaceInvader.py\<close> (aliens falling from the top, shot by
    the player's ship; lives, levels, power-ups, particles);
  \<^item> \<open>src/arcade-flipper/src/games/pong.py\<close> (player against an AI paddle, first to 7);
  \<^item> \<open>src/apps/arcade/games/RetroBird/main.py\<close> with
    \<open>src/arcade-flipper/src/games/RetroBird/objects.py\<close> (a Flappy-Bird clone).

  \<^bold>\<open>Theories.\<close>
  \<^item> \<open>Arcade_Prelude\<close>: Python numbers (\<open>real\<close> for floats, \<open>int\<close> for ints,
    \<open>py_trunc\<close> for \<open>int()\<close>), and the module-global random generator made explicit as a
    source of draws (\<open>rng\<close>, \<open>py_random\<close>, \<open>uniform\<close>, \<open>randint\<close>,
    \<open>py_choice\<close>) with the ranges of each draw; a run of a game loop over a sequence of
    frame inputs (\<open>run_frames\<close>), and \<open>keeps\<close>, the statement that one pass of a
    frame keeps an invariant.
  \<^item> \<open>Pygame_Model\<close>: the part of pygame the games call: \<open>Rect\<close> and its edges,
    \<open>get_rect(center=...)\<close>, \<open>colliderect\<close>, the event and key vocabulary and one
    frame's input. pygame is not part of the repository; these definitions follow its
    documented behaviour.
  \<^item> \<open>SI_Entities\<close>, \<open>SI_Player\<close>, \<open>SI_Game\<close>: \<open>SpaceInvader.py\<close>, class by
    class. Every class is a record, every method a function; the \<open>SpaceBattle\<close> methods
    thread the whole game state (\<open>battle\<close>) including the random source, and
    \<open>si_frame\<close> is one iteration of \<open>SpaceBattle.run\<close>. \<open>si_reachable\<close> is the
    inductive set of states a run reaches from \<open>SpaceBattle()\<close>.
  \<^item> \<open>Pong\<close>: \<open>pong.py\<close>. \<open>Paddle\<close> and \<open>Ball\<close> are records with
    \<open>move_player\<close>, \<open>move_ai\<close>, \<open>ball_reset\<close> and \<open>ball_update\<close> (wall
    bounce, the loop over both paddles as \<open>ball_paddle\<close>, the point it reports); the
    locals of \<open>game()\<close> are the record \<open>pong\<close>; \<open>pong_phase\<close> says whether the
    process is in the \<open>game()\<close> loop or in \<open>win_screen()\<close>, and \<open>pong_frame\<close> is
    one iteration of either. \<open>pong_reachable\<close> is the set of phases reached from the
    first \<open>game()\<close> of \<open>while True: game()\<close>.
  \<^item> \<open>Bird_Objects\<close>: \<open>RetroBird/objects.py\<close>: the bird \<open>Grumpy\<close>
    (\<open>grumpy_update\<close>, \<open>grumpy_draw_flap\<close>, \<open>grumpy_reset\<close>), the ground
    \<open>Base\<close> and the \<open>Pipe\<close> sprites; the sprite group is a list in insertion order,
    and \<open>pipes_update\<close> is \<open>pipe_group.update\<close> with the killed pipes removed;
    \<open>Score\<close>, which \<open>main.py\<close> imports but never creates, has an empty update.
  \<^item> \<open>Bird_Game\<close>: \<open>RetroBird/main.py\<close>: the module-level variables of the loop are
    the record \<open>bird_game\<close>, \<open>bird_frame\<close> is one iteration of \<open>while running\<close>,
    composed of the start screen or the play step (\<open>spawn_pipes\<close>, \<open>scroll_step\<close>,
    \<open>crash_step\<close>, \<open>land_step\<close>, \<open>pass_step\<close>), the particles and the event loop
    (\<open>bird_click\<close>); \<open>bird_reachable\<close> starts from the module set-up
    \<open>bird_game_init\<close>, which also consumes the random draws of the star background.
  \<^item> \<open>SI_Config\<close>: the start-up of \<open>SpaceInvader.py\<close>: \<open>parse_window_size\<close>
    (lines 29 to 45) with the Python string operations it calls (\<open>str.strip\<close>,
    \<open>str.lower\<close>, \<open>str.replace\<close>, \<open>str.split\<close>, and \<open>int()\<close> with its
    \<open>ValueError\<close> as \<open>None\<close>), and \<open>si_screen\<close>, the screen size the module
    chooses from \<open>ARCADE_WINDOW_SIZE\<close>; every Space Invader definition takes that screen
    as its parameter \<open>scr\<close>.
  \<^item> \<open>Py_String\<close>: the Python string built-ins \<open>parse_window_size\<close> and the HUD
    texts use, on strings of code points up to U+00FF, with \<open>str()\<close> of an integer
    (\<open>py_str_int\<close>) and \<open>int()\<close> (\<open>py_int\<close>), which reads it back up to CPython's
    limit of 4300 digits (\<open>PY_INT_MAX_STR_DIGITS\<close>).
  \<^item> \<open>Pygame_Draw\<close>: a frame as the list of drawing commands issued on a surface
    (\<open>draw_cmd\<close>: fill, the \<open>pygame.draw\<close> primitives, blits of surfaces built off
    screen, rendered text); \<open>frame_ok\<close> says every colour is one pygame accepts (it
    raises \<open>ValueError\<close> on any other) and \<open>frame_texts\<close> lists the strings shown.
  \<^item> \<open>SI_Render\<close>, \<open>Pong_Render\<close>, \<open>Bird_Render\<close>: the drawing code of the
    three games as functions from the state to a frame: \<open>si_render\<close> is
    \<open>SpaceBattle.draw\<close> with the sprites' \<open>create_*\<close> surfaces, \<open>Player.draw\<close>
    (which also advances the engine glow) and \<open>draw_game_over\<close>; \<open>pong_pictures\<close>
    are the frames one iteration of \<open>game()\<close> flips (the pre-rendered field, paddles,
    ball and trail, \<open>pixel_text\<close>, \<open>draw_hud\<close>) and \<open>win_picture\<close> a frame of
    \<open>win_screen\<close>; \<open>bird_picture\<close> is the picture of one iteration of RetroBird's
    loop, over the star background drawn at start-up. Which fonts load is the parameter
    \<open>fonts\<close> (a point size to whether \<open>get_font\<close> succeeds), fixed for the process.
  \<^item> \<open>Game_Setup\<close>: the module-level set-up of each game: the environment Space
    Invader reads and the \<open>SDL_VIDEO_WINDOW_POS\<close> it writes (\<open>si_display_setup\<close>),
    the size and flags of each \<open>set_mode\<close>, and the font fallback chains
    (\<open>get_font\<close>, \<open>pong_fonts\<close>, \<open>bird_fonts\<close>) over \<open>font_env\<close>, which says
    which pygame font calls raise on the machine. The \<open>fonts\<close> parameter of
    \<open>si_render\<close> is \<open>si_fonts\<close> of that machine.
  \<^item> \<open>SI_Ship\<close>: the player's ship over a whole run. What each pass of a frame does
    to the \<open>Player\<close> object (the collision pass only replaces its bullets, the
    power-up pass activates power-ups in turn, the others leave it alone) gives
    \<open>si_reachable_ship\<close>: a property the player's methods keep holds in every reachable
    state. Its instances are the power-up timer invariant \<open>timers_ok\<close> and the ship's
    horizontal range; the theory also has the effect of the shield on
    \<open>update_alien_bullets\<close>.
  \<^item> \<open>Runs\<close>: the runs of the three processes (\<open>si_run\<close>, \<open>pong_run\<close>,
    \<open>bird_run\<close>) and the proof that each reachability relation holds of exactly the
    states of its runs, so every invariant proved by rule induction is a property of every
    run of the program.
  \<^item> this theory: the properties that span the Space Invader components.

  \<^bold>\<open>What the lemmas show.\<close>
  The collision pass (\<open>check_collisions\<close>) credits each destroyed alien once, consumes
  one bullet per kill, picks the first alien in list order when a bullet overlaps several,
  and is idempotent. The round invariant \<open>battle_inv\<close> holds in every reachable state:
  the game is over exactly when no lives remain and the level is one more than the number
  of completed batches of 20 kills. Every update pass keeps it, never lowers the score and
  never raises the lives (\<open>pass_ok\<close>), so within a round score and lives are monotone.
  Transient entities have bounded lifetimes: a particle is gone one update after its
  lifetime runs out, a player bullet leaves within \<open>bottom / 10 + 1\<close> frames, an alien
  falls at least one pixel a frame and leaves the screen; aliens stay inside the screen
  horizontally. The ship fires at most one volley per frame; after a volley a shoot adds
  nothing for nine bullet updates and from the tenth fires a volley of one bullet, or three
  with the triple-shot power-up (\<open>player_fire_rate\<close>). On
  every screen \<open>si_screen\<close> can choose (at least 320 wide), the ship of every reachable
  state stays within five pixels beyond either edge.
  Every alien of a reachable state has the type of its kind (\<open>si_aliens_typed\<close>).
  An alien bullet that lands on the ship costs exactly one life, and none while the shield
  is up; in every reachable state both power-up timers lie in [0, 400] frames and each
  power-up is on exactly while its timer is positive.
  The model also exhibits two behaviours the code does not guard against: the lives counter
  can drop below zero within one frame, and the ship can overshoot the screen edge.

  The window size reads back the decimal text of two integers: \<open>f"{w}x{h}"\<close> and
  \<open>f"{w},{h}"\<close> give \<open>(max(320, w), max(240, h))\<close> when both have at most 4300
  digits and \<open>None\<close> otherwise (\<open>int()\<close> raises \<open>ValueError\<close> past that limit); a value
  with a character \<open>int()\<close> cannot read is rejected and the game opens at 800 x 600.

  In Pong, on any screen at least one paddle high (\<open>pong_screen_ok\<close>), the invariant
  \<open>pong_inv\<close> holds in every reachable match state: both paddles stay in the field, the
  ball stays between the walls with \<open>vx\<^sup>2 + vy\<^sup>2 = speed\<^sup>2\<close> and
  \<open>25 \<le> speed \<le> 100\<close>, the trail holds at most ten points and both scores stay below
  seven. A paddle hit sends the ball away from that paddle; the AI paddle moves at most
  27.3 pixels a frame and never away from the ball; a pause freezes the game; the seventh
  point ends the match with the right winner and enter on the win screen starts a fresh
  one; any other point serves a new ball from the centre towards the scorer's paddle
  (\<open>direction = -1\<close>, to the left, after a player point). A ball flying straight scores exactly when its centre passes the far edge, and a
  ball faster than 39 pixels a frame can pass through a paddle without touching it.

  In RetroBird the invariant \<open>bird_inv\<close> holds in every reachable state: the bird's
  velocity stays in [-6, 8] and it sinks at most 8 pixels below the ground line, it hovers
  within 11 pixels of its start height on the start screen, the pipes always form aligned
  pairs with a 100-pixel gap centred between 104 and 300, and every particle is gone within
  30 frames; pipes leave the screen in bounded time, and the pipe group refines an
  abstract course of gaps (\<open>pipe_gaps\<close>, \<open>gaps_scroll\<close>): scrolling the sprites is
  scrolling the gaps, and a spawn adds one gap at the right edge and a frame of play raises the score by
  at most one. Clicks start a game (first pipes at once) and return to the start screen.
  Two defects are shown: a bird that lands without hitting a pipe is never marked dead, and
  a dead bird can still score the pipe it had entered; a restart also keeps the old pipes
  and score until the next click.

  Drawing never raises: in every reachable Space Invader state, whatever fonts load and
  whatever the clock, every colour of the frame is valid (the invariant \<open>render_inv\<close>
  bounds star brightness and particle colours, and the engine glow is reduced mod 20
  before it sets the flame colour); the
  same holds of every picture Pong flips, and of RetroBird's picture in every reachable
  state (\<open>paint_ok\<close> bounds the bird's and the particles' colours). The HUD shows score,
  lives and level as \<open>str()\<close> writes them and the game-over texts exactly when the game
  is over; over a run, the shield countdown \<open>SHIELD: ks\<close> is shown, with k between 0 and
  6 seconds, exactly while the shield is up, so the HUD of \<open>SpaceInvader.py\<close> agrees
  with the power-up timers of \<open>Player.update\<close>; Pong's HUD shows both scores and the pause banner exactly when paused;
  RetroBird's game-over panel appears exactly when the bird is dead after the frame.
  Rendering leaves the game state as it is except for the engine glow, and a particle is
  drawn the same at every positive lifetime: the alpha \<open>Particle.draw\<close> computes is
  never used.

  At start-up \<open>get_font\<close> returns the first system font that loads (it is
  \<open>List.find\<close> over the names), always at the size asked for, and \<open>None\<close> only when
  every fallback raises; Pong's and RetroBird's three fonts always come from one family, and
  their module fails only when both families fail. Space Invader opens at least 320 x 240
  whatever the environment, and writes no variable but \<open>SDL_VIDEO_WINDOW_POS\<close>.

  \<^bold>\<open>Modelling choices.\<close>
  Floats are reals: IEEE rounding is not modelled. Random draws are read from an explicit
  source whose values lie in \<open>[0, 1)\<close>; a theorem about a random outcome holds for every
  source. A frame is the sequence of drawing calls with their arguments, not the pixels
  they produce; colour arguments are checked as pygame checks them. The frame-rate cap
  (\<open>clock.tick\<close>) and the blocking delays are timing only and are not modelled. \<open>main.py\<close> imports a module
  \<open>objects\<close>; the only module of that name under \<open>src/\<close> is
  \<open>arcade-flipper/src/games/RetroBird/objects.py\<close>, and that is the one modelled.
  \<open>math.cos\<close>, \<open>math.sin\<close> and \<open>math.pi\<close> are the real functions. No loop of the games is unbounded within a
  frame, so every operation is a total function and no fuel is needed; runs of many frames
  are iterations (\<open>f ^^ n\<close>) or the reachability relations. A \<open>char\<close> is the
  Unicode code point of the same number, so the strings of the model are the Python
  strings of code points up to U+00FF (an environment variable is decoded to code points);
  on them \<open>strip\<close>, \<open>lower\<close> and \<open>int()\<close> are exact, Latin-1 white space (U+0085,
  U+00A0) and capitals included. \<open>int()\<close> uses the default digit limit of CPython 3.11
  and later (4300); a different limit set through \<open>PYTHONINTMAXSTRDIGITS\<close> is not modelled.

  \<^bold>\<open>Not modelled.\<close>
  The pixels the drawing calls produce (rasterisation, anti-aliasing, alpha blending,
  the glyphs of a font) are pygame's and SDL's, not code of the repository; the model
  stops at the calls and their arguments. Which fonts a machine has is the parameter
  \<open>font_env\<close>, not modelled further. \<open>pygame.init\<close>, \<open>pygame.font.init\<close> (whose
  failure is ignored), \<open>set_caption\<close>, \<open>display.flip\<close> and \<open>pygame.quit\<close> change
  no state of the games. The window SDL creates from \<open>set_mode\<close> is pygame's.
  Strings with code points beyond U+00FF (where Python's \<open>int()\<close> also reads other
  scripts' digits) cannot be written in the model; \<open>str()\<close> of an int is total in the
  model, while CPython raises past 4300 digits, a size no score, life count or timer of the
  games reaches in a feasible run.
  Every other line of the four sources is modelled; the only lines outside the
  definitions are imports, comments, and Pong's module-level overlay surfaces, which hold
  the same pictures the \<open>make_*\<close> calls give and are modelled where they are drawn.
\<close>

section \<open>Space Invader: properties of a round\<close>

text \<open>C4: in every state a run of the game reaches, the game is over exactly when no lives
  remain.\<close>

theorem si_game_over_iff_no_lives:
  "si_reachable scr s \<Longrightarrow> bt_game_state s = Game_over \<longleftrightarrow> bt_lives s \<le> 0"
  using si_reachable_inv [of scr s] by (cases "bt_game_state s") (auto simp: battle_inv_def)

theorem si_game_over_iff_no_lives_witness:
  "let scr = \<lparr>scr_w = 800, scr_h = 600\<rparr>; s = battle_new scr \<lparr>rnd_src = \<lambda>_. 0, rnd_pos = 0\<rparr>
   in si_reachable scr s \<and> (bt_game_state s = Game_over \<longleftrightarrow> bt_lives s \<le> 0)"
proof -
  let ?scr = "\<lparr>scr_w = 800, scr_h = 600\<rparr>"
  let ?s = "battle_new ?scr \<lparr>rnd_src = \<lambda>_. 0, rnd_pos = 0\<rparr>"
  have r: "si_reachable ?scr ?s" by (rule si_reachable.start) (simp add: rng_ok_def)
  show ?thesis using r si_game_over_iff_no_lives [OF r] by (simp add: Let_def)
qed

text \<open>C5: within a round (a frame that starts while playing) the score never falls and the
  lives never rise; only the restart resets them.\<close>

theorem si_round_monotone:
  assumes "si_reachable scr s" and "bt_game_state s = Playing" and "si_frame scr inp s = Some s'"
  shows "bt_score s \<le> bt_score s' \<and> bt_lives s' \<le> bt_lives s"
  using si_frame_playing_mono [OF si_reachable_inv [OF assms(1)] assms(2,3)] .

theorem si_round_monotone_witness:
  "let scr = \<lparr>scr_w = 800, scr_h = 600\<rparr>; s = battle_new scr \<lparr>rnd_src = \<lambda>_. 0, rnd_pos = 0\<rparr>;
       inp = \<lparr>fi_events = [], fi_held = \<lambda>_. False, fi_mouse = False, fi_ticks = 0\<rparr>
   in si_reachable scr s \<and> bt_game_state s = Playing \<and>
      si_frame scr inp s = Some (si_draw (si_update scr inp s)) \<and>
      bt_score s \<le> bt_score (si_draw (si_update scr inp s)) \<and>
      bt_lives (si_draw (si_update scr inp s)) \<le> bt_lives s"
proof -
  let ?scr = "\<lparr>scr_w = 800, scr_h = 600\<rparr>"
  let ?s = "battle_new ?scr \<lparr>rnd_src = \<lambda>_. 0, rnd_pos = 0\<rparr>"
  let ?inp = "\<lparr>fi_events = [], fi_held = \<lambda>_. False, fi_mouse = False, fi_ticks = 0\<rparr>"
  have r: "si_reachable ?scr ?s" by (rule si_reachable.start) (simp add: rng_ok_def)
  have p: "bt_game_state ?s = Playing" by (simp add: battle_new_def split_def Let_def)
  have f: "si_frame ?scr ?inp ?s = Some (si_draw (si_update ?scr ?inp ?s))"
    using p by (simp add: si_frame_def)
  show ?thesis using si_round_monotone [OF r p f] r p f by (simp add: Let_def)
qed

text \<open>C6: in every reachable state the level is one more than the number of completed
  batches of 20 destroyed aliens.\<close>

theorem si_level_tracks_kills:
  "si_reachable scr s \<Longrightarrow> bt_level s = 1 + bt_aliens_killed s div 20"
  using si_reachable_inv [of scr s] by (simp add: battle_inv_def)

theorem si_level_tracks_kills_witness:
  "let scr = \<lparr>scr_w = 800, scr_h = 600\<rparr>; s = battle_new scr \<lparr>rnd_src = \<lambda>_. 0, rnd_pos = 0\<rparr>
   in si_reachable scr s \<and> bt_level s = 1 + bt_aliens_killed s div 20"
proof -
  let ?scr = "\<lparr>scr_w = 800, scr_h = 600\<rparr>"
  let ?s = "battle_new ?scr \<lparr>rnd_src = \<lambda>_. 0, rnd_pos = 0\<rparr>"
  have r: "si_reachable ?scr ?s" by (rule si_reachable.start) (simp add: rng_ok_def)
  show ?thesis using r si_level_tracks_kills [OF r] by (simp add: Let_def)
qed

text \<open>C39: every alien of a reachable Space Invader state has the type the code gives its
  kind: \<open>alien_type\<close> is 0, 1 or 2, it is worth \<open>(alien_type + 1) * 10\<close> points, its
  rectangle is 50 x 50 and it falls at least one pixel a tick.\<close>

theorem si_aliens_typed:
  "si_reachable scr s \<Longrightarrow>
     \<forall>a\<in>set (bt_aliens s). al_type a \<in> {0, 1, 2} \<and> al_points a = 10 * (al_type a + 1) \<and>
       rw (al_rect a) = 50 \<and> rh (al_rect a) = 50 \<and> 1 \<le> al_speed_y a"
  using si_reachable_inv [of scr s] by (auto simp: battle_inv_def alien_ok_def)

theorem si_aliens_typed_witness:
  "let scr = \<lparr>scr_w = 800, scr_h = 600\<rparr>; s = battle_new scr \<lparr>rnd_src = \<lambda>_. 0, rnd_pos = 0\<rparr>
   in si_reachable scr s \<and> bt_aliens s = []"
proof -
  let ?scr = "\<lparr>scr_w = 800, scr_h = 600\<rparr>"
  let ?s = "battle_new ?scr \<lparr>rnd_src = \<lambda>_. 0, rnd_pos = 0\<rparr>"
  have r: "si_reachable ?scr ?s" by (rule si_reachable.start) (simp add: rng_ok_def)
  show ?thesis using r si_aliens_typed [OF r] by (simp add: Let_def battle_new_def split_def)
qed

section \<open>Space Invader: spawner and restart\<close>

text \<open>C7: the spawner counts down: with the timer at c > 0, the next c - 1 calls of
  spawn_alien spawn nothing and the c-th call spawns exactly one alien.\<close>

theorem spawn_countdown:
  assumes "bt_spawn_timer s = int c" and "0 < c"
  shows "(\<forall>k<c. bt_aliens ((spawn_alien scr t ^^ k) s) = bt_aliens s) \<and>
         length (bt_aliens ((spawn_alien scr t ^^ c) s)) = Suc (length (bt_aliens s))"
proof
  show "\<forall>k<c. bt_aliens ((spawn_alien scr t ^^ k) s) = bt_aliens s"
    using spawn_alien_waiting_iter [OF assms(1)] by simp
  obtain c' where c: "c = Suc c'" using assms(2) by (cases c) auto
  have "(spawn_alien scr t ^^ c') s = s\<lparr>bt_spawn_timer := 1\<rparr>"
    using spawn_alien_waiting_iter [OF assms(1), of c'] c by simp
  then show "length (bt_aliens ((spawn_alien scr t ^^ c) s)) = Suc (length (bt_aliens s))"
    using spawn_alien_fire [of "s\<lparr>bt_spawn_timer := 1\<rparr>" scr t] c by simp
qed

theorem spawn_countdown_witness:
  "let s = (battle_new \<lparr>scr_w = 800, scr_h = 600\<rparr> \<lparr>rnd_src = \<lambda>_. 0, rnd_pos = 0\<rparr>)\<lparr>bt_spawn_timer := 3\<rparr>
   in bt_spawn_timer s = int 3 \<and> 0 < (3::nat) \<and>
      (\<forall>k<3. bt_aliens ((spawn_alien \<lparr>scr_w = 800, scr_h = 600\<rparr> 0 ^^ k) s) = bt_aliens s) \<and>
      length (bt_aliens ((spawn_alien \<lparr>scr_w = 800, scr_h = 600\<rparr> 0 ^^ 3) s)) = Suc (length (bt_aliens s))"
proof -
  let ?s = "(battle_new \<lparr>scr_w = 800, scr_h = 600\<rparr> \<lparr>rnd_src = \<lambda>_. 0, rnd_pos = 0\<rparr>)\<lparr>bt_spawn_timer := 3\<rparr>"
  have h: "bt_spawn_timer ?s = int 3" by simp
  show ?thesis using spawn_countdown [OF h, of "\<lparr>scr_w = 800, scr_h = 600\<rparr>" 0] by (simp add: Let_def)
qed

text \<open>C8: when it spawns, spawn_alien re-arms the timer with max(20, 60 - 3 * level): between
  20 and 57 frames from level 1 on, shrinking as the level grows.\<close>

theorem spawn_rate_bounds:
  assumes "bt_spawn_timer s \<le> 1" and "1 \<le> bt_level s"
  shows "bt_spawn_timer (spawn_alien scr t s) = max 20 (60 - 3 * bt_level s) \<and>
         20 \<le> bt_spawn_timer (spawn_alien scr t s) \<and> bt_spawn_timer (spawn_alien scr t s) \<le> 57"
  using spawn_alien_fire [OF assms(1), of scr t] assms(2) by (auto simp: ALIEN_SPAWN_RATE_def)

theorem spawn_rate_bounds_witness:
  "let s = (battle_new \<lparr>scr_w = 800, scr_h = 600\<rparr> \<lparr>rnd_src = \<lambda>_. 0, rnd_pos = 0\<rparr>)\<lparr>bt_spawn_timer := 0, bt_level := 5\<rparr>
   in bt_spawn_timer s \<le> 1 \<and> 1 \<le> bt_level s \<and>
      bt_spawn_timer (spawn_alien \<lparr>scr_w = 800, scr_h = 600\<rparr> 0 s) = 45"
proof -
  let ?s = "(battle_new \<lparr>scr_w = 800, scr_h = 600\<rparr> \<lparr>rnd_src = \<lambda>_. 0, rnd_pos = 0\<rparr>)\<lparr>bt_spawn_timer := 0, bt_level := 5\<rparr>"
  have h: "bt_spawn_timer ?s \<le> 1" "1 \<le> bt_level ?s" by simp_all
  show ?thesis using spawn_rate_bounds [OF h, of "\<lparr>scr_w = 800, scr_h = 600\<rparr>" 0] by (simp add: Let_def)
qed

text \<open>C9: pressing r after game over restarts the round: aliens, alien bullets, power-ups
  and the player's bullets are cleared, score, lives, level and kills take their initial
  values, and the game is playing again; the particle list is left as it was.\<close>

theorem restart_resets_round:
  assumes "bt_game_state s = Game_over" and "si_handle_events scr [KEYDOWN K_r] s = Some s'"
  shows "bt_aliens s' = [] \<and> bt_alien_bullets s' = [] \<and> bt_powerups s' = [] \<and>
         pl_bullets (bt_player s') = [] \<and> bt_score s' = 0 \<and> bt_lives s' = 3 \<and> bt_level s' = 1 \<and>
         bt_aliens_killed s' = 0 \<and> bt_game_state s' = Playing \<and> bt_particles s' = bt_particles s"
  using assms by (auto simp: reset_game_def player_new_def)

theorem restart_resets_round_witness:
  "let scr = \<lparr>scr_w = 800, scr_h = 600\<rparr>;
       s = (battle_new scr \<lparr>rnd_src = \<lambda>_. 0, rnd_pos = 0\<rparr>)\<lparr>bt_game_state := Game_over, bt_lives := 0\<rparr>
   in bt_game_state s = Game_over \<and> si_handle_events scr [KEYDOWN K_r] s = Some (reset_game scr s) \<and>
      bt_lives (reset_game scr s) = 3 \<and> bt_particles (reset_game scr s) = bt_particles s"
proof -
  let ?scr = "\<lparr>scr_w = 800, scr_h = 600\<rparr>"
  let ?s = "(battle_new ?scr \<lparr>rnd_src = \<lambda>_. 0, rnd_pos = 0\<rparr>)\<lparr>bt_game_state := Game_over, bt_lives := 0\<rparr>"
  have h: "bt_game_state ?s = Game_over" "si_handle_events ?scr [KEYDOWN K_r] ?s = Some (reset_game ?scr ?s)"
    by simp_all
  show ?thesis using restart_resets_round [OF h] h by (simp add: Let_def)
qed

section \<open>Space Invader: lifetimes, bounds and rates\<close>

text \<open>C12: a well-formed alien that is not shot leaves the screen at the bottom: after more
  than screen_height - top moves its top edge is below the screen.\<close>

theorem alien_leaves_field:
  assumes "alien_ok a" and "nat (scr_h scr - rect_top (al_rect a)) < n"
  shows "scr_h scr < rect_top (al_rect ((alien_move scr ^^ n) a))"
proof -
  have "1 \<le> al_speed_y a" using assms(1) by (simp add: alien_ok_def)
  from alien_moves_descend [OF this, of n scr] assms(2) show ?thesis by linarith
qed

theorem alien_leaves_field_witness:
  "let a = \<lparr>al_type = 0, al_rect = rect_center 50 50 400 (-50), al_speed_y = 1.5, al_speed_x = 0,
            al_points = 10, al_shoot_cooldown = 60, al_wobble = 0\<rparr>;
       scr = \<lparr>scr_w = 800, scr_h = 600\<rparr>
   in alien_ok a \<and> nat (scr_h scr - rect_top (al_rect a)) < 700 \<and>
      scr_h scr < rect_top (al_rect ((alien_move scr ^^ 700) a))"
proof -
  let ?a = "\<lparr>al_type = 0, al_rect = rect_center 50 50 400 (-50), al_speed_y = 1.5, al_speed_x = 0,
            al_points = 10, al_shoot_cooldown = 60, al_wobble = 0\<rparr>"
  let ?scr = "\<lparr>scr_w = 800, scr_h = 600\<rparr>"
  have h: "alien_ok ?a" "nat (scr_h ?scr - rect_top (al_rect ?a)) < 700"
    by (simp_all add: alien_ok_def rect_center_def rect_edges)
  show ?thesis using alien_leaves_field [OF h] h by (simp add: Let_def)
qed

text \<open>A triple-shot power-up stays active for exactly 400 power-up updates after it is
  picked up.\<close>

theorem triple_shot_duration:
  "pl_powerup_active ((player_update_powerups ^^ k) (player_activate_powerup Triple p)) \<longleftrightarrow> k < 400"
  by (rule powerup_timer_runs) (simp_all add: player_activate_powerup_def)

text \<open>Lives are not bounded below by zero: two unshielded alien-bullet hits in the same
  tick take a player with one life to -1.\<close>

theorem si_lives_can_go_negative:
  "let scr = \<lparr>scr_w = 800, scr_h = 600\<rparr>;
       b = alien_bullet_new 398 518;
       s = (battle_new scr \<lparr>rnd_src = \<lambda>_. 0, rnd_pos = 0\<rparr>)\<lparr>bt_lives := 1, bt_alien_bullets := [b, b]\<rparr>
   in battle_inv s \<and> bt_game_state s = Playing \<and>
      bt_lives (update_alien_bullets scr s) = -1 \<and> bt_game_state (update_alien_bullets scr s) = Game_over"
proof -
  let ?scr = "\<lparr>scr_w = 800, scr_h = 600\<rparr>"
  let ?g = "\<lparr>rnd_src = \<lambda>_. 0, rnd_pos = 0\<rparr>"
  let ?b = "alien_bullet_new 398 518"
  let ?s = "(battle_new ?scr ?g)\<lparr>bt_lives := 1, bt_alien_bullets := [?b, ?b]\<rparr>"
  have inv0: "battle_inv (battle_new ?scr ?g)" by (rule battle_new_inv) (simp add: rng_ok_def)
  have pl: "bt_player ?s = player_new ?scr" "bt_game_state ?s = Playing"
    by (simp_all add: battle_new_def split_def Let_def)
  have inv: "battle_inv ?s" using inv0 pl(2) by (simp add: battle_inv_def)
  have hit: "colliderect (ab_rect (alien_bullet_move ?b)) (pl_rect (player_new ?scr))"
    and on: "\<not> scr_h ?scr < rect_top (ab_rect (alien_bullet_move ?b))"
    and sh: "\<not> pl_shield_active (player_new ?scr)"
    by (simp_all add: alien_bullet_new_def alien_bullet_move_def rect_center_def player_new_def
        rect_midbottom_def colliderect_def rect_edges)
  have "bt_lives (update_alien_bullets ?scr ?s) = -1 \<and> bt_game_state (update_alien_bullets ?scr ?s) = Game_over"
    using hit on sh pl by (simp add: update_alien_bullets_def Let_def)
  with inv pl show ?thesis by (simp add: Let_def)
qed

section \<open>Space Invader: the HUD over a run\<close>

text \<open>C19: in every state a run of Space Invader reaches, when the HUD fonts load, the
  frame shows a shield countdown \<open>SHIELD: ks\<close> with k between 0 and 6 seconds exactly
  while the shield is up: the drawing of the HUD and the timer invariant of the ship
  agree.\<close>

theorem si_hud_shield_countdown:
  assumes "si_reachable scr s" and "fonts 32" and "fonts 24"
  shows "(\<exists>k. 0 \<le> k \<and> k \<le> 6 \<and>
            ''SHIELD: '' @ py_str_int k @ ''s'' \<in> set (frame_texts (snd (si_render fonts scr t s))))
         \<longleftrightarrow> pl_shield_active (bt_player s)"
proof -
  have "timers_ok (bt_player s)" using si_reachable_timers [OF assms(1)] .
  then have bound: "pl_shield_active (bt_player s) \<Longrightarrow>
               0 \<le> pl_shield_timer (bt_player s) div 60 \<and> pl_shield_timer (bt_player s) div 60 \<le> 6"
    using zdiv_mono1 [of "pl_shield_timer (bt_player s)" 400 60] by (auto simp: timers_ok_def)
  note shown = si_render_shield_text [of _ fonts scr t s]
  show ?thesis
  proof
    assume "\<exists>k. 0 \<le> k \<and> k \<le> 6 \<and>
              ''SHIELD: '' @ py_str_int k @ ''s'' \<in> set (frame_texts (snd (si_render fonts scr t s)))"
    then show "pl_shield_active (bt_player s)" using shown by blast
  next
    assume "pl_shield_active (bt_player s)"
    with bound show "\<exists>k. 0 \<le> k \<and> k \<le> 6 \<and>
              ''SHIELD: '' @ py_str_int k @ ''s'' \<in> set (frame_texts (snd (si_render fonts scr t s)))"
      using shown [of "pl_shield_timer (bt_player s) div 60"] assms(2,3) by blast
  qed
qed

theorem si_hud_shield_countdown_witness:
  "let scr = \<lparr>scr_w = 800, scr_h = 600\<rparr>; s = battle_new scr \<lparr>rnd_src = \<lambda>_. 0, rnd_pos = 0\<rparr>
   in si_reachable scr s \<and>
      \<not> (\<exists>k. 0 \<le> k \<and> k \<le> 6 \<and>
            ''SHIELD: '' @ py_str_int k @ ''s'' \<in> set (frame_texts (snd (si_render (\<lambda>_. True) scr 0 s))))"
proof -
  define scr :: screen where "scr = \<lparr>scr_w = 800, scr_h = 600\<rparr>"
  define s where "s = battle_new scr \<lparr>rnd_src = \<lambda>_. 0, rnd_pos = 0\<rparr>"
  have r: "si_reachable scr s" unfolding s_def by (rule si_reachable.start) simp
  have off: "\<not> pl_shield_active (bt_player s)"
    by (simp add: s_def battle_new_def player_new_def split_def Let_def)
  show ?thesis using si_hud_shield_countdown [OF r, of "\<lambda>_. True" 0] r off
    by (simp only: Let_def scr_def [symmetric] s_def [symmetric]) simp
qed

end
